(* ===== verification/Js_Prelude.thy ===== *)
theory Js_Prelude
  imports Main "HOL-Library.Char_ord" "HOL-Library.List_Lexorder" "HOL-Library.Multiset"
    "HOL-Library.Sublist" "HOL-Library.AList"
begin

text \<open>
  The prelude of the development: what the web frontend uses of the JavaScript language and that
  several components share.
  \<^item> Exceptions as values: \<open>js_error\<close> and the sum type \<open>'a throws\<close> with its sequencing \<open>bindE\<close>.
  \<^item> Strings as \<open>string\<close> (one \<open>char\<close> per code unit, so the model covers code units below 256):
    \<open>split\<close> on a one-character separator, \<open>includes\<close>, \<open>join\<close>, \<open>toLowerCase\<close>.
  \<^item> \<open>Set\<close> objects as distinct lists in insertion order.
  \<^item> \<open>Map\<close> objects and plain objects used as dictionaries as association lists in insertion
    order; storing is \<open>AList.update\<close>, deleting is \<open>AList.delete\<close>, reading is \<open>map_of\<close>.
\<close>

text \<open>Reading a dictionary, and its keys, after a store or a deletion.\<close>

named_theorems dict_simps

section \<open>Exceptions\<close>

datatype js_error =
    TypeError                \<comment> \<open>reading a property of undefined or null, calling a non-function\<close>
  | SyntaxError              \<comment> \<open>a text \<open>JSON.parse\<close> cannot read\<close>
  | JsError string           \<comment> \<open>throw new Error(message)\<close>

type_synonym 'a throws = "js_error + 'a"

definition bindE :: "'e + 'a \<Rightarrow> ('a \<Rightarrow> 'e + 'b) \<Rightarrow> 'e + 'b" where
  "bindE m f = (case m of Inl e \<Rightarrow> Inl e | Inr a \<Rightarrow> f a)"

fun mapE :: "('a \<Rightarrow> 'e + 'b) \<Rightarrow> 'a list \<Rightarrow> 'e + 'b list" where
  "mapE f [] = Inr []"
| "mapE f (x # xs) = bindE (f x) (\<lambda>y. bindE (mapE f xs) (\<lambda>ys. Inr (y # ys)))"

section \<open>Strings\<close>

fun js_split :: "char \<Rightarrow> string \<Rightarrow> string list" where
  "js_split c [] = [[]]"
| "js_split c (x # xs) =
     (if x = c then [] # js_split c xs
      else (case js_split c xs of [] \<Rightarrow> [[x]] | y # ys \<Rightarrow> (x # y) # ys))"

fun js_join :: "string \<Rightarrow> string list \<Rightarrow> string" where
  "js_join sep [] = []"
| "js_join sep [s] = s"
| "js_join sep (s # t # ss) = s @ sep @ js_join sep (t # ss)"

fun js_includes :: "string \<Rightarrow> string \<Rightarrow> bool" where
  "js_includes [] t = (t = [])"
| "js_includes (x # xs) t = (take (length t) (x # xs) = t \<or> js_includes xs t)"

text \<open>\<open>s.replace(t, '')\<close> for a string \<open>t\<close>: the first occurrence.\<close>

fun js_remove :: "string \<Rightarrow> string \<Rightarrow> string" where
  "js_remove [] t = []"
| "js_remove (x # xs) t =
     (if take (length t) (x # xs) = t then drop (length t) (x # xs) else x # js_remove xs t)"

definition lower_char :: "char \<Rightarrow> char" where
  "lower_char c =
     (let n = (of_char c :: nat)
      in if 65 \<le> n \<and> n \<le> 90 \<or> 192 \<le> n \<and> n \<le> 222 \<and> n \<noteq> 215 then char_of (n + 32) else c)"

definition toLowerCase :: "string \<Rightarrow> string" where
  "toLowerCase s = map lower_char s"

section \<open>Sets in insertion order\<close>

definition set_add :: "'a \<Rightarrow> 'a list \<Rightarrow> 'a list" where
  "set_add x xs = (if x \<in> set xs then xs else xs @ [x])"

definition set_delete :: "'a \<Rightarrow> 'a list \<Rightarrow> 'a list" where
  "set_delete x xs = filter (\<lambda>y. y \<noteq> x) xs"

definition new_Set :: "'a list \<Rightarrow> 'a list" where
  "new_Set xs = fold set_add xs []"

section \<open>Lemmas on exceptions\<close>

lemma bindE_simps [simp]: "bindE (Inl e) f = Inl e" "bindE (Inr a) f = f a"
  by (simp_all add: bindE_def)

lemma bindE_Inr_conv [simp]: "bindE m f = Inr b \<longleftrightarrow> (\<exists>a. m = Inr a \<and> f a = Inr b)"
  by (cases m) simp_all

lemma bindE_Inl_conv: "bindE m f = Inl e \<longleftrightarrow> m = Inl e \<or> (\<exists>a. m = Inr a \<and> f a = Inl e)"
  by (cases m) simp_all

lemma mapE_Inr: "(\<And>x. x \<in> set xs \<Longrightarrow> f x = Inr (g x)) \<Longrightarrow> mapE f xs = Inr (map g xs)"
  by (induction xs) auto

lemma mapE_pure [simp]: "mapE (\<lambda>x. Inr (g x)) xs = Inr (map g xs)"
  by (rule mapE_Inr) simp

lemma mapE_Inr_conv: "mapE f xs = Inr ys \<longleftrightarrow> list_all2 (\<lambda>x y. f x = Inr y) xs ys"
  by (induction xs arbitrary: ys) (auto simp: list_all2_Cons1)

lemma mapE_map:
  "mapE f xs = Inr ys \<Longrightarrow> (\<And>x y. f x = Inr y \<Longrightarrow> g y = h x) \<Longrightarrow> map g ys = map h xs"
  by (induction xs arbitrary: ys) auto

section \<open>Lemmas on strings\<close>

lemma js_split_nonempty [simp]: "js_split c s \<noteq> []"
  by (induction s) (auto split: list.splits)

lemma js_split_no_sep: "c \<notin> set s \<Longrightarrow> js_split c s = [s]"
  by (induction s) auto

lemma js_split_sep: "c \<notin> set a \<Longrightarrow> js_split c (a @ c # b) = a # js_split c b"
  by (induction a) auto

lemma js_split_length: "length (js_split c s) = Suc (count_list s c)"
  by (induction s) (auto split: list.splits)

lemma js_split_parts: "p \<in> set (js_split c s) \<Longrightarrow> c \<notin> set p"
proof (induction s arbitrary: p)
  case (Cons x xs)
  obtain y ys where "js_split c xs = y # ys" by (cases "js_split c xs") auto
  then show ?case using Cons by (auto split: if_splits)
qed simp

lemma js_join_split: "js_join [c] (js_split c s) = s"
proof (induction s)
  case (Cons x xs)
  obtain y ys where s: "js_split c xs = y # ys" by (cases "js_split c xs") auto
  then have "js_join [c] ((x # y) # ys) = x # js_join [c] (y # ys)" by (cases ys) auto
  then show ?case using Cons s by auto
qed simp

lemma js_split_join:
  "ss \<noteq> [] \<Longrightarrow> (\<And>s. s \<in> set ss \<Longrightarrow> c \<notin> set s) \<Longrightarrow> js_split c (js_join [c] ss) = ss"
proof (induction ss rule: induct_list012)
  case (3 s t ss)
  then show ?case by (auto simp: js_split_sep)
qed (auto simp: js_split_no_sep)

lemma js_includes_sublist: "js_includes s t \<longleftrightarrow> sublist t s"
proof (induction s)
  case (Cons x xs)
  have "take (length t) (x # xs) = t \<longleftrightarrow> prefix t (x # xs)"
    by (metis append_eq_conv_conj append_take_drop_id prefix_def)
  then show ?case using Cons by (simp add: sublist_Cons_right)
qed auto

section \<open>Lemmas on sets and dictionaries\<close>

lemma set_set_add [simp]: "set (set_add x xs) = insert x (set xs)"
  by (auto simp: set_add_def)

lemma distinct_set_add [simp]: "distinct (set_add x xs) = distinct xs"
  by (auto simp: set_add_def)

lemma set_set_delete [simp]: "set (set_delete x xs) = set xs - {x}"
  by (auto simp: set_delete_def)

lemma distinct_set_delete [simp]: "distinct xs \<Longrightarrow> distinct (set_delete x xs)"
  by (simp add: set_delete_def)

lemma set_fold_set_add: "set (fold set_add xs ys) = set ys \<union> set xs"
  by (induction xs arbitrary: ys) auto

lemma distinct_fold_set_add: "distinct ys \<Longrightarrow> distinct (fold set_add xs ys)"
  by (induction xs arbitrary: ys) auto

lemma set_new_Set [simp]: "set (new_Set xs) = set xs"
  by (simp add: new_Set_def set_fold_set_add)

lemma distinct_new_Set [simp]: "distinct (new_Set xs)"
  by (simp add: new_Set_def distinct_fold_set_add)

text \<open>Elements that are told apart by \<open>f\<close> stay distinct under it.\<close>

lemma distinct_map_filter_nth:
  assumes "\<And>i j. i < length xs \<Longrightarrow> j < length xs \<Longrightarrow> P (xs ! i) \<Longrightarrow> P (xs ! j) \<Longrightarrow> f (xs ! i) = f (xs ! j) \<Longrightarrow> i = j"
  shows "distinct (map f (filter P xs))"
  using assms
proof (induction xs)
  case (Cons x xs)
  have "distinct (map f (filter P xs))"
    by (rule Cons.IH) (use Cons.prems [of "Suc i" "Suc j" for i j] in fastforce)
  moreover have "f x \<noteq> f y" if "P x" "y \<in> set xs" "P y" for y
    using that Cons.prems [of 0 "Suc j" for j] by (fastforce simp: in_set_conv_nth)
  ultimately show ?case by auto
qed simp

declare AList.update_conv' [dict_simps] AList.delete_conv' [dict_simps] AList.dom_update [dict_simps]
  AList.delete_keys [dict_simps]

end
