(* ===== verification/Js_Sort.thy ===== *)
theory Js_Sort
  imports Js_Prelude
begin

text \<open>
  \<open>Array.prototype.sort\<close> with a comparator. The standard fixes the result for a consistent
  comparator (the stable sorted permutation); \<open>js_sort\<close> computes it by inserting each element
  after those it does not precede, which is what an engine does on short arrays.
  \<^item> The locale \<open>array_sort\<close> is the contract between a comparator and the sort: on the carrier
    \<open>ok\<close> the comparator's sign agrees with a transitive relation \<open>le\<close>. It gives: the result is a
    sorted permutation.
  \<^item> The locale \<open>array_sort_total\<close> adds antisymmetry: the result is the only sorted permutation,
    so it does not depend on the engine's algorithm or on the order of the input.
\<close>

fun js_insert :: "('a \<Rightarrow> 'a \<Rightarrow> int) \<Rightarrow> 'a \<Rightarrow> 'a list \<Rightarrow> 'a list" where
  "js_insert cmp x [] = [x]"
| "js_insert cmp x (y # ys) = (if cmp x y < 0 then x # y # ys else y # js_insert cmp x ys)"

definition js_sort :: "('a \<Rightarrow> 'a \<Rightarrow> int) \<Rightarrow> 'a list \<Rightarrow> 'a list" where
  "js_sort cmp xs = fold (js_insert cmp) xs []"

lemma mset_js_insert [simp]: "mset (js_insert cmp x ys) = add_mset x (mset ys)"
  by (induction ys) auto

lemma mset_fold_insert: "mset (fold (js_insert cmp) xs ys) = mset xs + mset ys"
  by (induction xs arbitrary: ys) auto

lemma mset_js_sort [simp]: "mset (js_sort cmp xs) = mset xs"
  by (simp add: js_sort_def mset_fold_insert)

lemma set_js_insert [simp]: "set (js_insert cmp x ys) = insert x (set ys)"
  by (metis mset_js_insert set_mset_add_mset_insert set_mset_mset)

lemma set_js_sort [simp]: "set (js_sort cmp xs) = set xs"
  by (metis mset_js_sort set_mset_mset)

lemma length_js_sort [simp]: "length (js_sort cmp xs) = length xs"
  by (metis mset_js_sort size_mset)

lemma js_sort_Nil [simp]: "js_sort cmp [] = []"
  by (simp add: js_sort_def)

lemma distinct_js_sort [simp]: "distinct (js_sort cmp xs) = distinct xs"
  by (metis mset_js_sort mset_eq_imp_distinct_iff)

lemma filter_js_sort_mset: "mset (filter P (js_sort cmp xs)) = mset (filter P xs)"
  by (simp add: mset_filter)

locale array_sort =
  fixes cmp :: "'a \<Rightarrow> 'a \<Rightarrow> int"
    and le :: "'a \<Rightarrow> 'a \<Rightarrow> bool"
    and ok :: "'a \<Rightarrow> bool"
  assumes before: "ok x \<Longrightarrow> ok y \<Longrightarrow> cmp x y < 0 \<Longrightarrow> le x y"
    and after: "ok x \<Longrightarrow> ok y \<Longrightarrow> \<not> cmp x y < 0 \<Longrightarrow> le y x"
    and le_trans: "ok x \<Longrightarrow> ok y \<Longrightarrow> ok z \<Longrightarrow> le x y \<Longrightarrow> le y z \<Longrightarrow> le x z"
begin

lemma sorted_insert:
  "ok x \<Longrightarrow> Ball (set ys) ok \<Longrightarrow> sorted_wrt le ys \<Longrightarrow> sorted_wrt le (js_insert cmp x ys)"
proof (induction ys)
  case (Cons y ys)
  show ?case
  proof (cases "cmp x y < 0")
    case True
    then have "le x y" using Cons.prems by (simp add: before)
    then have "\<forall>z \<in> set ys. le x z" using Cons.prems by (auto intro: le_trans [of x y])
    then show ?thesis using Cons.prems True \<open>le x y\<close> by simp
  next
    case False
    then have "le y x" using Cons.prems by (simp add: after)
    then show ?thesis using Cons False by auto
  qed
qed simp

lemma sorted_fold:
  "Ball (set xs) ok \<Longrightarrow> Ball (set ys) ok \<Longrightarrow> sorted_wrt le ys
    \<Longrightarrow> sorted_wrt le (fold (js_insert cmp) xs ys)"
  by (induction xs arbitrary: ys) (auto simp: sorted_insert)

lemma sort_sorted: "Ball (set xs) ok \<Longrightarrow> sorted_wrt le (js_sort cmp xs)"
  by (simp add: js_sort_def sorted_fold)

lemma sort_correct:
  "Ball (set xs) ok \<Longrightarrow> sorted_wrt le (js_sort cmp xs) \<and> mset (js_sort cmp xs) = mset xs"
  by (simp add: sort_sorted)

end

locale array_sort_total = array_sort +
  assumes le_antisym: "ok x \<Longrightarrow> ok y \<Longrightarrow> le x y \<Longrightarrow> le y x \<Longrightarrow> x = y"
begin

lemma sorted_unique:
  "Ball (set xs) ok \<Longrightarrow> sorted_wrt le xs \<Longrightarrow> sorted_wrt le ys \<Longrightarrow> mset xs = mset ys \<Longrightarrow> xs = ys"
proof (induction xs arbitrary: ys)
  case (Cons x xs)
  then obtain y zs where ys: "ys = y # zs" by (cases ys) auto
  have sets: "set ys = set (x # xs)" using Cons.prems(4) by (metis set_mset_mset)
  have "x = y"
  proof (rule ccontr)
    assume "x \<noteq> y"
    then have "x \<in> set zs" and "y \<in> set xs" using sets ys by auto
    then have "le y x" and "le x y" using Cons.prems(2,3) ys by auto
    then show False using \<open>x \<noteq> y\<close> Cons.prems(1) \<open>y \<in> set xs\<close> le_antisym [of x y] by auto
  qed
  then show ?case using Cons ys by auto
qed simp

lemma sort_unique:
  "Ball (set xs) ok \<Longrightarrow> sorted_wrt le ys \<Longrightarrow> mset ys = mset xs \<Longrightarrow> js_sort cmp xs = ys"
  by (rule sorted_unique) (auto simp: sort_sorted)

end

end
