(* ===== verification/Resource.thy ===== *)
theory Resource
  imports Js_Sort "HOL-Library.Product_Lexorder"
begin

text \<open>
  Resource names: \<open>lib/resource.ts\<close> and the parser \<open>stringToResourceName\<close> of \<open>app.vue\<close>.
  The record is the protobuf \<open>ResourceName.AsObject\<close>. An argument the code guards with
  \<open>if (!resource)\<close> is an option. The status dictionary of \<open>filterRdkComponentsWithStatus\<close>
  comes with the truthiness \<open>tr\<close> of its values.
\<close>

record resource_name =
  rn_namespace :: string
  rn_type :: string
  rn_subtype :: string
  rn_name :: string

section \<open>lib/resource.ts\<close>

definition sortByName :: "resource_name \<Rightarrow> resource_name \<Rightarrow> int" where
  "sortByName item1 item2 =
     (if rn_name item1 > rn_name item2 then 1
      else if rn_name item1 < rn_name item2 then - 1
      else if rn_subtype item1 > rn_subtype item2 then 1
      else if rn_subtype item1 < rn_subtype item2 then - 1
      else if rn_type item1 > rn_type item2 then 1
      else if rn_type item1 < rn_type item2 then - 1
      else if rn_namespace item1 > rn_namespace item2 then 1 else - 1)"

definition resourceNameToSubtypeString :: "resource_name option \<Rightarrow> string" where
  "resourceNameToSubtypeString resource =
     (case resource of
        None \<Rightarrow> ''''
      | Some r \<Rightarrow> rn_namespace r @ '':'' @ rn_type r @ '':'' @ rn_subtype r)"

definition resourceNameToString :: "resource_name option \<Rightarrow> string" where
  "resourceNameToString resource =
     (case resource of
        None \<Rightarrow> ''''
      | Some r \<Rightarrow>
          (let strName = resourceNameToSubtypeString (Some r)
           in if rn_name r \<noteq> '''' then strName @ ''/'' @ rn_name r else strName))"

definition filterResources ::
  "resource_name list \<Rightarrow> string \<Rightarrow> string \<Rightarrow> string \<Rightarrow> resource_name list" where
  "filterResources resources ns ty sub =
     (let results = filter (\<lambda>r. rn_namespace r = ns \<and> rn_type r = ty \<and> rn_subtype r = sub) resources
      in js_sort sortByName results)"

definition filterNonRemoteResources ::
  "resource_name list \<Rightarrow> string \<Rightarrow> string \<Rightarrow> string \<Rightarrow> resource_name list" where
  "filterNonRemoteResources resources ns ty sub =
     filter (\<lambda>r. \<not> js_includes (rn_name r) '':'') (filterResources resources ns ty sub)"

definition filterRdkComponentsWithStatus ::
  "('v \<Rightarrow> bool) \<Rightarrow> resource_name list \<Rightarrow> (string \<times> 'v) list \<Rightarrow> string \<Rightarrow> resource_name list" where
  "filterRdkComponentsWithStatus tr resources status sub =
     js_sort sortByName
       (filter (\<lambda>r. rn_namespace r = ''rdk'' \<and> rn_type r = ''component'' \<and> rn_subtype r = sub \<and>
                    (case map_of status (resourceNameToString (Some r)) of
                       None \<Rightarrow> False | Some v \<Rightarrow> tr v))
         resources)"

definition filterComponentsWithNames :: "resource_name list \<Rightarrow> resource_name list" where
  "filterComponentsWithNames resources =
     js_sort sortByName (filter (\<lambda>r. rn_name r \<noteq> '''' \<and> rn_type r = ''component'') resources)"

section \<open>stringToResourceName (app.vue)\<close>

definition stringToResourceName :: "string \<Rightarrow> resource_name throws" where
  "stringToResourceName nameStr =
     (let parts = js_split (CHR ''/'') nameStr;
          pfx = hd parts;
          name = (case tl parts of [] \<Rightarrow> '''' | sfx # _ \<Rightarrow> sfx);
          subtypeParts = js_split (CHR '':'') pfx
      in if length subtypeParts > 3 then Inl (JsError ''more than 2 colons in resource name string'')
         else if length subtypeParts < 3 then Inl (JsError ''less than 2 colons in resource name string'')
         else Inr \<lparr>rn_namespace = subtypeParts ! 0, rn_type = subtypeParts ! 1,
                   rn_subtype = subtypeParts ! 2, rn_name = name\<rparr>)"

section \<open>The order the sorted lists have\<close>

definition rkey :: "resource_name \<Rightarrow> string \<times> string \<times> string \<times> string" where
  "rkey r = (rn_name r, rn_subtype r, rn_type r, rn_namespace r)"

definition le_resource :: "resource_name \<Rightarrow> resource_name \<Rightarrow> bool" where
  "le_resource r s \<longleftrightarrow> rkey r \<le> rkey s"

text \<open>A name whose printed form can be read back.\<close>

definition printable :: "resource_name \<Rightarrow> bool" where
  "printable r \<longleftrightarrow>
     (\<forall>s \<in> {rn_namespace r, rn_type r, rn_subtype r}. CHR '':'' \<notin> set s \<and> CHR ''/'' \<notin> set s)
     \<and> CHR ''/'' \<notin> set (rn_name r)"

lemma rkey_inj: "rkey r = rkey s \<Longrightarrow> r = s"
  by (simp add: rkey_def)

lemma sortByName_less: "sortByName r s < 0 \<Longrightarrow> le_resource r s"
  by (auto simp: sortByName_def le_resource_def rkey_def split: if_splits)

lemma sortByName_ge: "\<not> sortByName r s < 0 \<Longrightarrow> le_resource s r"
  by (auto simp: sortByName_def le_resource_def rkey_def split: if_splits)

lemma le_resource_trans: "le_resource r s \<Longrightarrow> le_resource s t \<Longrightarrow> le_resource r t"
  unfolding le_resource_def by (rule order_trans)

interpretation by_name: array_sort_total sortByName le_resource "\<lambda>_. True"
proof unfold_locales
  show "le_resource r s \<Longrightarrow> le_resource s r \<Longrightarrow> r = s" for r s
    unfolding le_resource_def by (rule rkey_inj) simp
qed (auto simp: sortByName_less sortByName_ge elim: le_resource_trans)

text \<open>That order makes the names a linear order, so the library's \<open>sort\<close> applies to them.\<close>

instantiation resource_name_ext :: (linorder) linorder
begin

definition less_eq_resource_name_ext :: "'a resource_name_scheme \<Rightarrow> 'a resource_name_scheme \<Rightarrow> bool" where
  "r \<le> s \<longleftrightarrow> (rn_name r, rn_subtype r, rn_type r, rn_namespace r, resource_name.more r)
               \<le> (rn_name s, rn_subtype s, rn_type s, rn_namespace s, resource_name.more s)"

definition less_resource_name_ext :: "'a resource_name_scheme \<Rightarrow> 'a resource_name_scheme \<Rightarrow> bool" where
  "r < s \<longleftrightarrow> (rn_name r, rn_subtype r, rn_type r, rn_namespace r, resource_name.more r)
               < (rn_name s, rn_subtype s, rn_type s, rn_namespace s, resource_name.more s)"

instance
proof
  fix r s t :: "'a resource_name_scheme"
  show "r < s \<longleftrightarrow> r \<le> s \<and> \<not> s \<le> r" "r \<le> r" "r \<le> s \<or> s \<le> r"
    unfolding less_eq_resource_name_ext_def less_resource_name_ext_def by (rule less_le_not_le order_refl linear)+
  show "r \<le> s \<Longrightarrow> s \<le> t \<Longrightarrow> r \<le> t"
    unfolding less_eq_resource_name_ext_def by (rule order_trans)
  show "r \<le> s \<Longrightarrow> s \<le> r \<Longrightarrow> r = s"
    unfolding less_eq_resource_name_ext_def by (drule (1) antisym) simp
qed

end

lemma le_resource_le: "le_resource = (\<le>)"
  by (intro ext) (auto simp: le_resource_def rkey_def less_eq_resource_name_ext_def less_eq_prod_def less_prod_def)

lemma sort_resources: "js_sort sortByName rs = sort rs"
  by (rule by_name.sort_unique) (simp_all add: le_resource_le)

lemma sort_resources_perm: "mset rs = mset rs' \<Longrightarrow> js_sort sortByName rs = js_sort sortByName rs'"
  by (rule by_name.sort_unique) (auto simp: by_name.sort_sorted)

lemma set_filterResources:
  "set (filterResources rs ns ty sub) =
     {r \<in> set rs. rn_namespace r = ns \<and> rn_type r = ty \<and> rn_subtype r = sub}"
  by (auto simp: filterResources_def)

lemma sorted_filterResources: "sorted_wrt le_resource (filterResources rs ns ty sub)"
  by (simp add: filterResources_def by_name.sort_sorted)

text \<open>Filtering commutes with the sort.\<close>

lemma filter_sort_resources:
  "filter P (js_sort sortByName rs) = js_sort sortByName (filter P rs)"
  by (rule by_name.sort_unique [symmetric])
    (auto simp: by_name.sort_sorted sorted_wrt_filter mset_filter)

lemma printed_name_parses:
  "printable r \<Longrightarrow> stringToResourceName (resourceNameToString (Some r)) = Inr r"
proof -
  assume p: "printable r"
  let ?sub = "resourceNameToSubtypeString (Some r)"
  have sub: "?sub = rn_namespace r @ CHR '':'' # (rn_type r @ CHR '':'' # rn_subtype r)"
    by (simp add: resourceNameToSubtypeString_def)
  have colons: "js_split (CHR '':'') ?sub = [rn_namespace r, rn_type r, rn_subtype r]"
    using p by (simp add: sub printable_def js_split_sep js_split_no_sep)
  have slash: "CHR ''/'' \<notin> set ?sub" using p by (auto simp: sub printable_def)
  show ?thesis
  proof (cases "rn_name r = []")
    case True
    then have "js_split (CHR ''/'') (resourceNameToString (Some r)) = [?sub]"
      using slash by (simp add: resourceNameToString_def js_split_no_sep)
    then show ?thesis using True by (simp add: stringToResourceName_def colons)
  next
    case False
    then have "js_split (CHR ''/'') (resourceNameToString (Some r)) = [?sub, rn_name r]"
      using slash p by (simp add: resourceNameToString_def js_split_sep js_split_no_sep printable_def)
    then show ?thesis by (simp add: stringToResourceName_def colons)
  qed
qed

section \<open>Properties\<close>

text \<open>
  C7. \<open>filterResources\<close> returns exactly the resources with the given namespace, type and subtype,
  each as often as it occurs in the input, sorted by (name, subtype, type, namespace); and it is
  the only such list, so any sorting algorithm and any input order give the same result. In the
  linear order of names it is the filtered list, sorted.
\<close>

theorem filterResources_correct:
  "filterResources rs ns ty sub =
     sort (filter (\<lambda>r. rn_namespace r = ns \<and> rn_type r = ty \<and> rn_subtype r = sub) rs)
   \<and> mset (filterResources rs ns ty sub) =
     filter_mset (\<lambda>r. rn_namespace r = ns \<and> rn_type r = ty \<and> rn_subtype r = sub) (mset rs)
   \<and> sorted_wrt le_resource (filterResources rs ns ty sub)
   \<and> (\<nexists>ys. ys \<noteq> filterResources rs ns ty sub \<and> sorted_wrt le_resource ys \<and>
        mset ys = filter_mset (\<lambda>r. rn_namespace r = ns \<and> rn_type r = ty \<and> rn_subtype r = sub) (mset rs))"
proof (intro conjI notI)
  let ?P = "\<lambda>r. rn_namespace r = ns \<and> rn_type r = ty \<and> rn_subtype r = sub"
  show "filterResources rs ns ty sub = sort (filter ?P rs)"
    by (simp add: filterResources_def sort_resources)
  show "mset (filterResources rs ns ty sub) = filter_mset ?P (mset rs)"
    by (simp add: filterResources_def)
  show "sorted_wrt le_resource (filterResources rs ns ty sub)"
    by (rule sorted_filterResources)
  assume "\<exists>ys. ys \<noteq> filterResources rs ns ty sub \<and> sorted_wrt le_resource ys \<and>
    mset ys = filter_mset ?P (mset rs)"
  then show False
    using by_name.sort_unique [of "filter ?P rs"] by (auto simp: filterResources_def)
qed

text \<open>
  C6. Reading back a printed resource name gives the same resource, for names whose parts contain
  no separator: \<open>stringToResourceName\<close> inverts \<open>resourceNameToString\<close>. A name may contain colons,
  as the names of remote resources do.
\<close>

theorem resource_name_roundtrip:
  "printable r \<Longrightarrow> stringToResourceName (resourceNameToString (Some r)) = Inr r"
  by (rule printed_name_parses)

theorem resource_name_roundtrip_witness:
  "stringToResourceName (resourceNameToString
      (Some \<lparr>rn_namespace = ''rdk'', rn_type = ''component'', rn_subtype = ''arm'', rn_name = ''r:a1''\<rparr>))
   = Inr \<lparr>rn_namespace = ''rdk'', rn_type = ''component'', rn_subtype = ''arm'', rn_name = ''r:a1''\<rparr>"
  by (rule resource_name_roundtrip) (simp add: printable_def)

text \<open>
  \<open>stringToResourceName\<close> succeeds exactly when the part before the first slash holds two
  colons, and then that part is the printed subtype of the result; otherwise it throws, with the
  message that says whether there were too many or too few.
\<close>

theorem stringToResourceName_cases:
  "(let pfx = hd (js_split (CHR ''/'') s); colons = count_list pfx (CHR '':'')
    in case stringToResourceName s of
         Inr r \<Rightarrow> colons = 2 \<and> resourceNameToSubtypeString (Some r) = pfx
       | Inl e \<Rightarrow> colons \<noteq> 2 \<and>
           e = JsError (if colons > 2 then ''more than 2 colons in resource name string''
                        else ''less than 2 colons in resource name string''))"
proof -
  define pfx where "pfx = hd (js_split (CHR ''/'') s)"
  have join: "js_join '':'' (js_split (CHR '':'') pfx) = pfx" by (rule js_join_split)
  show ?thesis
  proof (cases "count_list pfx (CHR '':'') = 2")
    case True
    then have "length (js_split (CHR '':'') pfx) = 3" by (simp add: js_split_length)
    then obtain a b c where "js_split (CHR '':'') pfx = [a, b, c]"
      by (auto simp: numeral_3_eq_3 length_Suc_conv)
    then show ?thesis using True join
      by (simp add: stringToResourceName_def Let_def pfx_def [symmetric]
          resourceNameToSubtypeString_def nth_Cons')
  next
    case False
    then show ?thesis
      by (auto simp: stringToResourceName_def Let_def pfx_def [symmetric] js_split_length)
  qed
qed

text \<open>
  A component list shown with a status is the plain component list of that subtype restricted
  to the resources that have a status entry, in the same order.
\<close>

theorem filterRdkComponentsWithStatus_eq:
  "filterRdkComponentsWithStatus tr rs status sub =
     filter (\<lambda>r. \<exists>v. map_of status (resourceNameToString (Some r)) = Some v \<and> tr v)
       (filterResources rs ''rdk'' ''component'' sub)"
proof -
  have "(case o' of None \<Rightarrow> False | Some v \<Rightarrow> tr v) \<longleftrightarrow> (\<exists>v. o' = Some v \<and> tr v)" for o'
    by (cases o') auto
  then show ?thesis
    by (simp add: filterRdkComponentsWithStatus_def filterResources_def filter_sort_resources conj_ac)
qed

end
