(* ===== verification/Js_Number.thy ===== *)
theory Js_Number
  imports Complex_Main Js_Prelude "HOL-Library.Log_Nat"
begin

text \<open>
  JavaScript numbers: IEEE 754 binary64 values with round-to-nearest, ties-to-even.
  A finite number is the exact rational it denotes; \<open>rnd\<close> rounds a rational to the nearest
  binary64 rational (53 bits of significand, smallest exponent -1074), and \<open>mk_num\<close> adds the
  overflow to infinity and the sign of zero. The lemmas are the ones client code needs: small
  integers are exact, rounding never crosses a power of two, and the relative error.
\<close>

datatype jsnum = NaN | Inf bool | NegZero | Fin rat

section \<open>Rounding\<close>

definition rlog2 :: "rat \<Rightarrow> int" where
  "rlog2 q = (let (n, d) = quotient_of q; k = bitlen n - bitlen d
              in if 2 powi k \<le> q then k else k - 1)"

definition rne :: "rat \<Rightarrow> int" where
  "rne x = (let f = \<lfloor>x\<rfloor>; r = x - of_int f
            in if r < 1 / 2 then f else if 1 / 2 < r then f + 1
               else if even f then f else f + 1)"

definition quantum :: "rat \<Rightarrow> int" where
  "quantum q = max (rlog2 \<bar>q\<bar> - 52) (- 1074)"

definition rnd :: "rat \<Rightarrow> rat" where
  "rnd q = (if q = 0 then 0 else of_int (rne (q / 2 powi quantum q)) * 2 powi quantum q)"

text \<open>\<open>neg\<close> is the sign an exact zero result takes.\<close>

definition mk_num :: "bool \<Rightarrow> rat \<Rightarrow> jsnum" where
  "mk_num neg q =
     (let r = rnd q
      in if r = 0 then (if (if q = 0 then neg else q < 0) then NegZero else Fin 0)
         else if 2 ^ 1024 \<le> \<bar>r\<bar> then Inf (r < 0) else Fin r)"

abbreviation num_of :: "rat \<Rightarrow> jsnum" where
  "num_of q \<equiv> mk_num False q"

section \<open>Operators\<close>

fun num_neg :: "jsnum \<Rightarrow> jsnum" where
  "num_neg NaN = NaN"
| "num_neg (Inf s) = Inf (\<not> s)"
| "num_neg NegZero = Fin 0"
| "num_neg (Fin q) = (if q = 0 then NegZero else Fin (- q))"

fun num_val :: "jsnum \<Rightarrow> rat" where
  "num_val (Fin q) = q"
| "num_val _ = 0"

fun num_sgn :: "jsnum \<Rightarrow> bool" where
  "num_sgn NaN = False"
| "num_sgn (Inf s) = s"
| "num_sgn NegZero = True"
| "num_sgn (Fin q) = (q < 0)"

fun num_add :: "jsnum \<Rightarrow> jsnum \<Rightarrow> jsnum" where
  "num_add NaN y = NaN"
| "num_add x NaN = NaN"
| "num_add (Inf s) (Inf t) = (if s = t then Inf s else NaN)"
| "num_add (Inf s) y = Inf s"
| "num_add x (Inf t) = Inf t"
| "num_add x y = mk_num (x = NegZero \<and> y = NegZero) (num_val x + num_val y)"

definition num_sub :: "jsnum \<Rightarrow> jsnum \<Rightarrow> jsnum" where
  "num_sub x y = num_add x (num_neg y)"

definition num_zero :: "jsnum \<Rightarrow> bool" where
  "num_zero x \<longleftrightarrow> x = NegZero \<or> x = Fin 0"

fun num_mul :: "jsnum \<Rightarrow> jsnum \<Rightarrow> jsnum" where
  "num_mul NaN y = NaN"
| "num_mul x NaN = NaN"
| "num_mul (Inf s) y = (if num_zero y then NaN else Inf (s \<noteq> num_sgn y))"
| "num_mul x (Inf t) = (if num_zero x then NaN else Inf (num_sgn x \<noteq> t))"
| "num_mul x y = mk_num (num_sgn x \<noteq> num_sgn y) (num_val x * num_val y)"

fun num_div :: "jsnum \<Rightarrow> jsnum \<Rightarrow> jsnum" where
  "num_div NaN y = NaN"
| "num_div x NaN = NaN"
| "num_div (Inf s) (Inf t) = NaN"
| "num_div (Inf s) y = Inf (s \<noteq> num_sgn y)"
| "num_div x (Inf t) = (if num_sgn x \<noteq> t then NegZero else Fin 0)"
| "num_div x y =
     (if num_zero y then (if num_zero x then NaN else Inf (num_sgn x \<noteq> num_sgn y))
      else mk_num (num_sgn x \<noteq> num_sgn y) (num_val x / num_val y))"

text \<open>The operators \<open>===\<close>, \<open><\<close> and truthiness.\<close>

fun num_eq :: "jsnum \<Rightarrow> jsnum \<Rightarrow> bool" where
  "num_eq NaN y = False"
| "num_eq x NaN = False"
| "num_eq x y = (x = y \<or> num_zero x \<and> num_zero y)"

fun num_less :: "jsnum \<Rightarrow> jsnum \<Rightarrow> bool" where
  "num_less NaN y = False"
| "num_less x NaN = False"
| "num_less (Inf s) (Inf t) = (s \<and> \<not> t)"
| "num_less (Inf s) y = s"
| "num_less x (Inf t) = (\<not> t)"
| "num_less x y = (num_val x < num_val y)"

definition num_truthy :: "jsnum \<Rightarrow> bool" where
  "num_truthy x \<longleftrightarrow> x \<noteq> NaN \<and> \<not> num_zero x"

text \<open>\<open>Math.round\<close>: the nearest integer, ties towards plus infinity, keeping the sign of zero.\<close>

fun math_round :: "jsnum \<Rightarrow> jsnum" where
  "math_round (Fin q) =
     (let n = \<lfloor>q + 1 / 2\<rfloor> in if n = 0 \<and> q < 0 then NegZero else Fin (of_int n))"
| "math_round x = x"

section \<open>The values a double can take\<close>

definition is_double :: "rat \<Rightarrow> bool" where
  "is_double q \<longleftrightarrow> rnd q = q \<and> \<bar>q\<bar> < 2 ^ 1024"

fun num_ok :: "jsnum \<Rightarrow> bool" where
  "num_ok (Fin q) = is_double q"
| "num_ok _ = True"

fun num_finite :: "jsnum \<Rightarrow> bool" where
  "num_finite (Fin q) = True"
| "num_finite NegZero = True"
| "num_finite _ = False"

section \<open>Powers of two and binary exponents\<close>

lemma num_zero_simps [simp]:
  "\<not> num_zero NaN" "\<not> num_zero (Inf s)" "num_zero NegZero" "num_zero (Fin q) \<longleftrightarrow> q = 0"
  by (auto simp: num_zero_def)

lemma powi2_pos [simp]: "(0::rat) < 2 powi e"
  by (simp add: zero_less_power_int)

lemma powi2_nonzero [simp]: "(2::rat) powi e \<noteq> 0"
  using powi2_pos [of e] by linarith

lemma powi2_add: "(2::rat) powi (a + b) = 2 powi a * 2 powi b"
  by (simp add: power_int_add)

lemma powi2_Suc: "(2::rat) powi (e + 1) = 2 * 2 powi e"
  by (simp add: powi2_add)

lemma powi2_mono: "a \<le> b \<Longrightarrow> (2::rat) powi a \<le> 2 powi b"
  by (rule power_int_increasing) auto

lemma powi2_le_cancel: "(2::rat) powi a < 2 powi b \<Longrightarrow> a < b"
  using powi2_mono [of b a] by (meson leD leI)

lemma powi2_int: "0 \<le> e \<Longrightarrow> (2::rat) powi e = of_int (2 ^ nat e)"
  by (simp add: power_int_def)

lemma bitlen_powi:
  assumes "0 < n"
  shows "(2::rat) powi (bitlen n - 1) \<le> of_int n" "of_int n < (2::rat) powi bitlen n"
proof -
  have b: "2 ^ nat (bitlen n - 1) \<le> n" "n < 2 ^ nat (bitlen n)"
    using bitlen_bounds [OF assms] by auto
  have "bitlen n \<noteq> 0" using assms by (simp add: bitlen_eq_zero_iff)
  then have pos: "1 \<le> bitlen n" using bitlen_nonneg [of n] by linarith
  show "(2::rat) powi (bitlen n - 1) \<le> of_int n"
    using b(1) pos by (simp only: powi2_int of_int_le_iff)
  show "of_int n < (2::rat) powi bitlen n"
    using b(2) pos by (simp only: powi2_int of_int_less_iff)
qed

lemma rlog2_bounds:
  assumes "0 < q"
  shows "2 powi rlog2 q \<le> q" "q < 2 powi (rlog2 q + 1)"
proof -
  obtain n d where nd: "quotient_of q = (n, d)" by force
  have q: "q = of_int n / of_int d" and d: "0 < d"
    using nd quotient_of_div quotient_of_denom_pos by auto
  have n: "0 < n" using assms q d by (auto simp: zero_less_divide_iff)
  let ?k = "bitlen n - bitlen d"
  have "q < 2 powi bitlen n / 2 powi (bitlen d - 1)"
    unfolding q using bitlen_powi [OF n] bitlen_powi [OF d] n d by (intro frac_less) auto
  also have "\<dots> = 2 powi (?k + 1)"
    by (simp add: power_int_diff [symmetric] algebra_simps)
  finally have up: "q < 2 powi (?k + 1)" .
  have "2 powi (bitlen n - 1) / 2 powi bitlen d \<le> q"
    unfolding q using bitlen_powi [OF n] bitlen_powi [OF d] n d
    by (intro frac_le) (auto simp: less_imp_le)
  then have lo: "2 powi (?k - 1) \<le> q"
    by (simp add: power_int_diff [symmetric] algebra_simps)
  show "2 powi rlog2 q \<le> q" "q < 2 powi (rlog2 q + 1)"
    using up lo by (auto simp: rlog2_def nd Let_def)
qed

lemma rlog2_ge: "0 < q \<Longrightarrow> 2 powi k \<le> q \<Longrightarrow> k \<le> rlog2 q"
  using rlog2_bounds(2) [of q] powi2_le_cancel [of k "rlog2 q + 1"] by fastforce

lemma rlog2_less: "0 < q \<Longrightarrow> q < 2 powi k \<Longrightarrow> rlog2 q < k"
  using rlog2_bounds(1) [of q] powi2_le_cancel [of "rlog2 q" k] by fastforce

section \<open>Rounding to an integer\<close>

lemma rne_of_int [simp]: "rne (of_int n) = n"
  by (simp add: rne_def)

lemma rne_error: "\<bar>of_int (rne x) - x\<bar> \<le> 1 / 2"
proof -
  have "of_int \<lfloor>x\<rfloor> \<le> x" "x < of_int \<lfloor>x\<rfloor> + 1" by linarith+
  then show ?thesis unfolding rne_def Let_def by (auto simp: abs_le_iff)
qed

lemma rne_close: "\<bar>x - of_int n\<bar> < 1 / 2 \<Longrightarrow> rne x = n"
proof -
  assume "\<bar>x - of_int n\<bar> < 1 / 2"
  then have "\<bar>of_int (rne x) - (of_int n :: rat)\<bar> < 1"
    using rne_error [of x] by linarith
  then have "\<bar>rne x - n\<bar> < 1"
    by (metis of_int_abs of_int_diff of_int_less_1_iff)
  then show ?thesis by linarith
qed

lemma rne_mono: "x \<le> y \<Longrightarrow> rne x \<le> rne y"
proof -
  assume "x \<le> y"
  then have f: "\<lfloor>x\<rfloor> \<le> \<lfloor>y\<rfloor>" by (rule floor_mono)
  show ?thesis
  proof (cases "\<lfloor>x\<rfloor> = \<lfloor>y\<rfloor>")
    case True
    then show ?thesis using \<open>x \<le> y\<close> unfolding rne_def Let_def by auto
  next
    case False
    then have "\<lfloor>x\<rfloor> + 1 \<le> \<lfloor>y\<rfloor>" using f by linarith
    moreover have "rne x \<le> \<lfloor>x\<rfloor> + 1" and "\<lfloor>y\<rfloor> \<le> rne y"
      unfolding rne_def Let_def by auto
    ultimately show ?thesis by linarith
  qed
qed

lemma rne_minus: "rne (- x) = - rne x"
proof (cases "x \<in> \<int>")
  case True
  then obtain n where "x = of_int n" by (auto elim: Ints_cases)
  then show ?thesis by (metis of_int_minus rne_of_int)
next
  case False
  have "\<lfloor>- x\<rfloor> = - \<lfloor>x\<rfloor> - 1"
    using False by (simp add: floor_minus ceiling_altdef) (metis Ints_of_int)
  then show ?thesis unfolding rne_def Let_def by auto
qed

lemma rne_bound: "\<bar>x\<bar> \<le> of_int n \<Longrightarrow> \<bar>rne x\<bar> \<le> n"
proof -
  assume "\<bar>x\<bar> \<le> of_int n"
  then have "of_int (- n) \<le> x" and "x \<le> of_int n" by (simp_all add: abs_le_iff)
  then have "rne (of_int (- n)) \<le> rne x" and "rne x \<le> rne (of_int n)"
    by (blast intro: rne_mono)+
  then show ?thesis unfolding rne_of_int by linarith
qed

section \<open>Rounding to a double\<close>

lemma quantum_ge: "- 1074 \<le> quantum q"
  by (simp add: quantum_def)

lemma quantum_minus [simp]: "quantum (- q) = quantum q"
  by (simp add: quantum_def)

lemma rnd_0 [simp]: "rnd 0 = 0"
  by (simp add: rnd_def)

lemma rnd_eq: "rnd q = of_int (rne (q / 2 powi quantum q)) * 2 powi quantum q"
proof (cases "q = 0")
  case True
  have "rne 0 = 0" using rne_of_int [of 0] by simp
  then show ?thesis using True by simp
qed (simp add: rnd_def)

lemma rnd_minus: "rnd (- q) = - rnd q"
proof -
  have "- q / 2 powi quantum q = - (q / 2 powi quantum q)" by simp
  then have "rne (- q / 2 powi quantum q) = - rne (q / 2 powi quantum q)"
    by (simp only: rne_minus)
  then show ?thesis unfolding rnd_eq quantum_minus by simp
qed

text \<open>A multiple of the quantum is its own rounding.\<close>

lemma rnd_multiple: "quantum q \<le> e \<Longrightarrow> q = of_int m * 2 powi e \<Longrightarrow> rnd q = q"
proof -
  assume e: "quantum q \<le> e" and q: "q = of_int m * 2 powi e"
  define d where "d = quantum q"
  have "2 powi e = 2 powi d * (2::rat) powi (e - d)"
    by (simp add: powi2_add [symmetric])
  then have "q / 2 powi d = of_int (m * 2 ^ nat (e - d))"
    unfolding q using e by (simp add: powi2_int d_def [symmetric])
  then have "q / 2 powi quantum q = of_int (m * 2 ^ nat (e - quantum q))"
    by (simp only: d_def)
  then show ?thesis unfolding rnd_eq by (simp only: rne_of_int) (simp add: field_simps)
qed

lemma quantum_le:
  assumes "q \<noteq> 0" and "\<bar>q\<bar> < 2 powi (e + 53)" and "- 1074 \<le> e"
  shows "quantum q \<le> e"
  using rlog2_less [of "\<bar>q\<bar>" "e + 53"] assms by (simp add: quantum_def)

lemma rnd_exact:
  assumes "\<bar>m\<bar> \<le> 2 ^ 53" and "- 1074 \<le> e"
  shows "rnd (of_int m * 2 powi e) = of_int m * 2 powi e"
proof (cases "\<bar>m\<bar> < 2 ^ 53 \<and> m \<noteq> 0")
  case True
  then have "\<bar>of_int m :: rat\<bar> < 2 ^ 53"
    by (metis of_int_abs of_int_less_iff of_int_numeral of_int_power)
  then have "\<bar>of_int m * 2 powi e\<bar> < (2::rat) powi (e + 53)"
    by (simp add: abs_mult powi2_add mult.commute)
  then show ?thesis
    using True assms(2) by (intro rnd_multiple [OF quantum_le refl]) auto
next
  case False
  show ?thesis
  proof (cases "m = 0")
    case nz: False
    define s :: int where "s = sgn m"
    have m: "m = s * 2 ^ 53" and s: "\<bar>s\<bar> = 1" using False assms(1) nz by (auto simp: s_def sgn_if)
    have eq: "of_int m * 2 powi e = of_int s * (2::rat) powi (e + 53)"
      by (simp add: m powi2_add mult.commute)
    have "\<bar>of_int s :: rat\<bar> = 1" using s by (metis of_int_1 of_int_abs)
    then have "\<bar>of_int s * (2::rat) powi (e + 53)\<bar> < 2 powi ((e + 53) + 53)"
      by (simp add: abs_mult powi2_add)
    then show ?thesis unfolding eq using s assms(2)
      by (intro rnd_multiple [OF quantum_le refl]) auto
  qed simp
qed

lemma rnd_of_int: "\<bar>n\<bar> \<le> 2 ^ 53 \<Longrightarrow> rnd (of_int n) = of_int n"
  using rnd_exact [of n 0] by simp

lemma rnd_powi: "- 1074 \<le> e \<Longrightarrow> rnd (2 powi e) = 2 powi e"
  using rnd_exact [of 1 e] by simp

lemma rnd_bound:
  assumes "\<bar>q\<bar> \<le> 2 powi k" and "- 1074 \<le> k"
  shows "\<bar>rnd q\<bar> \<le> 2 powi k"
proof (cases "q = 0")
  case False
  define d where "d = quantum q"
  have "\<bar>q\<bar> < 2 powi (k + 1)" using assms(1) powi2_pos [of k] unfolding powi2_Suc by linarith
  then have "rlog2 \<bar>q\<bar> < k + 1" using False by (intro rlog2_less) auto
  then have d: "d \<le> k" using assms(2) by (simp add: quantum_def d_def)
  have k: "2 powi k = (2::rat) powi d * of_int (2 ^ nat (k - d))"
    using d powi2_add [of d "k - d"] by (simp add: powi2_int)
  have "\<bar>q / 2 powi d\<bar> \<le> of_int (2 ^ nat (k - d))"
    using assms(1) unfolding k by (simp add: abs_divide divide_le_eq mult.commute)
  then have "\<bar>rne (q / 2 powi d)\<bar> \<le> 2 ^ nat (k - d)" by (rule rne_bound)
  then have "\<bar>of_int (rne (q / 2 powi d)) :: rat\<bar> \<le> of_int (2 ^ nat (k - d))"
    by (simp only: of_int_abs [symmetric] of_int_le_iff)
  then show ?thesis unfolding rnd_eq k d_def [symmetric]
    by (simp add: abs_mult mult.commute)
qed simp

lemma rnd_nonneg: "0 \<le> q \<Longrightarrow> 0 \<le> rnd q"
proof -
  assume "0 \<le> q"
  then have "rne (of_int 0) \<le> rne (q / 2 powi quantum q)"
    by (intro rne_mono) simp
  then show ?thesis unfolding rnd_eq rne_of_int by simp
qed

lemma rnd_idem: "rnd (rnd q) = rnd q"
proof (cases "q = 0")
  case False
  define d where "d = quantum q"
  have "rlog2 \<bar>q\<bar> + 1 \<le> d + 53" by (simp add: d_def quantum_def)
  then have "\<bar>q\<bar> \<le> 2 powi (d + 53)"
    using rlog2_bounds(2) [of "\<bar>q\<bar>"] powi2_mono False by fastforce
  then have "\<bar>q / 2 powi d\<bar> \<le> of_int (2 ^ 53)"
    by (simp add: powi2_add abs_divide divide_le_eq mult.commute)
  then have "\<bar>rne (q / 2 powi d)\<bar> \<le> 2 ^ 53" by (rule rne_bound)
  then show ?thesis unfolding rnd_eq [of q] d_def [symmetric]
    by (rule rnd_exact) (simp add: d_def quantum_ge)
qed simp

lemma rnd_error:
  assumes "2 powi (- 1022) \<le> \<bar>q\<bar>"
  shows "\<bar>rnd q - q\<bar> \<le> \<bar>q\<bar> * 2 powi (- 53)"
proof -
  define d where "d = quantum q"
  have nz: "0 < \<bar>q\<bar>" using assms powi2_pos [of "- 1022"] by linarith
  have "- 1022 \<le> rlog2 \<bar>q\<bar>" using nz assms by (rule rlog2_ge)
  then have d: "rlog2 \<bar>q\<bar> = d + 52" by (simp add: d_def quantum_def)
  have "\<bar>rnd q - q\<bar> = \<bar>of_int (rne (q / 2 powi d)) - q / 2 powi d\<bar> * 2 powi d"
    unfolding rnd_eq d_def [symmetric] by (simp add: abs_mult_pos' field_simps)
  also have "\<dots> \<le> 1 / 2 * 2 powi d"
    by (intro mult_right_mono rne_error) (simp add: less_imp_le)
  also have "\<dots> = 2 powi (rlog2 \<bar>q\<bar>) * 2 powi (- 53)"
    unfolding d by (simp add: powi2_add power_int_minus)
  also have "\<dots> \<le> \<bar>q\<bar> * 2 powi (- 53)"
    using rlog2_bounds(1) [OF nz] by (intro mult_right_mono) (auto simp: less_imp_le)
  finally show ?thesis .
qed

section \<open>Every operator returns a double\<close>

lemma is_double_rnd: "\<bar>rnd q\<bar> < 2 ^ 1024 \<Longrightarrow> is_double (rnd q)"
  by (simp add: is_double_def rnd_idem)

lemma is_double_0 [simp]: "is_double 0"
  by (simp add: is_double_def)

lemma is_double_minus [simp]: "is_double (- q) = is_double q"
  by (auto simp: is_double_def rnd_minus)

lemma mk_num_ok [simp]: "num_ok (mk_num s q)"
  by (auto simp: mk_num_def Let_def intro: is_double_rnd)

lemma num_neg_ok [simp]: "num_ok x \<Longrightarrow> num_ok (num_neg x)"
  by (cases x) auto

lemma num_add_ok [simp]: "num_ok (num_add x y)"
  by (cases "(x, y)" rule: num_add.cases) auto

lemma num_mul_ok [simp]: "num_ok (num_mul x y)"
  by (cases "(x, y)" rule: num_mul.cases) auto

lemma num_div_ok [simp]: "num_ok (num_div x y)"
  by (cases "(x, y)" rule: num_div.cases) auto

section \<open>Small integers are exact\<close>

abbreviation num_int :: "int \<Rightarrow> jsnum" where
  "num_int n \<equiv> Fin (of_int n)"

lemma num_lt_max: "\<bar>q\<bar> \<le> 2 ^ 53 \<Longrightarrow> \<bar>q :: rat\<bar> < 2 ^ 1024"
  by (rule le_less_trans [of _ "2 ^ 53"]) auto

lemma of_int_abs_le: "\<bar>n\<bar> \<le> 2 ^ 53 \<Longrightarrow> \<bar>of_int n :: rat\<bar> \<le> 2 ^ 53"
  by (metis of_int_abs of_int_le_iff of_int_numeral of_int_power)

lemma mk_num_int: "\<bar>n\<bar> \<le> 2 ^ 53 \<Longrightarrow> n \<noteq> 0 \<or> \<not> s \<Longrightarrow> mk_num s (of_int n) = num_int n"
  using num_lt_max [OF of_int_abs_le [of n]] by (auto simp: mk_num_def rnd_of_int Let_def)

lemma is_double_int: "\<bar>n\<bar> \<le> 2 ^ 53 \<Longrightarrow> is_double (of_int n)"
  by (simp add: is_double_def rnd_of_int num_lt_max of_int_abs_le)

lemma num_add_int:
  "\<bar>a + b\<bar> \<le> 2 ^ 53 \<Longrightarrow> num_add (num_int a) (num_int b) = num_int (a + b)"
  by (simp add: mk_num_int flip: of_int_add)

lemma num_mul_int:
  "\<bar>a * b\<bar> \<le> 2 ^ 53 \<Longrightarrow> a * b \<noteq> 0 \<Longrightarrow> num_mul (num_int a) (num_int b) = num_int (a * b)"
  by (simp add: mk_num_int flip: of_int_mult)

section \<open>Bounds\<close>

lemma num_val_mk_num: "\<bar>rnd q\<bar> < 2 ^ 1024 \<Longrightarrow> num_finite (mk_num s q) \<and> num_val (mk_num s q) = rnd q"
  by (auto simp: mk_num_def Let_def)

lemma num_val_mk_num_bound:
  assumes "\<bar>q\<bar> \<le> 2 ^ k" and "k < 1024"
  shows "num_finite (mk_num s q) \<and> num_val (mk_num s q) = rnd q \<and> \<bar>rnd q\<bar> \<le> 2 ^ k"
proof -
  have b: "\<bar>rnd q\<bar> \<le> 2 ^ k"
    using rnd_bound [of q "int k"] assms by (simp add: power_int_def)
  have "(2::rat) ^ k < 2 ^ 1024" using assms(2) by (intro power_strict_increasing) auto
  then show ?thesis using num_val_mk_num [of q s] b by simp
qed

lemma num_ok_integer:
  assumes "is_double q" and "2 ^ 52 \<le> \<bar>q\<bar>"
  shows "\<exists>n. q = of_int n"
proof -
  have nz: "0 < \<bar>q\<bar>" using assms(2) by (rule less_le_trans [rotated]) simp
  have "52 \<le> rlog2 \<bar>q\<bar>" using assms(2) nz by (intro rlog2_ge) (auto simp: power_int_def)
  then have "0 \<le> quantum q" by (simp add: quantum_def)
  then have "q = of_int (rne (q / 2 powi quantum q) * 2 ^ nat (quantum q))"
    using assms(1) rnd_eq [of q] by (simp add: is_double_def powi2_int)
  then show ?thesis by blast
qed

lemma math_round_ok [simp]:
  assumes "num_ok x"
  shows "num_ok (math_round x)"
proof (cases x)
  case (Fin q)
  have dbl: "is_double (of_int \<lfloor>q + 1 / 2\<rfloor>)"
  proof (cases "2 ^ 52 \<le> \<bar>q\<bar>")
    case True
    then obtain n where n: "q = of_int n" using num_ok_integer Fin assms by auto
    then have "\<lfloor>q + 1 / 2\<rfloor> = n" by linarith
    then show ?thesis using n Fin assms by simp
  next
    case False
    then have "\<bar>\<lfloor>q + 1 / 2\<rfloor>\<bar> \<le> 2 ^ 53" by simp linarith
    then show ?thesis by (rule is_double_int)
  qed
  then show ?thesis using Fin by (simp add: Let_def)
qed auto

end
