(* ===== verification/Js_Value.thy ===== *)
theory Js_Value
  imports Js_Number
begin

text \<open>
  Dynamically typed JavaScript values, as \<open>Struct.toJavaScript()\<close> delivers them and as the
  frontend reads them: truthiness, \<open>||\<close>, property access (which raises on undefined and null)
  and array indexing (which yields undefined out of range). Own properties only: no key the
  frontend reads is inherited from a prototype.
\<close>

datatype jsval =
    Undefined
  | Null
  | Bool bool
  | Num jsnum
  | Str string
  | Arr "jsval list"
  | Obj "(string \<times> jsval) list"

section \<open>Decimal digits\<close>

definition digit_char :: "nat \<Rightarrow> char" where
  "digit_char d = char_of (48 + d)"

fun show_nat :: "nat \<Rightarrow> string" where
  "show_nat n = (if n < 10 then [digit_char n] else show_nat (n div 10) @ [digit_char (n mod 10)])"

declare show_nat.simps [simp del]

section \<open>Operators on values\<close>

fun truthy :: "jsval \<Rightarrow> bool" where
  "truthy Undefined = False"
| "truthy Null = False"
| "truthy (Bool b) = b"
| "truthy (Num n) = num_truthy n"
| "truthy (Str s) = (s \<noteq> [])"
| "truthy (Arr xs) = True"
| "truthy (Obj ps) = True"

definition js_or :: "jsval \<Rightarrow> jsval \<Rightarrow> jsval" where
  "js_or a b = (if truthy a then a else b)"

definition or_undefined :: "jsval option \<Rightarrow> jsval" where
  "or_undefined x = (case x of None \<Rightarrow> Undefined | Some v \<Rightarrow> v)"

text \<open>\<open>v.k\<close> and \<open>v[k]\<close> for a string \<open>k\<close>.\<close>

fun get_prop :: "jsval \<Rightarrow> string \<Rightarrow> jsval throws" where
  "get_prop Undefined k = Inl TypeError"
| "get_prop Null k = Inl TypeError"
| "get_prop (Obj ps) k = Inr (or_undefined (map_of ps k))"
| "get_prop (Arr xs) k =
     Inr (if k = ''length'' then Num (Fin (of_nat (length xs))) else Undefined)"
| "get_prop (Str s) k =
     Inr (if k = ''length'' then Num (Fin (of_nat (length s))) else Undefined)"
| "get_prop v k = Inr Undefined"

text \<open>\<open>v[i]\<close> for a natural number \<open>i\<close>.\<close>

fun get_index :: "jsval \<Rightarrow> nat \<Rightarrow> jsval throws" where
  "get_index Undefined i = Inl TypeError"
| "get_index Null i = Inl TypeError"
| "get_index (Arr xs) i = Inr (if i < length xs then xs ! i else Undefined)"
| "get_index (Str s) i = Inr (if i < length s then Str [s ! i] else Undefined)"
| "get_index (Obj ps) i = Inr (or_undefined (map_of ps (show_nat i)))"
| "get_index v i = Inr Undefined"

text \<open>The number of rounds of \<open>for (let i = 0; i < n; i += 1)\<close>, for a finite or non-numeric \<open>n\<close>.\<close>

fun loop_count :: "jsval \<Rightarrow> nat" where
  "loop_count (Num (Fin q)) = nat \<lceil>q\<rceil>"
| "loop_count v = 0"

text \<open>\<open>===\<close> on primitive values; objects are compared by identity, which no modelled code does.\<close>

fun js_seq :: "jsval \<Rightarrow> jsval \<Rightarrow> bool" where
  "js_seq (Num a) (Num b) = num_eq a b"
| "js_seq (Arr xs) v = False"
| "js_seq v (Arr xs) = False"
| "js_seq (Obj ps) v = False"
| "js_seq v (Obj ps) = False"
| "js_seq a b = (a = b)"

section \<open>Lemmas\<close>

lemma js_or_truthy [simp]: "truthy a \<Longrightarrow> js_or a b = a" "\<not> truthy a \<Longrightarrow> js_or a b = b"
  by (simp_all add: js_or_def)

lemma js_or_falsy_default: "truthy (js_or a b) = (truthy a \<or> truthy b)"
  by (simp add: js_or_def)

lemma or_undefined_simps [simp]: "or_undefined None = Undefined" "or_undefined (Some v) = v"
  by (simp_all add: or_undefined_def)

section \<open>Missing values\<close>

definition nullish :: "jsval \<Rightarrow> bool" where
  "nullish v \<longleftrightarrow> v = Undefined \<or> v = Null"

definition ofield :: "(string \<times> jsval) list \<Rightarrow> string \<Rightarrow> jsval" where
  "ofield ps k = or_undefined (map_of ps k)"

text \<open>Reading a property raises on undefined and null only; the value read otherwise.\<close>

definition prop_of :: "jsval \<Rightarrow> string \<Rightarrow> jsval" where
  "prop_of v k = (case get_prop v k of Inl _ \<Rightarrow> Undefined | Inr w \<Rightarrow> w)"

lemma get_prop_Obj: "get_prop (Obj ps) k = Inr (ofield ps k)"
  by (simp add: ofield_def)

declare get_prop.simps(3) [simp del] get_prop_Obj [simp]

lemma get_prop_cases: "get_prop v k = (if nullish v then Inl TypeError else Inr (prop_of v k))"
  by (cases v) (auto simp: nullish_def prop_of_def)

lemma prop_of_Obj [simp]: "prop_of (Obj ps) k = ofield ps k"
  by (simp add: prop_of_def)

lemma get_index_cases:
  "get_index v i = (if nullish v then Inl TypeError else Inr (projr (get_index v i)))"
  by (cases v) (auto simp: nullish_def)

lemma nullish_Obj [simp]: "\<not> nullish (Obj ps)" and nullish_Arr [simp]: "\<not> nullish (Arr xs)"
  by (simp_all add: nullish_def)

end
