(* ===== verification/Fixers.thy ===== *)
theory Fixers
  imports Js_Value Resource
begin

text \<open>
  \<open>lib/fixers.ts\<close>: the functions that turn the snake-case status structs the robot streams into
  the objects the panels display, and the dispatcher \<open>fixRawStatus\<close> of \<open>app.vue\<close>. The input is a
  dynamic value: reading a field of a missing object raises, a missing field is undefined.
\<close>

record pos_piece =
  pp_endPosition :: "string \<times> string"
  pp_endPositionValue :: jsval

record joint_piece =
  jp_joint :: nat
  jp_jointValue :: jsval

record arm_status =
  as_pos_pieces :: "pos_piece list"
  as_joint_pieces :: "joint_piece list"
  as_is_moving :: jsval

record board_status =
  bs_analogsMap :: jsval
  bs_digitalInterruptsMap :: jsval

record gantry_part =
  gp_axis :: nat
  gp_pos :: jsval
  gp_length :: jsval

record gantry_status =
  gs_parts :: "gantry_part list"
  gs_is_moving :: jsval

record input_event =
  ie_time :: jsval
  ie_event :: jsval
  ie_control :: jsval
  ie_value :: jsval

record input_status =
  is_eventsList :: "input_event list"

record motor_status =
  ms_isPowered :: jsval
  ms_positionReporting :: jsval
  ms_position :: jsval
  ms_isMoving :: jsval

record servo_status =
  ss_positionDeg :: jsval
  ss_is_moving :: jsval

text \<open>What \<open>fixRawStatus\<close> returns: the fixed object of one of the six subtypes, or the raw value.\<close>

datatype fixed_status =
    FixedArm arm_status
  | FixedBoard board_status
  | FixedGantry gantry_status
  | FixedInput input_status
  | FixedMotor motor_status
  | FixedServo servo_status
  | RawStatus jsval

abbreviation num0 :: jsval where
  "num0 \<equiv> Num (Fin 0)"

definition fieldSetters :: "(string \<times> string) list" where
  "fieldSetters =
     [(''x'', ''X''), (''y'', ''Y''), (''z'', ''Z''), (''theta'', ''Theta''),
      (''o_x'', ''OX''), (''o_y'', ''OY''), (''o_z'', ''OZ'')]"

section \<open>The fixers\<close>

definition fixArmStatus :: "jsval \<Rightarrow> arm_status throws" where
  "fixArmStatus old =
     bindE (get_prop old ''is_moving'') (\<lambda>moving.
     bindE (mapE (\<lambda>fieldSetter.
              bindE (get_prop old ''end_position'') (\<lambda>ep.
              bindE (get_prop ep (fst fieldSetter)) (\<lambda>v.
              Inr \<lparr>pp_endPosition = fieldSetter, pp_endPositionValue = js_or v num0\<rparr>))) fieldSetters) (\<lambda>pos.
     bindE (get_prop old ''joint_positions'') (\<lambda>jp.
     bindE (get_prop jp ''values'') (\<lambda>values'.
     bindE (get_prop values' ''length'') (\<lambda>len.
     bindE (mapE (\<lambda>j. bindE (get_index values' j) (\<lambda>v.
              Inr \<lparr>jp_joint = j, jp_jointValue = js_or v num0\<rparr>)) [0..<loop_count len]) (\<lambda>joints.
     Inr \<lparr>as_pos_pieces = pos, as_joint_pieces = joints, as_is_moving = js_or moving (Bool False)\<rparr>))))))"

definition fixBoardStatus :: "jsval \<Rightarrow> board_status throws" where
  "fixBoardStatus old =
     bindE (get_prop old ''analogs'') (\<lambda>a.
     bindE (get_prop old ''digital_interrupts'') (\<lambda>d.
     Inr \<lparr>bs_analogsMap = js_or a (Arr []), bs_digitalInterruptsMap = js_or d (Arr [])\<rparr>))"

definition fixGantryStatus :: "jsval \<Rightarrow> gantry_status throws" where
  "fixGantryStatus old =
     bindE (get_prop old ''is_moving'') (\<lambda>moving.
     bindE (get_prop old ''lengths_mm'') (\<lambda>lengths.
     bindE (get_prop lengths ''length'') (\<lambda>n.
     bindE (get_prop old ''positions_mm'') (\<lambda>positions.
     bindE (get_prop positions ''length'') (\<lambda>m.
     if \<not> js_seq n m then Inl (JsError ''gantry lists different lengths'')
     else bindE (mapE (\<lambda>i. bindE (get_index positions i) (\<lambda>p. bindE (get_index lengths i) (\<lambda>l.
                   Inr \<lparr>gp_axis = i, gp_pos = p, gp_length = l\<rparr>))) [0..<loop_count n]) (\<lambda>parts.
          Inr \<lparr>gs_parts = parts, gs_is_moving = js_or moving (Bool False)\<rparr>))))))"

definition fixInputEvent :: "jsval \<Rightarrow> input_event throws" where
  "fixInputEvent event =
     bindE (get_prop event ''time'') (\<lambda>t.
     bindE (get_prop event ''event'') (\<lambda>e.
     bindE (get_prop event ''control'') (\<lambda>c.
     bindE (get_prop event ''value'') (\<lambda>v.
     Inr \<lparr>ie_time = js_or t (Obj []), ie_event = js_or e (Str ''''),
          ie_control = js_or c (Str ''''), ie_value = js_or v num0\<rparr>))))"

text \<open>\<open>events.map\<close> exists on arrays only; calling it on another value raises.\<close>

definition fixInputStatus :: "jsval \<Rightarrow> input_status throws" where
  "fixInputStatus old =
     bindE (get_prop old ''events'') (\<lambda>ev.
     case js_or ev (Arr []) of
       Arr events \<Rightarrow> bindE (mapE fixInputEvent events) (\<lambda>eventsList. Inr \<lparr>is_eventsList = eventsList\<rparr>)
     | _ \<Rightarrow> Inl TypeError)"

definition fixMotorStatus :: "jsval \<Rightarrow> motor_status throws" where
  "fixMotorStatus old =
     bindE (get_prop old ''is_powered'') (\<lambda>pw.
     bindE (get_prop old ''position_reporting'') (\<lambda>pr.
     bindE (get_prop old ''position'') (\<lambda>p.
     bindE (get_prop old ''is_moving'') (\<lambda>mv.
     Inr \<lparr>ms_isPowered = js_or pw (Bool False), ms_positionReporting = js_or pr (Bool False),
          ms_position = js_or p num0, ms_isMoving = js_or mv (Bool False)\<rparr>))))"

definition fixServoStatus :: "jsval \<Rightarrow> servo_status throws" where
  "fixServoStatus old =
     bindE (get_prop old ''position_deg'') (\<lambda>p.
     bindE (get_prop old ''is_moving'') (\<lambda>mv.
     Inr \<lparr>ss_positionDeg = js_or p num0, ss_is_moving = js_or mv (Bool False)\<rparr>))"

section \<open>fixRawStatus (app.vue)\<close>

definition mapR :: "('a \<Rightarrow> 'b) \<Rightarrow> 'a throws \<Rightarrow> 'b throws" where
  "mapR f m = bindE m (\<lambda>a. Inr (f a))"

definition fixRawStatus :: "resource_name \<Rightarrow> jsval \<Rightarrow> fixed_status throws" where
  "fixRawStatus resource statusToFix =
     (let subtype = resourceNameToSubtypeString (Some resource)
      in if subtype = ''rdk:component:arm'' then mapR FixedArm (fixArmStatus statusToFix)
         else if subtype = ''rdk:component:board'' then mapR FixedBoard (fixBoardStatus statusToFix)
         else if subtype = ''rdk:component:gantry'' then mapR FixedGantry (fixGantryStatus statusToFix)
         else if subtype = ''rdk:component:input_controller'' then mapR FixedInput (fixInputStatus statusToFix)
         else if subtype = ''rdk:component:motor'' then mapR FixedMotor (fixMotorStatus statusToFix)
         else if subtype = ''rdk:component:servo'' then mapR FixedServo (fixServoStatus statusToFix)
         else Inr (RawStatus statusToFix))"

text \<open>Truthiness of an entry of the status dictionary: the fixed objects are objects.\<close>

fun fixed_truthy :: "fixed_status \<Rightarrow> bool" where
  "fixed_truthy (RawStatus v) = truthy v"
| "fixed_truthy _ = True"

section \<open>Lemmas\<close>

text \<open>The end-position loop: it raises when \<open>end_position\<close> is missing, else keeps the field order.\<close>

lemma fixArm_pos:
  "mapE (\<lambda>fs. bindE (get_prop (Obj o') ''end_position'') (\<lambda>ep.
           bindE (get_prop ep (fst fs)) (\<lambda>v.
           Inr \<lparr>pp_endPosition = fs, pp_endPositionValue = js_or v num0\<rparr>))) fieldSetters =
     (if nullish (ofield o' ''end_position'') then Inl TypeError
      else Inr (map (\<lambda>fs. \<lparr>pp_endPosition = fs,
             pp_endPositionValue = js_or (prop_of (ofield o' ''end_position'') (fst fs)) num0\<rparr>) fieldSetters))"
  by (simp add: get_prop_cases [of "ofield o' ''end_position''"] fieldSetters_def)

section \<open>Properties\<close>

text \<open>
  \<open>fixArmStatus\<close> on a status struct raises a TypeError exactly when the struct lacks
  \<open>end_position\<close>, \<open>joint_positions\<close> or the joints' \<open>values\<close>; a missing coordinate or joint value
  never raises.
\<close>

theorem fixArmStatus_raises:
  "fixArmStatus (Obj o') = Inl e \<longleftrightarrow>
     e = TypeError \<and>
     (nullish (ofield o' ''end_position'') \<or> nullish (ofield o' ''joint_positions'') \<or>
      nullish (prop_of (ofield o' ''joint_positions'') ''values''))"
proof -
  have ok: "\<exists>js. mapE (\<lambda>j. bindE (get_index v j) (\<lambda>x.
      Inr \<lparr>jp_joint = j, jp_jointValue = js_or x num0\<rparr>)) is = Inr js" if "\<not> nullish v" for v "is"
  proof -
    have "get_index v j = Inr (projr (get_index v j))" for j
      using that get_index_cases [of v j] by simp
    then have "(\<lambda>j. bindE (get_index v j) (\<lambda>x. Inr \<lparr>jp_joint = j, jp_jointValue = js_or x num0\<rparr>)) =
        (\<lambda>j. Inr \<lparr>jp_joint = j, jp_jointValue = js_or (projr (get_index v j)) num0\<rparr>)"
      by (metis bindE_simps(2))
    then show ?thesis by simp
  qed
  let ?jp = "ofield o' ''joint_positions''"
  let ?vs = "prop_of ?jp ''values''"
  show ?thesis
  proof (cases "nullish (ofield o' ''end_position'') \<or> nullish ?jp \<or> nullish ?vs")
    case True
    then show ?thesis unfolding fixArmStatus_def fixArm_pos
      by (cases "nullish ?jp") (auto simp: get_prop_cases [of ?jp] get_prop_cases [of ?vs])
  next
    case False
    then obtain js where "mapE (\<lambda>j. bindE (get_index ?vs j) (\<lambda>x.
        Inr \<lparr>jp_joint = j, jp_jointValue = js_or x num0\<rparr>)) [0..<loop_count (prop_of ?vs ''length'')] = Inr js"
      using ok by blast
    then show ?thesis using False unfolding fixArmStatus_def fixArm_pos
      by (simp add: get_prop_cases [of ?jp] get_prop_cases [of ?vs])
  qed
qed

text \<open>
  On a complete status \<open>fixArmStatus\<close> returns the seven coordinates in the fixed order x, y, z,
  theta, o\_x, o\_y, o\_z and one entry per joint, numbered from 0, with 0 for every falsy value.
\<close>

theorem fixArmStatus_complete:
  assumes "ofield o' ''end_position'' = Obj ep" and "ofield o' ''joint_positions'' = Obj jp"
    and "ofield jp ''values'' = Arr vs"
  shows "fixArmStatus (Obj o') = Inr
    \<lparr>as_pos_pieces = map (\<lambda>fs. \<lparr>pp_endPosition = fs,
         pp_endPositionValue = js_or (ofield ep (fst fs)) num0\<rparr>) fieldSetters,
     as_joint_pieces = map (\<lambda>j. \<lparr>jp_joint = j, jp_jointValue = js_or (vs ! j) num0\<rparr>) [0..<length vs],
     as_is_moving = js_or (ofield o' ''is_moving'') (Bool False)\<rparr>"
  unfolding fixArmStatus_def fixArm_pos using assms by simp

theorem fixArmStatus_complete_witness:
  "fixArmStatus (Obj [(''end_position'', Obj [(''x'', Num (Fin 5))]),
                      (''joint_positions'', Obj [(''values'', Arr [Num (Fin 7), Null])])]) = Inr
    \<lparr>as_pos_pieces = map (\<lambda>fs. \<lparr>pp_endPosition = fs,
         pp_endPositionValue = js_or (ofield [(''x'', Num (Fin 5))] (fst fs)) num0\<rparr>) fieldSetters,
     as_joint_pieces = map (\<lambda>j. \<lparr>jp_joint = j, jp_jointValue = js_or ([Num (Fin 7), Null] ! j) num0\<rparr>)
       [0..<length [Num (Fin 7), Null]],
     as_is_moving = js_or (ofield [(''end_position'', Obj [(''x'', Num (Fin 5))]),
         (''joint_positions'', Obj [(''values'', Arr [Num (Fin 7), Null])])] ''is_moving'') (Bool False)\<rparr>"
  by (rule fixArmStatus_complete [where jp = "[(''values'', Arr [Num (Fin 7), Null])]"])
    (simp_all add: ofield_def)

text \<open>
  \<open>fixGantryStatus\<close> refuses length and position lists of different lengths with its own error,
  and otherwise returns one part per axis, numbered from 0, with that axis's position and length.
\<close>

theorem fixGantryStatus_lists:
  assumes "ofield o' ''lengths_mm'' = Arr ls" and "ofield o' ''positions_mm'' = Arr ps"
  shows "fixGantryStatus (Obj o') =
    (if length ls \<noteq> length ps then Inl (JsError ''gantry lists different lengths'')
     else Inr \<lparr>gs_parts = map (\<lambda>i. \<lparr>gp_axis = i, gp_pos = ps ! i, gp_length = ls ! i\<rparr>) [0..<length ls],
               gs_is_moving = js_or (ofield o' ''is_moving'') (Bool False)\<rparr>)"
  using assms by (simp add: fixGantryStatus_def)

theorem fixGantryStatus_lists_witness:
  "fixGantryStatus (Obj [(''lengths_mm'', Arr [Num (Fin 3)]), (''positions_mm'', Arr [])]) =
     Inl (JsError ''gantry lists different lengths'')"
  by (subst fixGantryStatus_lists [of _ "[Num (Fin 3)]" "[]"]) (simp_all add: ofield_def)

end
