(* ===== verification/Js_Format.thy ===== *)
theory Js_Format
  imports Js_Value
begin

text \<open>
  Numbers as text: \<open>String(x)\<close> (the shortest decimal that reads back as the same number),
  \<open>x.toFixed(d)\<close>, and \<open>Number.parseFloat\<close>. The main result is that reading a printed number gives
  it back.
\<close>

section \<open>Digits\<close>

definition is_digit :: "char \<Rightarrow> bool" where
  "is_digit c \<longleftrightarrow> 48 \<le> (of_char c :: nat) \<and> (of_char c :: nat) \<le> 57"

definition digit_val :: "char \<Rightarrow> nat" where
  "digit_val c = of_char c - 48"

definition nat_of_digits :: "string \<Rightarrow> nat" where
  "nat_of_digits s = fold (\<lambda>c n. 10 * n + digit_val c) s 0"

lemma digit_char_simps [simp]:
  "d < 10 \<Longrightarrow> is_digit (digit_char d)" "d < 10 \<Longrightarrow> digit_val (digit_char d) = d"
  by (simp_all add: is_digit_def digit_val_def digit_char_def)

lemma fold_digits: "fold (\<lambda>c n. 10 * n + digit_val c) s a = a * 10 ^ length s + nat_of_digits s"
proof (induction s arbitrary: a)
  case (Cons c s)
  have "fold (\<lambda>c n. 10 * n + digit_val c) s (10 * a + digit_val c) =
      (10 * a + digit_val c) * 10 ^ length s + nat_of_digits s" by (rule Cons.IH)
  moreover have "nat_of_digits (c # s) = digit_val c * 10 ^ length s + nat_of_digits s"
    using Cons.IH [of "digit_val c"] by (simp add: nat_of_digits_def)
  ultimately show ?case by (simp add: algebra_simps)
qed (simp add: nat_of_digits_def)

lemma nat_of_digits_append:
  "nat_of_digits (s @ t) = nat_of_digits s * 10 ^ length t + nat_of_digits t"
  using fold_digits [of t "nat_of_digits s"] by (simp add: nat_of_digits_def)

lemma nat_of_digits_simps [simp]:
  "nat_of_digits [] = 0" "nat_of_digits [c] = digit_val c"
  by (simp_all add: nat_of_digits_def)

lemma digit_zero [simp]: "is_digit (CHR ''0'')" "digit_val (CHR ''0'') = 0"
  by (simp_all add: is_digit_def digit_val_def)

lemma nat_of_digits_zeros [simp]: "nat_of_digits (replicate j (CHR ''0'')) = 0"
  by (induction j) (use nat_of_digits_append [of "[CHR ''0'']"] in auto)

lemma show_nat_digits: "c \<in> set (show_nat n) \<Longrightarrow> is_digit c"
proof (induction n rule: show_nat.induct)
  case (1 n)
  then show ?case by (cases "n < 10") (auto simp: show_nat.simps [of n])
qed

lemma nat_of_show_nat [simp]: "nat_of_digits (show_nat n) = n"
proof (induction n rule: show_nat.induct)
  case (1 n)
  then show ?case by (cases "n < 10") (auto simp: show_nat.simps [of n] nat_of_digits_append)
qed

lemma show_nat_nonempty [simp]: "show_nat n \<noteq> []"
  by (cases "n < 10") (auto simp: show_nat.simps [of n])

lemma hd_show_nat: "0 < n \<Longrightarrow> hd (show_nat n) \<noteq> CHR ''0''"
proof (induction n rule: show_nat.induct)
  case (1 n)
  have "n < 10 \<Longrightarrow> digit_char n \<noteq> CHR ''0''" using 1 digit_char_simps(2) [of n] by fastforce
  then show ?case using 1 by (cases "n < 10") (auto simp: show_nat.simps [of n])
qed

lemma show_nat_length: "0 < n \<Longrightarrow> 10 ^ (length (show_nat n) - 1) \<le> n \<and> n < 10 ^ length (show_nat n)"
proof (induction n rule: show_nat.induct)
  case (1 n)
  show ?case
  proof (cases "n < 10")
    case False
    then have ih: "10 ^ (length (show_nat (n div 10)) - 1) \<le> n div 10"
      "n div 10 < 10 ^ length (show_nat (n div 10))" using 1 by auto
    obtain m where m: "length (show_nat (n div 10)) = Suc m"
      by (metis Suc_pred length_greater_0_conv show_nat_nonempty)
    have "10 * 10 ^ m \<le> n" "n < 10 * 10 ^ Suc m" using ih m by auto
    then show ?thesis using False m by (simp add: show_nat.simps [of n])
  qed (use 1 in \<open>simp add: show_nat.simps [of n]\<close>)
qed

section \<open>Reading\<close>

definition is_space :: "char \<Rightarrow> bool" where
  "is_space c \<longleftrightarrow> (let n = (of_char c :: nat) in 9 \<le> n \<and> n \<le> 13 \<or> n = 32 \<or> n = 160)"

text \<open>An optional exponent: its value and the rest of the string.\<close>

fun parse_exponent :: "string \<Rightarrow> int \<times> string" where
  "parse_exponent [] = (0, [])"
| "parse_exponent (c # r) =
     (if c = CHR ''e'' \<or> c = CHR ''E'' then
        (let (neg, r') = (case r of
                 [] \<Rightarrow> (False, [])
               | d # r' \<Rightarrow> if d = CHR ''-'' then (True, r') else if d = CHR ''+'' then (False, r') else (False, r));
             ds = takeWhile is_digit r'
         in if ds = [] then (0, c # r)
            else ((if neg then - 1 else 1) * int (nat_of_digits ds), dropWhile is_digit r'))
      else (0, c # r))"

text \<open>The longest decimal literal at the start of a string, if there is one.\<close>

definition parse_decimal :: "string \<Rightarrow> (rat \<times> string) option" where
  "parse_decimal s =
     (let ip = takeWhile is_digit s; r1 = dropWhile is_digit s;
          (fp, r2) = (case r1 of
              [] \<Rightarrow> ([], [])
            | c # r \<Rightarrow> if c = CHR ''.'' \<and> (ip \<noteq> [] \<or> takeWhile is_digit r \<noteq> [])
                      then (takeWhile is_digit r, dropWhile is_digit r) else ([], r1));
          (ex, r3) = parse_exponent r2
      in if ip = [] \<and> fp = [] then None
         else Some (of_nat (nat_of_digits (ip @ fp)) * 10 powi (ex - int (length fp)), r3))"

definition parse_sign :: "string \<Rightarrow> bool \<times> string" where
  "parse_sign s =
     (case s of
        [] \<Rightarrow> (False, [])
      | c # r \<Rightarrow> if c = CHR ''-'' then (True, r) else if c = CHR ''+'' then (False, r) else (False, s))"

definition parseFloat :: "string \<Rightarrow> jsnum" where
  "parseFloat s =
     (let (neg, u) = parse_sign (dropWhile is_space s);
          x = (if take 8 u = ''Infinity'' then Inf False
               else case parse_decimal u of None \<Rightarrow> NaN | Some (v, r) \<Rightarrow> num_of v)
      in if neg then num_neg x else x)"

section \<open>Printing\<close>

text \<open>The decimal exponent: \<open>10 ^ (n - 1) \<le> q < 10 ^ n\<close>.\<close>

definition dec_exp :: "rat \<Rightarrow> int" where
  "dec_exp q =
     (if 1 \<le> q then int (length (show_nat (nat \<lfloor>q\<rfloor>)))
      else 1 - int (length (show_nat (nat (\<lceil>1 / q\<rceil> - 1)))))"

text \<open>
  The nearest \<open>s\<close> for which \<open>s * 10 ^ (n - k)\<close> reads back as \<open>q\<close>: the closer neighbour first, then
  the other one.
\<close>

definition try_digits :: "rat \<Rightarrow> int \<Rightarrow> nat \<Rightarrow> nat option" where
  "try_digits q n k =
     (let u = 10 powi (n - int k); lo = \<lfloor>q / u\<rfloor>; hi = lo + 1;
          (a, b) = (if 2 * (q / u - of_int lo) \<le> 1 then (lo, hi) else (hi, lo))
      in if rnd (of_int a * u) = q then Some (nat a)
         else if rnd (of_int b * u) = q then Some (nat b) else None)"

fun shortest :: "nat \<Rightarrow> rat \<Rightarrow> int \<Rightarrow> nat \<Rightarrow> (nat \<times> nat) option" where
  "shortest 0 q n k = None"
| "shortest (Suc fuel) q n k =
     (case try_digits q n k of Some s \<Rightarrow> Some (s, k) | None \<Rightarrow> shortest fuel q n (Suc k))"

text \<open>The digits \<open>ds\<close> with the decimal point after the first \<open>n\<close> of them.\<close>

definition layout :: "string \<Rightarrow> int \<Rightarrow> string" where
  "layout ds n =
     (let k = int (length ds)
      in if k \<le> n \<and> n \<le> 21 then ds @ replicate (nat (n - k)) (CHR ''0'')
         else if 0 < n \<and> n \<le> 21 then take (nat n) ds @ ''.'' @ drop (nat n) ds
         else if - 6 < n \<and> n \<le> 0 then ''0.'' @ replicate (nat (- n)) (CHR ''0'') @ ds
         else (let e = n - 1
               in (if k = 1 then ds else [hd ds] @ ''.'' @ tl ds) @ ''e'' @
                  (if 0 \<le> e then ''+'' else ''-'') @ show_nat (nat \<bar>e\<bar>)))"

text \<open>Trailing zeros of the digits (from rounding up to a power of ten) are dropped.\<close>

fun strip_zeros :: "nat \<Rightarrow> string \<Rightarrow> string" where
  "strip_zeros 0 ds = ds"
| "strip_zeros (Suc f) ds =
     (if length ds > 1 \<and> last ds = CHR ''0'' then strip_zeros f (butlast ds) else ds)"

definition show_pos :: "rat \<Rightarrow> string" where
  "show_pos q =
     (let n = dec_exp q
      in case shortest (nat (n + 1080)) q n 1 of
           None \<Rightarrow> []
         | Some (s, k) \<Rightarrow> (let ds = show_nat s in layout (strip_zeros (length ds) ds) (n - int k + int (length ds))))"

fun num_to_string :: "jsnum \<Rightarrow> string" where
  "num_to_string NaN = ''NaN''"
| "num_to_string NegZero = ''0''"
| "num_to_string (Inf s) = (if s then ''-Infinity'' else ''Infinity'')"
| "num_to_string (Fin q) =
     (if q = 0 then ''0'' else if q < 0 then CHR ''-'' # show_pos (- q) else show_pos q)"

text \<open>\<open>toFixed(d)\<close>: the integer \<open>m\<close> with \<open>m / 10 ^ d\<close> nearest to the number, the larger on a tie.\<close>

definition fixed_pos :: "nat \<Rightarrow> rat \<Rightarrow> string" where
  "fixed_pos d q =
     (let m = nat \<lfloor>q * 10 ^ d + 1 / 2\<rfloor>; ds = show_nat m;
          ds' = replicate (Suc d - length ds) (CHR ''0'') @ ds; i = length ds' - d
      in if d = 0 then ds else take i ds' @ ''.'' @ drop i ds')"

fun toFixed :: "nat \<Rightarrow> jsnum \<Rightarrow> string" where
  "toFixed d (Fin q) =
     (if 10 ^ 21 \<le> \<bar>q\<bar> then num_to_string (Fin q)
      else if q < 0 then CHR ''-'' # fixed_pos d (- q) else fixed_pos d q)"
| "toFixed d NegZero = fixed_pos d 0"
| "toFixed d x = num_to_string x"

section \<open>Reading a layout\<close>

lemma digit_not_mark [simp]:
  "\<not> is_digit (CHR ''.'')" "\<not> is_digit (CHR ''e'')" "\<not> is_digit (CHR ''+'')" "\<not> is_digit (CHR ''-'')"
  "\<not> is_digit (CHR ''I'')"
  by (simp_all add: is_digit_def)

lemma span_digits:
  assumes "\<forall>c \<in> set ds. is_digit c" and "r = [] \<or> \<not> is_digit (hd r)"
  shows "takeWhile is_digit (ds @ r) = ds" "dropWhile is_digit (ds @ r) = r"
  using assms by (cases r; simp add: takeWhile_append2 dropWhile_append2)+

lemma parse_exponent_e:
  "parse_exponent (CHR ''e'' # (if b then CHR ''+'' else CHR ''-'') # show_nat m) = ((if b then 1 else - 1) * int m, [])"
proof -
  have "\<forall>c \<in> set (show_nat m). is_digit c" by (auto intro: show_nat_digits)
  then have "takeWhile is_digit (show_nat m) = show_nat m" "dropWhile is_digit (show_nat m) = []" by simp_all
  note sp = this
  show ?thesis by (simp add: sp)
qed

lemma parse_exponent_Nil: "parse_exponent [] = (0, [])"
  by simp

declare parse_exponent.simps [simp del]
declare parse_exponent_Nil [simp]

lemma parse_decimal_int:
  assumes "\<forall>c \<in> set ip. is_digit c" "ip \<noteq> []" "r = [] \<or> hd r = CHR ''e''" "parse_exponent r = (ex, [])"
  shows "parse_decimal (ip @ r) = Some (of_nat (nat_of_digits ip) * 10 powi ex, [])"
proof -
  have "r = [] \<or> \<not> is_digit (hd r)" using assms(3) by auto
  note sp = span_digits [OF assms(1) this]
  show ?thesis unfolding parse_decimal_def Let_def sp using assms(2-) by (cases r) auto
qed

lemma parse_decimal_frac:
  assumes "\<forall>c \<in> set ip. is_digit c" "ip \<noteq> []" "\<forall>c \<in> set fp. is_digit c"
    "r = [] \<or> hd r = CHR ''e''" "parse_exponent r = (ex, [])"
  shows "parse_decimal (ip @ CHR ''.'' # fp @ r) =
           Some (of_nat (nat_of_digits (ip @ fp)) * 10 powi (ex - int (length fp)), [])"
proof -
  have "r = [] \<or> \<not> is_digit (hd r)" using assms(4) by auto
  note sp = span_digits [OF assms(1), of "CHR ''.'' # fp @ r"] span_digits [OF assms(3) this]
  show ?thesis using assms(2, 4, 5) by (auto simp: parse_decimal_def sp Let_def)
qed

lemma powi10_split: "(10::rat) ^ j * 10 powi (p - int j) = 10 powi p"
  by (simp add: power_int_diff)

lemma nat_of_digits_cat:
  "nat_of_digits (ip @ fp) = m \<Longrightarrow> ip @ fp = ds \<Longrightarrow> nat_of_digits ds = m"
  by simp

lemma parse_layout:
  assumes dig: "\<forall>c \<in> set ds. is_digit c" and ne: "ds \<noteq> []"
  shows "parse_decimal (layout ds p) = Some (of_nat (nat_of_digits ds) * 10 powi (p - int (length ds)), [])"
proof -
  let ?k = "int (length ds)"
  consider "?k \<le> p \<and> p \<le> 21" | "\<not> (?k \<le> p \<and> p \<le> 21)" "0 < p \<and> p \<le> 21"
    | "\<not> (?k \<le> p \<and> p \<le> 21)" "\<not> (0 < p \<and> p \<le> 21)" "- 6 < p \<and> p \<le> 0"
    | "\<not> (?k \<le> p \<and> p \<le> 21)" "\<not> (0 < p \<and> p \<le> 21)" "\<not> (- 6 < p \<and> p \<le> 0)" by blast
  then show ?thesis
  proof cases
    case 1
    let ?ip = "ds @ replicate (nat (p - ?k)) (CHR ''0'')"
    have "parse_decimal (?ip @ []) = Some (of_nat (nat_of_digits ?ip) * 10 powi 0, [])"
      using dig ne by (intro parse_decimal_int) auto
    moreover have "(10::rat) ^ nat (p - ?k) = 10 powi (p - ?k)" using 1 by (simp add: power_int_def)
    ultimately show ?thesis using 1 by (simp add: layout_def nat_of_digits_append)
  next
    case 2
    have "parse_decimal (take (nat p) ds @ CHR ''.'' # drop (nat p) ds @ []) =
        Some (of_nat (nat_of_digits (take (nat p) ds @ drop (nat p) ds)) * 10 powi (0 - int (length (drop (nat p) ds))), [])"
      using dig ne 2 by (intro parse_decimal_frac) (auto dest: in_set_takeD in_set_dropD)
    moreover have "0 - int (length (drop (nat p) ds)) = p - ?k" using 2 by auto
    moreover have "layout ds p = take (nat p) ds @ CHR ''.'' # drop (nat p) ds" using 2 by (simp add: layout_def)
    ultimately show ?thesis using 2 by simp
  next
    case 3
    let ?fp = "replicate (nat (- p)) (CHR ''0'') @ ds"
    have "parse_decimal (''0'' @ CHR ''.'' # ?fp @ []) =
        Some (of_nat (nat_of_digits (''0'' @ ?fp)) * 10 powi (0 - int (length ?fp)), [])"
      using dig by (intro parse_decimal_frac) auto
    moreover have "nat_of_digits (''0'' @ ?fp) = nat_of_digits ds"
      using nat_of_digits_append [of "''0''" ?fp] nat_of_digits_append [of "replicate (nat (- p)) (CHR ''0'')" ds]
      by simp
    moreover have "0 - int (length ?fp) = p - ?k" using 3 by auto
    moreover have "layout ds p = ''0'' @ CHR ''.'' # ?fp" using 3 by (auto simp: layout_def)
    ultimately show ?thesis by simp
  next
    case 4
    let ?r = "CHR ''e'' # (if 0 \<le> p - 1 then CHR ''+'' else CHR ''-'') # show_nat (nat \<bar>p - 1\<bar>)"
    have ex: "parse_exponent ?r = (p - 1, [])"
      using parse_exponent_e [of "0 \<le> p - 1" "nat \<bar>p - 1\<bar>"] by (auto split: if_splits)
    obtain d es where ds: "ds = d # es" using ne by (cases ds) auto
    show ?thesis
    proof (cases "es = []")
      case True
      have "parse_decimal (ds @ ?r) = Some (of_nat (nat_of_digits ds) * 10 powi (p - 1), [])"
        using dig ne ex by (intro parse_decimal_int) auto
      moreover have "layout ds p = ds @ ?r" using 4 True ds by (auto simp: layout_def)
      ultimately show ?thesis using True ds by simp
    next
      case False
      have "parse_decimal ([d] @ CHR ''.'' # es @ ?r) =
          Some (of_nat (nat_of_digits ([d] @ es)) * 10 powi (p - 1 - int (length es)), [])"
        using dig ds ex by (intro parse_decimal_frac) auto
      moreover have "layout ds p = [d] @ CHR ''.'' # es @ ?r" using 4 False ds by (auto simp: layout_def)
      moreover have "p - 1 - int (length es) = p - ?k" using ds by simp
      ultimately show ?thesis using ds by simp
    qed
  qed
qed

lemma hd_layout: "\<forall>c \<in> set ds. is_digit c \<Longrightarrow> ds \<noteq> [] \<Longrightarrow> layout ds p \<noteq> [] \<and> is_digit (hd (layout ds p))"
  by (cases ds) (auto simp: layout_def Let_def take_Cons' hd_append)

section \<open>The search for digits\<close>

lemma dec_exp_ge:
  assumes "0 < q" and "1 / q \<le> 10 ^ j"
  shows "- int j < dec_exp q"
proof (cases "1 \<le> q")
  case False
  define m where "m = nat (\<lceil>1 / q\<rceil> - 1)"
  have "1 < 1 / q" using assms False by simp
  then have pos: "1 \<le> \<lceil>1 / q\<rceil> - 1" by linarith
  have "of_int (\<lceil>1 / q\<rceil> - 1) < 1 / q" by linarith
  then have "of_int (\<lceil>1 / q\<rceil> - 1) < (10::rat) ^ j" using assms(2) by linarith
  then have "\<lceil>1 / q\<rceil> - 1 < 10 ^ j" by (metis of_int_less_iff of_int_numeral of_int_power)
  then have "m < 10 ^ j" using pos by (simp add: m_def nat_less_iff)
  moreover have "10 ^ (length (show_nat m) - 1) \<le> m"
    using show_nat_length [of m] pos by (simp add: m_def)
  ultimately have "(10::nat) ^ (length (show_nat m) - 1) < 10 ^ j" by (rule le_less_trans [rotated])
  then have "length (show_nat m) - 1 < j" by (rule power_less_imp_less_exp [rotated]) simp
  then show ?thesis using False by (simp add: dec_exp_def m_def)
next
  case True
  have "0 < length (show_nat (nat \<lfloor>q\<rfloor>))" by simp
  moreover have "dec_exp q = int (length (show_nat (nat \<lfloor>q\<rfloor>)))" using True by (simp add: dec_exp_def)
  ultimately show ?thesis by linarith
qed

lemma dec_exp_double:
  assumes "0 < q" and "2 powi (- 1074) \<le> q"
  shows "- 1074 < dec_exp q"
proof -
  define t :: nat where "t = 1074"
  have "inverse (2 ^ t) \<le> q" using assms(2) by (simp add: t_def power_int_minus)
  then have "1 / q \<le> 2 ^ t" using assms(1) by (simp add: divide_simps mult.commute)
  also have "\<dots> \<le> (10::rat) ^ t" by (intro power_mono) auto
  finally have "- int t < dec_exp q" using assms(1) dec_exp_ge by blast
  then show ?thesis by (simp add: t_def)
qed

lemma double_multiple:
  assumes "rnd q = q"
  shows "\<exists>m. q = of_int m * 2 powi (- 1074)"
proof -
  have q: "q = of_int (rne (q / 2 powi quantum q)) * 2 powi quantum q"
    using rnd_eq [of q] assms by simp
  define t :: int where "t = - 1074"
  have "t \<le> quantum q" using quantum_ge [of q] by (simp add: t_def)
  then have "(2::rat) powi quantum q = 2 powi (int (nat (quantum q - t)) + t)" by simp
  also have "\<dots> = of_int (2 ^ nat (quantum q - t)) * 2 powi t"
    unfolding powi2_add power_int_of_nat by simp
  finally have "q = of_int (rne (q / 2 powi quantum q)) * (of_int (2 ^ nat (quantum q - t)) * 2 powi t)"
    using q by simp
  then have "q = of_int (rne (q / 2 powi quantum q) * 2 ^ nat (quantum q - t)) * 2 powi t"
    by (simp only: of_int_mult mult.assoc)
  then show ?thesis unfolding t_def ..
qed

lemma powi2_10: "\<exists>z. (2::rat) powi (- int t) * 10 ^ t = of_int z"
proof -
  have "(10::rat) ^ t = 2 ^ t * of_int (5 ^ t)" by (simp flip: power_mult_distrib)
  then have "(2::rat) powi (- int t) * 10 ^ t = of_int (5 ^ t)" by (simp add: power_int_minus)
  then show ?thesis ..
qed

lemma double_decimal:
  assumes "rnd q = q" and "1074 \<le> j"
  shows "\<exists>m. q * 10 ^ j = of_int m"
proof -
  define t :: nat where "t = 1074"
  obtain m where m: "q = of_int m * 2 powi (- int t)"
    using double_multiple [OF assms(1)] by (auto simp: t_def)
  obtain i where j: "j = t + i" using assms(2) le_Suc_ex unfolding t_def by blast
  obtain z where "(2::rat) powi (- int t) * 10 ^ t = of_int z" using powi2_10 by blast
  then have "q * 10 ^ j = of_int m * of_int z * 10 ^ i"
    unfolding m j power_add by (metis mult.assoc)
  then have "q * 10 ^ j = of_int (m * z * 10 ^ i)" by simp
  then show ?thesis ..
qed

lemma try_digits_exact:
  assumes "rnd q = q" and "n - int k \<le> - 1074"
  shows "try_digits q n k \<noteq> None"
proof -
  define u :: rat where "u = 10 powi (n - int k)"
  have "1074 \<le> nat (int k - n)" using assms(2) by linarith
  then obtain m where "q * 10 ^ nat (int k - n) = of_int m" using double_decimal [OF assms(1)] by blast
  moreover have "n - int k = - int (nat (int k - n))" using assms(2) by simp
  then have "u = inverse (10 ^ nat (int k - n))" unfolding u_def by (metis power_int_minus power_int_of_nat)
  ultimately have m: "q / u = of_int m" by (simp add: divide_inverse)
  have "u \<noteq> 0" by (simp add: u_def)
  then have "of_int m * u = q" using m by (simp add: field_simps)
  then show ?thesis using m assms(1) by (simp add: try_digits_def flip: u_def)
qed

lemma shortest_finds:
  assumes "try_digits q n k' \<noteq> None" "k \<le> k'" "k' < k + fuel"
  shows "\<exists>s j. shortest fuel q n k = Some (s, j) \<and> try_digits q n j = Some s"
  using assms
proof (induction fuel arbitrary: k)
  case (Suc fuel)
  show ?case
  proof (cases "try_digits q n k")
    case None
    then have "Suc k \<le> k'" using Suc.prems by (metis Suc_leI le_neq_implies_less)
    then show ?thesis using Suc None by simp
  qed simp
qed simp

lemma try_digits_value:
  assumes "try_digits q n k = Some s" and "0 < q"
  shows "rnd (of_nat s * 10 powi (n - int k)) = q" and "0 < s"
proof -
  define u :: rat where "u = 10 powi (n - int k)"
  have "0 < u" by (simp add: u_def zero_less_power_int)
  then have "0 \<le> \<lfloor>q / u\<rfloor>" using assms(2) by simp
  then show r: "rnd (of_nat s * 10 powi (n - int k)) = q"
    using assms(1) by (auto simp: try_digits_def Let_def simp flip: u_def split: if_splits)
  then show "0 < s" using assms(2) by (cases s) auto
qed

lemma strip_zeros_eq:
  "ds \<noteq> [] \<Longrightarrow> \<exists>j. ds = strip_zeros f ds @ replicate j (CHR ''0'') \<and> strip_zeros f ds \<noteq> []"
proof (induction f arbitrary: ds)
  case (Suc f)
  show ?case
  proof (cases "length ds > 1 \<and> last ds = CHR ''0''")
    case True
    then have "butlast ds \<noteq> []" by (cases ds rule: rev_cases) auto
    from Suc.IH [OF this] obtain j where
      j: "butlast ds = strip_zeros f (butlast ds) @ replicate j (CHR ''0'')" "strip_zeros f (butlast ds) \<noteq> []"
      by blast
    have "ds = butlast ds @ [CHR ''0'']" using True Suc.prems by (metis append_butlast_last_id)
    also have "\<dots> = strip_zeros f (butlast ds) @ replicate (Suc j) (CHR ''0'')"
      by (subst j(1)) (simp add: replicate_append_same)
    finally show ?thesis using True j(2) by (metis strip_zeros.simps(2))
  qed (use Suc.prems in auto)
qed (metis append_Nil2 replicate_0 strip_zeros.simps(1))

text \<open>The printed form is a layout of digits that denote a number that rounds to \<open>q\<close>.\<close>

lemma show_pos_layout:
  assumes "is_double q" and "0 < q"
  obtains ds p where "show_pos q = layout ds p" "\<forall>c \<in> set ds. is_digit c" "ds \<noteq> []" "hd ds \<noteq> CHR ''0''"
    "rnd (of_nat (nat_of_digits ds) * 10 powi (p - int (length ds))) = q"
proof -
  define n where "n = dec_exp q"
  have r: "rnd q = q" using assms(1) by (simp add: is_double_def)
  obtain m where m: "q = of_int m * 2 powi (- 1074)" using double_multiple [OF r] by blast
  then have "1 \<le> m" using assms(2) by (simp add: zero_less_mult_iff)
  then have "2 powi (- 1074) \<le> q" unfolding m by simp
  then have "- 1074 < n" unfolding n_def by (rule dec_exp_double [OF assms(2)])
  then have "1 \<le> nat (n + 1080)" by simp
  then obtain s k where sk: "shortest (nat (n + 1080)) q n 1 = Some (s, k)" "try_digits q n k = Some s"
    using shortest_finds [of q n "nat (n + 1080)" 1 "nat (n + 1080)"] try_digits_exact [OF r, of n "nat (n + 1080)"]
    by auto
  define ds where "ds = strip_zeros (length (show_nat s)) (show_nat s)"
  obtain j where j: "show_nat s = ds @ replicate j (CHR ''0'')" "ds \<noteq> []"
    using strip_zeros_eq [of "show_nat s"] by (auto simp: ds_def)
  have dig: "\<forall>c \<in> set ds. is_digit c" using show_nat_digits [of _ s] j(1) by auto
  define p where "p = n - int k + int (length (show_nat s))"
  have sp: "show_pos q = layout ds p"
    using sk by (simp add: show_pos_def n_def [symmetric] ds_def p_def Let_def)
  have "s = nat_of_digits ds * 10 ^ j"
    using nat_of_show_nat [of s] unfolding j(1) nat_of_digits_append by simp
  moreover have "p - int (length ds) = (n - int k) + int j" by (simp add: p_def j(1))
  ultimately have "of_nat (nat_of_digits ds) * 10 powi (p - int (length ds)) = (of_nat s * 10 powi (n - int k) :: rat)"
    by (simp add: power_int_add)
  then have v: "rnd (of_nat (nat_of_digits ds) * 10 powi (p - int (length ds))) = q"
    using try_digits_value(1) [OF sk(2) assms(2)] by simp
  from try_digits_value(2) [OF sk(2) assms(2)] have "hd ds \<noteq> CHR ''0''" using hd_show_nat [of s] j by simp
  from that [OF sp dig j(2) this v] show ?thesis .
qed

lemma show_pos_parse:
  assumes "is_double q" and "0 < q"
  shows "\<exists>v. parse_decimal (show_pos q) = Some (v, []) \<and> rnd v = q"
    and "show_pos q \<noteq> [] \<and> is_digit (hd (show_pos q))"
proof -
  obtain ds p where l: "show_pos q = layout ds p" "\<forall>c \<in> set ds. is_digit c" "ds \<noteq> []"
    "rnd (of_nat (nat_of_digits ds) * 10 powi (p - int (length ds))) = q"
    using show_pos_layout [OF assms] by metis
  then show "\<exists>v. parse_decimal (show_pos q) = Some (v, []) \<and> rnd v = q"
    using parse_layout [OF l(2,3), of p] by auto
  show "show_pos q \<noteq> [] \<and> is_digit (hd (show_pos q))"
    using hd_layout [OF l(2,3), of p] l(1) by simp
qed

lemma num_of_double: "is_double q \<Longrightarrow> rnd v = q \<Longrightarrow> q \<noteq> 0 \<Longrightarrow> num_of v = Fin q"
  by (auto simp: mk_num_def is_double_def Let_def)

lemma digit_not_special:
  "is_digit c \<Longrightarrow> \<not> is_space c" "is_digit c \<Longrightarrow> c \<noteq> CHR ''-'' \<and> c \<noteq> CHR ''+'' \<and> c \<noteq> CHR ''I''"
  by (auto simp: is_digit_def is_space_def Let_def)

lemma parseFloat_pos:
  assumes "s \<noteq> []" "is_digit (hd s)" "parse_decimal s = Some (v, r)"
  shows "parseFloat s = num_of v" "parseFloat (CHR ''-'' # s) = num_neg (num_of v)"
proof -
  obtain c t where s: "s = c # t" using assms(1) by (cases s) auto
  have c: "\<not> is_space c" "c \<noteq> CHR ''-''" "c \<noteq> CHR ''+''" "c \<noteq> CHR ''I''"
    using assms(2) digit_not_special [of c] by (auto simp: s)
  have "\<not> is_space (CHR ''-'')" by (simp add: is_space_def Let_def)
  with c assms(3) show "parseFloat s = num_of v" "parseFloat (CHR ''-'' # s) = num_neg (num_of v)"
    by (simp_all add: parseFloat_def parse_sign_def s)
qed

lemma parseFloat_digits:
  assumes "\<forall>c \<in> set ds. is_digit c" "ds \<noteq> []" "nat_of_digits ds \<le> 2 ^ 53"
  shows "parseFloat ds = num_int (int (nat_of_digits ds))"
proof -
  have "parse_decimal ds = Some (of_nat (nat_of_digits ds), [])"
    using parse_decimal_int [OF assms(1,2), of "[]" 0] by simp
  then have "parseFloat ds = num_of (of_int (int (nat_of_digits ds)))"
    using parseFloat_pos(1) [of ds] assms(1,2) by simp
  also have "int (nat_of_digits ds) \<le> 2 ^ 53" using assms(3) by (metis of_nat_le_iff of_nat_numeral of_nat_power)
  then have "num_of (of_int (int (nat_of_digits ds))) = num_int (int (nat_of_digits ds))" by (intro mk_num_int) simp_all
  finally show ?thesis .
qed

lemma parseFloat_show:
  assumes "num_ok x"
  shows "parseFloat (num_to_string x) = (if x = NegZero then Fin 0 else x)"
proof (cases x)
  case (Fin q)
  have d: "is_double \<bar>q\<bar>" using assms Fin by (auto simp: abs_if)
  show ?thesis
  proof (cases "q = 0")
    case True
    have "parse_decimal ''0'' = Some (0, [])"
      using parse_decimal_int [of "''0''" "[]" 0] by simp
    from parseFloat_pos(1) [OF _ _ this] show ?thesis using Fin True by (simp add: mk_num_def)
  next
    case False
    then obtain v where v: "parse_decimal (show_pos \<bar>q\<bar>) = Some (v, [])" "rnd v = \<bar>q\<bar>"
      using show_pos_parse(1) [OF d] by auto
    have "show_pos \<bar>q\<bar> \<noteq> []" "is_digit (hd (show_pos \<bar>q\<bar>))"
      using show_pos_parse(2) [OF d] False by auto
    note pf = parseFloat_pos [OF this v(1)]
    have "num_of v = Fin \<bar>q\<bar>" using num_of_double [OF d v(2)] False by simp
    then show ?thesis using pf Fin False by (cases "q < 0") (auto simp: abs_if)
  qed
qed (code_simp | simp)+

section \<open>Conversions and the operator \<open>+\<close>\<close>

fun val_to_string :: "jsval \<Rightarrow> string" where
  "val_to_string Undefined = ''undefined''"
| "val_to_string Null = ''null''"
| "val_to_string (Bool b) = (if b then ''true'' else ''false'')"
| "val_to_string (Num x) = num_to_string x"
| "val_to_string (Str s) = s"
| "val_to_string (Arr xs) =
     js_join '','' (map (\<lambda>x. if x = Undefined \<or> x = Null then [] else val_to_string x) xs)"
| "val_to_string (Obj ps) = ''[object Object]''"

definition radix_val :: "char \<Rightarrow> nat" where
  "radix_val c =
     (let n = (of_char (lower_char c) :: nat)
      in if 48 \<le> n \<and> n \<le> 57 then n - 48 else if 97 \<le> n \<and> n \<le> 122 then n - 87 else 99)"

definition parse_radix :: "nat \<Rightarrow> string \<Rightarrow> jsnum" where
  "parse_radix b ds =
     (if ds = [] \<or> \<not> list_all (\<lambda>c. radix_val c < b) ds then NaN
      else num_of (of_nat (fold (\<lambda>c n. b * n + radix_val c) ds 0)))"

text \<open>\<open>Number(s)\<close>: the whole string, less surrounding white space, must be a literal.\<close>

definition str_to_num :: "string \<Rightarrow> jsnum" where
  "str_to_num s =
     (let t = rev (dropWhile is_space (rev (dropWhile is_space s)));
          p = map lower_char (take 2 t); (neg, u) = parse_sign t
      in if t = [] then Fin 0
         else if p = ''0x'' then parse_radix 16 (drop 2 t)
         else if p = ''0o'' then parse_radix 8 (drop 2 t)
         else if p = ''0b'' then parse_radix 2 (drop 2 t)
         else (let x = (if u = ''Infinity'' then Inf False
                        else case parse_decimal u of Some (v, []) \<Rightarrow> num_of v | _ \<Rightarrow> NaN)
               in if neg then num_neg x else x))"

fun val_to_num :: "jsval \<Rightarrow> jsnum" where
  "val_to_num Undefined = NaN"
| "val_to_num Null = Fin 0"
| "val_to_num (Bool b) = (if b then Fin 1 else Fin 0)"
| "val_to_num (Num x) = x"
| "val_to_num (Str s) = str_to_num s"
| "val_to_num v = str_to_num (val_to_string v)"

fun is_primitive_num :: "jsval \<Rightarrow> bool" where
  "is_primitive_num (Str s) = False"
| "is_primitive_num (Arr xs) = False"
| "is_primitive_num (Obj ps) = False"
| "is_primitive_num v = True"

definition js_add :: "jsval \<Rightarrow> jsval \<Rightarrow> jsval" where
  "js_add a b =
     (if is_primitive_num a \<and> is_primitive_num b then Num (num_add (val_to_num a) (val_to_num b))
      else Str (val_to_string a @ val_to_string b))"

lemma js_add_Num [simp]: "js_add (Num a) (Num b) = Num (num_add a b)"
  by (simp add: js_add_def)

text \<open>\<open>xs[i] = v\<close> on an array: it grows as needed, with holes that read as undefined.\<close>

definition arr_set :: "jsval list \<Rightarrow> nat \<Rightarrow> jsval \<Rightarrow> jsval list" where
  "arr_set xs i v = (if i < length xs then xs[i := v] else xs @ replicate (i - length xs) Undefined @ [v])"

definition arr_get :: "jsval list \<Rightarrow> nat \<Rightarrow> jsval" where
  "arr_get xs i = (if i < length xs then xs ! i else Undefined)"

lemma length_arr_set: "length (arr_set xs i v) = max (length xs) (Suc i)"
  by (auto simp: arr_set_def)

lemma arr_get_set [simp]: "arr_get (arr_set xs i v) j = (if j = i then v else arr_get xs j)"
  by (auto simp: arr_get_def arr_set_def nth_append nth_Cons' not_less)

section \<open>Reading \<open>toFixed\<close>\<close>

text \<open>The exact value of a printed decimal, with its sign.\<close>

definition decimal_value :: "string \<Rightarrow> rat option" where
  "decimal_value s =
     (let (neg, u) = parse_sign s
      in case parse_decimal u of Some (v, []) \<Rightarrow> Some (if neg then - v else v) | _ \<Rightarrow> None)"

lemma fixed_pos_parse:
  "parse_decimal (fixed_pos d q) = Some (of_nat (nat \<lfloor>q * 10 ^ d + 1 / 2\<rfloor>) / 10 ^ d, [])"
proof -
  let ?m = "nat \<lfloor>q * 10 ^ d + 1 / 2\<rfloor>"
  define ds where "ds = replicate (Suc d - length (show_nat ?m)) (CHR ''0'') @ show_nat ?m"
  define i where "i = length ds - d"
  have dig: "\<forall>c \<in> set ds. is_digit c" by (auto simp: ds_def intro: show_nat_digits)
  have val: "nat_of_digits ds = ?m" by (simp add: ds_def nat_of_digits_append)
  have len: "d < length ds" by (simp add: ds_def)
  show ?thesis
  proof (cases "d = 0")
    case True
    then have "fixed_pos d q = show_nat ?m @ []" by (simp add: fixed_pos_def Let_def)
    then show ?thesis using True parse_decimal_int [of "show_nat ?m" "[]" 0] show_nat_digits by auto
  next
    case False
    have t: "\<forall>c \<in> set (take i ds). is_digit c" "\<forall>c \<in> set (drop i ds). is_digit c" using dig by (auto dest: in_set_takeD in_set_dropD)
    have "take i ds \<noteq> []" using len by (auto simp: i_def)
    from parse_decimal_frac [OF t(1) this t(2), of "[]" 0]
    have "parse_decimal (take i ds @ CHR ''.'' # drop i ds) =
        Some (of_nat (nat_of_digits (take i ds @ drop i ds)) * 10 powi (0 - int (length (drop i ds))), [])" by simp
    moreover have "length (drop i ds) = d" using len by (simp add: i_def)
    moreover have "fixed_pos d q = take i ds @ CHR ''.'' # drop i ds"
      using False unfolding fixed_pos_def Let_def ds_def [symmetric] i_def [symmetric] by simp
    ultimately show ?thesis using val by (simp add: power_int_minus_divide)
  qed
qed

lemma fixed_pos_hd: "fixed_pos d q \<noteq> [] \<and> is_digit (hd (fixed_pos d q))"
proof -
  let ?m = "nat \<lfloor>q * 10 ^ d + 1 / 2\<rfloor>"
  have dig: "is_digit (hd (replicate k (CHR ''0'') @ show_nat ?m))" for k
    using show_nat_digits [of "hd (show_nat ?m)" ?m] by (cases k) (simp_all add: hd_append)
  show ?thesis using dig [of 0] dig [of "Suc d - length (show_nat ?m)"]
    by (auto simp: fixed_pos_def Let_def hd_append hd_take)
qed

lemma fixed_pos_close: "0 \<le> (q::rat) \<Longrightarrow> \<bar>of_nat (nat \<lfloor>q * 10 ^ d + 1 / 2\<rfloor>) / 10 ^ d - q\<bar> \<le> 1 / (2 * 10 ^ d)"
proof -
  assume q: "0 \<le> q"
  then have n: "of_nat (nat \<lfloor>q * 10 ^ d + 1 / 2\<rfloor>) = (of_int \<lfloor>q * 10 ^ d + 1 / 2\<rfloor> :: rat)" by simp
  have "\<bar>of_int \<lfloor>q * 10 ^ d + 1 / 2\<rfloor> - q * 10 ^ d\<bar> \<le> 1 / 2" by linarith
  then have "\<bar>(of_int \<lfloor>q * 10 ^ d + 1 / 2\<rfloor> - q * 10 ^ d) / 10 ^ d\<bar> \<le> 1 / 2 / 10 ^ d"
    by (simp add: abs_divide divide_right_mono del: divide_divide_eq_left)
  then show ?thesis unfolding n by (simp add: diff_divide_distrib)
qed

text \<open>A number printed with \<open>d\<close> decimals is off by at most half a unit of the last one.\<close>

lemma toFixed_close:
  assumes "\<bar>q\<bar> < 10 ^ 21"
  shows "\<exists>v. decimal_value (toFixed d (Fin q)) = Some v \<and> \<bar>v - q\<bar> \<le> 1 / (2 * 10 ^ d)"
proof (cases "q < 0")
  case True
  then show ?thesis using assms fixed_pos_close [of "- q" d]
    by (auto simp: decimal_value_def parse_sign_def fixed_pos_parse abs_minus_commute)
next
  case False
  have "parse_sign (fixed_pos d q) = (False, fixed_pos d q)"
    using fixed_pos_hd [of d q] by (auto simp: parse_sign_def split: list.splits)
  then show ?thesis using False assms fixed_pos_close [of q d] by (auto simp: decimal_value_def fixed_pos_parse)
qed

end
