(* ===== verification/Client.thy ===== *)
theory Client
  imports Js_Format Resource
begin

text \<open>
  The boundary of the frontend: the gRPC requests it sends through the SDK client, the effects a
  handler has on the page, and the helpers of \<open>lib/error.ts\<close>, \<open>lib/log.ts\<close> and \<open>lib/stream.ts\<close>.
  A request is its message type with the fields the code sets; a field the code leaves unset has
  the protobuf default. What the robot answers is an argument of the callback that receives it.
\<close>

type_synonym bytes = "nat list"

record vec3 =
  v_x :: jsnum
  v_y :: jsnum
  v_z :: jsnum

definition new_Vector3 :: vec3 where
  "new_Vector3 = \<lparr>v_x = Fin 0, v_y = Fin 0, v_z = Fin 0\<rparr>"

text \<open>
  The coordinates of a pose hold whatever the setters were given: a number, or the text of an edited
  input.
\<close>

record pose =
  p_x :: jsval
  p_y :: jsval
  p_z :: jsval
  p_o_x :: jsval
  p_o_y :: jsval
  p_o_z :: jsval
  p_theta :: jsval

definition new_Pose :: pose where
  "new_Pose = \<lparr>p_x = Num (Fin 0), p_y = Num (Fin 0), p_z = Num (Fin 0), p_o_x = Num (Fin 0),
     p_o_y = Num (Fin 0), p_o_z = Num (Fin 0), p_theta = Num (Fin 0)\<rparr>"

section \<open>Requests\<close>

datatype base_req =
    BaseStop string
  | SetPower string vec3 vec3              \<comment> \<open>name, linear, angular\<close>
  | SetVelocity string vec3 vec3
  | MoveStraight string jsnum jsnum        \<comment> \<open>name, mmPerSec, distanceMm\<close>
  | Spin string jsnum jsnum                \<comment> \<open>name, angleDeg, degsPerSec\<close>

datatype arm_req =
    ArmStop string
  | ArmMoveToPosition string pose
  | MoveToJointPositions string "jsval list"

datatype motor_req =
    MotorStop string
  | MotorSetPower string jsnum
  | GoFor string jsnum jsnum               \<comment> \<open>name, rpm, revolutions\<close>
  | GoTo string jsnum jsnum                \<comment> \<open>name, rpm, positionRevolutions\<close>

datatype servo_req = ServoStop string | ServoMove string jsval

datatype gantry_req = GantryStop string | GantryMoveToPosition string "jsval list"

datatype gripper_req = GripperStop string | GripperOpen string | GripperGrab string

datatype board_req =
    GetGPIO string string
  | SetGPIO string string bool
  | GetPWM string string
  | SetPWM string string jsnum
  | GetPWMFrequency string string
  | SetPWMFrequency string string jsnum

datatype stream_req = AddStream string | RemoveStream string

datatype camera_req = RenderFrame string string | GetPointCloud string string

datatype robot_req =
    ResourceNames
  | StreamStatus "resource_name list" int  \<comment> \<open>names, every (nanoseconds)\<close>
  | CancelStatusStream
  | GetOperations
  | GetSessions
  | CancelOperation string

datatype sensors_req = GetSensors string | GetReadings string "resource_name list"

datatype movement_req =
    GetMovementProperties string
  | GetOrientation string
  | GetAngularVelocity string
  | GetLinearVelocity string
  | GetCompassHeading string
  | GetPosition string

record ctrl_event =
  ce_seconds :: int
  ce_nanos :: int
  ce_event :: string
  ce_control :: string
  ce_value :: jsnum

datatype input_req = TriggerEvent string ctrl_event

text \<open>
  The arguments of a command are the value its struct denotes. A command that runs on a resource
  names the service, the resource and the command.
\<close>

datatype generic_req =
    DoCommand string jsval
  | RunCommand string string string jsval

datatype nav_mode = ModeUnspecified | ModeManual | ModeWaypoint

datatype navigation_req =
    SetMode string nav_mode
  | AddWaypoint string jsnum jsnum         \<comment> \<open>name, latitude, longitude\<close>
  | RemoveWaypoint string string           \<comment> \<open>name, id\<close>
  | GetWaypoints string
  | GetLocation string

datatype slam_req = GetMap string string bool   \<comment> \<open>name, MIME type, includeRobotMarker\<close>

text \<open>\<open>Move\<close>: the motion service, the component, the frame (\<open>undefined\<close> without a camera) and the point.\<close>

datatype motion_req = Move string resource_name "string option" vec3

datatype request =
    BaseReq base_req
  | ArmReq arm_req
  | MotorReq motor_req
  | ServoReq servo_req
  | GantryReq gantry_req
  | GripperReq gripper_req
  | BoardReq board_req
  | StreamReq stream_req
  | CameraReq camera_req
  | RobotReq robot_req
  | SensorsReq sensors_req
  | InputReq input_req
  | MovementReq movement_req
  | GenericReq generic_req
  | NavigationReq navigation_req
  | SlamReq slam_req
  | MotionReq motion_req

section \<open>Effects\<close>

datatype effect =
    Call request
  | ToastError string
  | ToastSuccess string
  | ToastInfo string
  | ConsoleError string
  | ConsoleLog string
  | Uncaught js_error                      \<comment> \<open>an exception that leaves the handler\<close>
  | Connect                                \<comment> \<open>\<open>client.connect()\<close>\<close>
  | SetTimeout nat                         \<comment> \<open>milliseconds\<close>
  | LogRequest request                     \<comment> \<open>console.log('gRPC call:', req)\<close>
  | LoadScript string                      \<comment> \<open>a script element with this source\<close>

record service_error =
  err_code :: int
  err_message :: string

section \<open>lib/error.ts, lib/log.ts, lib/stream.ts\<close>

definition displayError :: "service_error option \<Rightarrow> effect list" where
  "displayError error =
     (case error of
        None \<Rightarrow> []
      | Some e \<Rightarrow> [ToastError (err_message e), ConsoleError (err_message e)])"

definition rcLogConditionally :: "bool \<Rightarrow> request \<Rightarrow> effect list" where
  "rcLogConditionally rcDebug req = (if rcDebug then [LogRequest req] else [])"

text \<open>
  \<open>addStream\<close> and \<open>removeStream\<close> send a request and return a promise; \<open>stream_settled\<close> is the
  callback, which rejects with the error or resolves.
\<close>

definition addStream :: "string \<Rightarrow> effect list" where
  "addStream name = [Call (StreamReq (AddStream name))]"

definition removeStream :: "string \<Rightarrow> effect list" where
  "removeStream name = [Call (StreamReq (RemoveStream name))]"

definition stream_settled :: "service_error option \<Rightarrow> service_error + unit" where
  "stream_settled err = (case err of Some e \<Rightarrow> Inl e | None \<Rightarrow> Inr ())"

section \<open>Whom a request is for\<close>

fun base_target :: "base_req \<Rightarrow> string" where
  "base_target (BaseStop n) = n"
| "base_target (SetPower n l a) = n"
| "base_target (SetVelocity n l a) = n"
| "base_target (MoveStraight n v d) = n"
| "base_target (Spin n a v) = n"

fun arm_target :: "arm_req \<Rightarrow> string" where
  "arm_target (ArmStop n) = n"
| "arm_target (ArmMoveToPosition n p) = n"
| "arm_target (MoveToJointPositions n js) = n"

fun motor_target :: "motor_req \<Rightarrow> string" where
  "motor_target (MotorStop n) = n"
| "motor_target (MotorSetPower n p) = n"
| "motor_target (GoFor n r v) = n"
| "motor_target (GoTo n r p) = n"

fun servo_target :: "servo_req \<Rightarrow> string" where
  "servo_target (ServoStop n) = n"
| "servo_target (ServoMove n a) = n"

fun gantry_target :: "gantry_req \<Rightarrow> string" where
  "gantry_target (GantryStop n) = n"
| "gantry_target (GantryMoveToPosition n ps) = n"

fun gripper_target :: "gripper_req \<Rightarrow> string" where
  "gripper_target (GripperStop n) = n"
| "gripper_target (GripperOpen n) = n"
| "gripper_target (GripperGrab n) = n"

fun board_target :: "board_req \<Rightarrow> string" where
  "board_target (GetGPIO n p) = n"
| "board_target (SetGPIO n p h) = n"
| "board_target (GetPWM n p) = n"
| "board_target (SetPWM n p d) = n"
| "board_target (GetPWMFrequency n p) = n"
| "board_target (SetPWMFrequency n p f) = n"

fun movement_target :: "movement_req \<Rightarrow> string" where
  "movement_target (GetMovementProperties n) = n"
| "movement_target (GetOrientation n) = n"
| "movement_target (GetAngularVelocity n) = n"
| "movement_target (GetLinearVelocity n) = n"
| "movement_target (GetCompassHeading n) = n"
| "movement_target (GetPosition n) = n"

fun navigation_target :: "navigation_req \<Rightarrow> string" where
  "navigation_target (SetMode n m) = n"
| "navigation_target (AddWaypoint n lat lng) = n"
| "navigation_target (RemoveWaypoint n i) = n"
| "navigation_target (GetWaypoints n) = n"
| "navigation_target (GetLocation n) = n"

fun generic_target :: "generic_req \<Rightarrow> string" where
  "generic_target (DoCommand n v) = n"
| "generic_target (RunCommand n r c v) = n"

text \<open>The component a request commands; requests to the robot itself command none.\<close>

fun target :: "request \<Rightarrow> string option" where
  "target (BaseReq r) = Some (base_target r)"
| "target (ArmReq r) = Some (arm_target r)"
| "target (MotorReq r) = Some (motor_target r)"
| "target (ServoReq r) = Some (servo_target r)"
| "target (GantryReq r) = Some (gantry_target r)"
| "target (GripperReq r) = Some (gripper_target r)"
| "target (BoardReq r) = Some (board_target r)"
| "target (InputReq (TriggerEvent n e)) = Some n"
| "target (MovementReq r) = Some (movement_target r)"
| "target (GenericReq r) = Some (generic_target r)"
| "target (NavigationReq r) = Some (navigation_target r)"
| "target (SlamReq (GetMap n m b)) = Some n"
| "target (MotionReq (Move n r f p)) = Some n"
| "target r = None"

fun addressed_to :: "string \<Rightarrow> effect \<Rightarrow> bool" where
  "addressed_to n (Call r) = (target r = Some n)"
| "addressed_to n (LogRequest r) = (target r = Some n)"
| "addressed_to n _ = True"

lemma displayError_no_call [simp]: "Call r \<notin> set (displayError e)"
  by (cases e) (auto simp: displayError_def)

lemma displayError_addressed [simp]: "o' \<in> set (displayError e) \<Longrightarrow> addressed_to n o'"
  by (cases e) (auto simp: displayError_def)

lemma rcLog_no_call [simp]: "Call r \<notin> set (rcLogConditionally d q)"
  by (simp add: rcLogConditionally_def)

lemma rcLog_addressed [simp]:
  "target q = Some n \<Longrightarrow> o' \<in> set (rcLogConditionally d q) \<Longrightarrow> addressed_to n o'"
  by (auto simp: rcLogConditionally_def split: if_splits)

text \<open>The requests among the effects.\<close>

definition calls :: "effect list \<Rightarrow> request list" where
  "calls os = List.map_filter (\<lambda>x. case x of Call q \<Rightarrow> Some q | _ \<Rightarrow> None) os"

lemma calls_simps [simp]:
  "calls [] = []" "calls (Call q # os) = q # calls os" "calls (os @ ps) = calls os @ calls ps"
  "calls (rcLogConditionally d q) = []"
  by (simp_all add: calls_def map_filter_simps map_filter_def rcLogConditionally_def)

end
