(* ===== verification/Event_System.thy ===== *)
theory Event_System
  imports Main
begin

text \<open>
  Components as event systems: a handler maps a state and an event to a new state and a list of
  effects. \<open>run\<close> folds it over a sequence of events and collects the effects; the locales carry
  invariants and effect contracts from one event to a whole run, for every order of events.
\<close>

type_synonym ('s, 'e, 'o) handler = "'s \<Rightarrow> 'e \<Rightarrow> 's \<times> 'o list"

fun run :: "('s, 'e, 'o) handler \<Rightarrow> 's \<Rightarrow> 'e list \<Rightarrow> 's \<times> 'o list" where
  "run h s [] = (s, [])"
| "run h s (e # es) = (let (t, os) = h s e; (u, ps) = run h t es in (u, os @ ps))"

abbreviation final :: "('s, 'e, 'o) handler \<Rightarrow> 's \<Rightarrow> 'e list \<Rightarrow> 's" where
  "final h s es \<equiv> fst (run h s es)"

abbreviation outputs :: "('s, 'e, 'o) handler \<Rightarrow> 's \<Rightarrow> 'e list \<Rightarrow> 'o list" where
  "outputs h s es \<equiv> snd (run h s es)"

lemma run_Cons: "final h s (e # es) = final h (fst (h s e)) es"
  "outputs h s (e # es) = snd (h s e) @ outputs h (fst (h s e)) es"
  by (simp_all add: split_def Let_def)

lemma run_append:
  "final h s (es @ fs) = final h (final h s es) fs"
  "outputs h s (es @ fs) = outputs h s es @ outputs h (final h s es) fs"
  by (induction es arbitrary: s) (simp_all add: split_def Let_def)

text \<open>An invariant that every event keeps.\<close>

locale invariant_system =
  fixes h :: "('s, 'e, 'o) handler" and inv :: "'s \<Rightarrow> bool"
  assumes step_inv: "inv s \<Longrightarrow> inv (fst (h s e))"
begin

lemma run_inv: "inv s \<Longrightarrow> inv (final h s es)"
  by (induction es arbitrary: s) (auto simp: split_def Let_def step_inv)

end

text \<open>In addition, every effect emitted from a good state meets a contract.\<close>

locale effect_system = invariant_system +
  fixes good :: "'o \<Rightarrow> bool"
  assumes step_good: "inv s \<Longrightarrow> o' \<in> set (snd (h s e)) \<Longrightarrow> good o'"
begin

lemma run_good: "inv s \<Longrightarrow> o' \<in> set (outputs h s es) \<Longrightarrow> good o'"
proof (induction es arbitrary: s)
  case (Cons e es)
  then consider "o' \<in> set (snd (h s e))" | "o' \<in> set (outputs h (fst (h s e)) es)"
    by (auto simp: split_def Let_def)
  then show ?case using Cons step_inv step_good by cases blast+
qed simp

end

text \<open>
  A property of the state and of everything emitted so far: it holds at the start with nothing
  emitted, and each event of an allowed kind keeps it.
\<close>

locale history_system =
  fixes h :: "('s, 'e, 'o) handler" and start :: "'s \<Rightarrow> bool" and allowed :: "'e \<Rightarrow> bool"
    and P :: "'s \<Rightarrow> 'o list \<Rightarrow> bool"
  assumes P_start: "start s \<Longrightarrow> P s []"
    and P_step: "P s os \<Longrightarrow> allowed e \<Longrightarrow> P (fst (h s e)) (os @ snd (h s e))"
begin

lemma run_P_from: "P s os \<Longrightarrow> list_all allowed es \<Longrightarrow> P (final h s es) (os @ outputs h s es)"
proof (induction es arbitrary: s os)
  case (Cons e es)
  then have "P (fst (h s e)) (os @ snd (h s e))" by (auto intro: P_step)
  from Cons.IH [OF this] Cons.prems show ?case by (simp add: split_def Let_def)
qed simp

lemma run_P: "start s \<Longrightarrow> list_all allowed es \<Longrightarrow> P (final h s es) (outputs h s es)"
  using run_P_from [of s "[]" es] P_start by simp

end

text \<open>
  A property of the events so far, the state they lead to and everything emitted: what the state is, read
  from the history of events alone.
\<close>

locale trace_system =
  fixes h :: "('s, 'e, 'o) handler" and s0 :: 's and P :: "'e list \<Rightarrow> 's \<Rightarrow> 'o list \<Rightarrow> bool"
  assumes trace_start: "P [] s0 []"
    and trace_step: "P es s os \<Longrightarrow> P (es @ [e]) (fst (h s e)) (os @ snd (h s e))"
begin

lemma run_trace: "P es (final h s0 es) (outputs h s0 es)"
proof (induction es rule: rev_induct)
  case (snoc e es)
  from trace_step [OF snoc, of e] show ?case by (simp add: run_append run_Cons del: run.simps(2))
qed (simp add: trace_start)

end

text \<open>The last value of a kind that the events carry, or an initial one.\<close>

definition last_input :: "('e \<Rightarrow> 'a option) \<Rightarrow> 'a \<Rightarrow> 'e list \<Rightarrow> 'a" where
  "last_input f x es = last (x # List.map_filter f es)"

lemma last_input_simps [simp]:
  "last_input f x [] = x"
  "last_input f x (es @ [e]) = (case f e of None \<Rightarrow> last_input f x es | Some y \<Rightarrow> y)"
  by (simp_all add: last_input_def map_filter_def split: option.splits)

text \<open>
  A composition whose next event is not determined is a relation: the states that steps lead to
  from a start state, and the invariants that every step keeps.
\<close>

inductive reach :: "('s \<Rightarrow> bool) \<Rightarrow> ('s \<Rightarrow> 's \<Rightarrow> bool) \<Rightarrow> 's \<Rightarrow> bool"
  for init :: "'s \<Rightarrow> bool" and step :: "'s \<Rightarrow> 's \<Rightarrow> bool" where
  start: "init s \<Longrightarrow> reach init step s"
| next_step: "reach init step s \<Longrightarrow> step s t \<Longrightarrow> reach init step t"

locale step_invariant =
  fixes init :: "'s \<Rightarrow> bool" and step :: "'s \<Rightarrow> 's \<Rightarrow> bool" and inv :: "'s \<Rightarrow> bool"
  assumes init_inv: "init s \<Longrightarrow> inv s"
    and step_inv: "step s t \<Longrightarrow> inv s \<Longrightarrow> inv t"
begin

lemma reach_inv: "reach init step s \<Longrightarrow> inv s"
  by (induction rule: reach.induct) (auto intro: init_inv step_inv)

end

end
