(* ===== verification/Panel.thy ===== *)
theory Panel
  imports Client Event_System
begin

text \<open>
  The contract the panels share, as a locale over a panel's handler: whatever it sends is for its own
  component. The panels' theories interpret it on their handlers.
\<close>

text \<open>A panel only ever addresses its own component, in whatever state and order of events.\<close>

locale panel =
  fixes h :: "string \<Rightarrow> ('s, 'e, effect) handler"
  assumes addressed: "o' \<in> set (snd (h n s e)) \<Longrightarrow> addressed_to n o'"

sublocale panel \<subseteq> effect_system "h n" "\<lambda>_. True" "addressed_to n" for n
  by unfold_locales (auto intro: addressed)

context panel
begin

lemma run_addressed: "list_all (addressed_to n) (outputs (h n) s es)"
  using run_good by (auto simp: list_all_iff)

end

end
