(* ===== verification/Streams.thy ===== *)
theory Streams
  imports Client Event_System
begin

text \<open>
  Video and audio streams: the module state of \<open>lib/camera-state.ts\<close>, the camera panel
  \<open>components/camera.vue\<close> and the audio panel \<open>components/audio-input.vue\<close>. An \<open>await\<close> splits a
  handler in two: the part up to the request, and the continuation that runs when the promise
  settles. Pending continuations are state, so any event may come between the two.
\<close>

section \<open>lib/camera-state.ts\<close>

record streams =
  baseStreamStates :: "(string \<times> bool) list"
  cameraStreamStates :: "(string \<times> bool) list"

definition stream_on :: "(string \<times> bool) list \<Rightarrow> string \<Rightarrow> bool" where
  "stream_on m k \<longleftrightarrow> map_of m k = Some True"

section \<open>camera.vue\<close>

datatype cam_out =
    Eff effect
  | EmitSelectedCameraView string
  | EmitClearInterval
  | OpenImage bytes

record camera_state =
  cam_pcdExpanded :: bool
  cam_pointcloud :: "bytes option"
  cam_camera :: bool
  cam_selectedValue :: string
  cam_pending :: "bool list"      \<comment> \<open>the \<open>isOn\<close> of each \<open>viewCamera\<close> that is awaiting its request\<close>

definition camera_init :: camera_state where
  "camera_init = \<lparr>cam_pcdExpanded = False, cam_pointcloud = None, cam_camera = False,
                  cam_selectedValue = ''live'', cam_pending = []\<rparr>"

type_synonym cam_world = "camera_state \<times> streams"

definition cam_initStreamState :: "string \<Rightarrow> streams \<Rightarrow> streams" where
  "cam_initStreamState cameraName st =
     st\<lparr>cameraStreamStates := AList.update cameraName False (cameraStreamStates st)\<rparr>"

text \<open>The request \<open>viewCamera\<close> awaits, if any.\<close>

definition viewCamera_request :: "string \<Rightarrow> bool \<Rightarrow> streams \<Rightarrow> effect list" where
  "viewCamera_request cameraName isOn st =
     (if isOn then
        (if \<not> stream_on (baseStreamStates st) cameraName \<and> \<not> stream_on (cameraStreamStates st) cameraName
         then addStream cameraName else [])
      else
        (if \<not> stream_on (baseStreamStates st) cameraName \<and> stream_on (cameraStreamStates st) cameraName
         then removeStream cameraName else []))"

text \<open>The rest of \<open>viewCamera\<close>: report a rejected promise, then record the new state.\<close>

definition viewCamera_rest :: "string \<Rightarrow> bool \<Rightarrow> service_error option \<Rightarrow> streams \<Rightarrow> streams \<times> effect list" where
  "viewCamera_rest cameraName isOn err st =
     (st\<lparr>cameraStreamStates := AList.update cameraName isOn (cameraStreamStates st)\<rparr>, displayError err)"

definition viewCamera :: "string \<Rightarrow> bool \<Rightarrow> cam_world \<Rightarrow> cam_world \<times> cam_out list" where
  "viewCamera cameraName isOn w =
     (let (cs, st) = w; req = viewCamera_request cameraName isOn st
      in if req = [] then ((cs, fst (viewCamera_rest cameraName isOn None st)), [])
         else ((cs\<lparr>cam_pending := cam_pending cs @ [isOn]\<rparr>, st), map Eff req))"

definition cam_toggleExpand :: "string \<Rightarrow> cam_world \<Rightarrow> cam_world \<times> cam_out list" where
  "cam_toggleExpand cameraName w =
     (let cs = (fst w)\<lparr>cam_camera := \<not> cam_camera (fst w)\<rparr>
      in viewCamera cameraName (cam_camera cs) (cs, snd w))"

definition renderPCD :: "string \<Rightarrow> cam_out list" where
  "renderPCD cameraName = [Eff (Call (CameraReq (GetPointCloud cameraName ''pointcloud/pcd'')))]"

definition renderPCD_done ::
  "(service_error \<Rightarrow> string) \<Rightarrow> service_error option \<Rightarrow> bytes \<Rightarrow> camera_state \<Rightarrow> camera_state \<times> cam_out list" where
  "renderPCD_done errText error response cs =
     (case error of
        Some e \<Rightarrow> (cs, [Eff (ToastError (''Error getting point cloud: '' @ errText e))])
      | None \<Rightarrow> (cs\<lparr>cam_pointcloud := Some response\<rparr>, []))"

definition cam_togglePCDExpand :: "string \<Rightarrow> camera_state \<Rightarrow> camera_state \<times> cam_out list" where
  "cam_togglePCDExpand cameraName cs =
     (let cs' = cs\<lparr>cam_pcdExpanded := \<not> cam_pcdExpanded cs\<rparr>
      in (cs', if cam_pcdExpanded cs' then renderPCD cameraName else []))"

definition selectCameraView :: "string \<Rightarrow> cam_world \<Rightarrow> cam_world \<times> cam_out list" where
  "selectCameraView cameraName w =
     (if cam_selectedValue (fst w) \<noteq> ''live'' then
        (let (w', os) = viewCamera cameraName False w
         in (w', os @ [EmitSelectedCameraView (cam_selectedValue (fst w))]))
      else
        (let (w', os) = viewCamera cameraName True w in (w', EmitClearInterval # os)))"

definition refreshCamera :: "camera_state \<Rightarrow> cam_out list" where
  "refreshCamera cs = [EmitSelectedCameraView (cam_selectedValue cs), EmitClearInterval]"

definition exportScreenshot :: "string \<Rightarrow> cam_out list" where
  "exportScreenshot cameraName = [Eff (Call (CameraReq (RenderFrame cameraName ''image/jpeg'')))]"

definition exportScreenshot_done :: "service_error option \<Rightarrow> bytes \<Rightarrow> cam_out list" where
  "exportScreenshot_done err data =
     (case err of Some e \<Rightarrow> map Eff (displayError (Some e)) | None \<Rightarrow> [OpenImage data])"

text \<open>The events of the panel: the template's inputs and the settled calls.\<close>

datatype cam_event =
    CamMounted
  | CamToggleExpand
  | CamSelect string                                  \<comment> \<open>v-model, then @input\<close>
  | CamRefresh
  | CamTogglePCD
  | CamExport
  | CamStreamSettled nat "service_error option"       \<comment> \<open>index of the pending \<open>viewCamera\<close>\<close>
  | CamPointCloud "service_error option" bytes
  | CamFrame "service_error option" bytes

fun camera_handle :: "(service_error \<Rightarrow> string) \<Rightarrow> string \<Rightarrow> (cam_world, cam_event, cam_out) handler" where
  "camera_handle et n (cs, st) CamMounted = ((cs, cam_initStreamState n st), [])"
| "camera_handle et n (cs, st) CamToggleExpand = cam_toggleExpand n (cs, st)"
| "camera_handle et n (cs, st) (CamSelect v) = selectCameraView n (cs\<lparr>cam_selectedValue := v\<rparr>, st)"
| "camera_handle et n (cs, st) CamRefresh = ((cs, st), refreshCamera cs)"
| "camera_handle et n (cs, st) CamTogglePCD =
     (let (cs', os) = cam_togglePCDExpand n cs in ((cs', st), os))"
| "camera_handle et n (cs, st) CamExport = ((cs, st), exportScreenshot n)"
| "camera_handle et n (cs, st) (CamStreamSettled i err) =
     (if i < length (cam_pending cs) then
        (let (st', os) = viewCamera_rest n (cam_pending cs ! i) err st
         in ((cs\<lparr>cam_pending := take i (cam_pending cs) @ drop (Suc i) (cam_pending cs)\<rparr>, st'), map Eff os))
      else ((cs, st), []))"
| "camera_handle et n (cs, st) (CamPointCloud err r) =
     (let (cs', os) = renderPCD_done et err r cs in ((cs', st), os))"
| "camera_handle et n (cs, st) (CamFrame err d) = ((cs, st), exportScreenshot_done err d)"

section \<open>audio-input.vue\<close>

datatype audio_event = AudioToggle | AudioSettled "service_error option"

fun audio_handle :: "string \<Rightarrow> (bool, audio_event, effect) handler" where
  "audio_handle name audioInput AudioToggle =
     (let isOn = \<not> audioInput in (isOn, if isOn then addStream name else removeStream name))"
| "audio_handle name audioInput (AudioSettled err) = (audioInput, displayError err)"

section \<open>The streams the robot serves\<close>

text \<open>
  What the requests add up to: a stream is active once added and until removed. This is the
  abstract view the panels' bookkeeping is meant to track.
\<close>

fun serve :: "string set \<Rightarrow> effect list \<Rightarrow> string set" where
  "serve A [] = A"
| "serve A (Call (StreamReq (AddStream n)) # os) = serve (insert n A) os"
| "serve A (Call (StreamReq (RemoveStream n)) # os) = serve (A - {n}) os"
| "serve A (_ # os) = serve A os"

fun effs :: "cam_out list \<Rightarrow> effect list" where
  "effs [] = []"
| "effs (Eff e # os) = e # effs os"
| "effs (_ # os) = effs os"

text \<open>The bookkeeping is right for a set of served streams when exactly the wanted streams are on.\<close>

definition tracks :: "streams \<Rightarrow> string set \<Rightarrow> string \<Rightarrow> bool" where
  "tracks st A n \<longleftrightarrow>
     (n \<in> A \<longleftrightarrow> stream_on (baseStreamStates st) n \<or> stream_on (cameraStreamStates st) n)"

lemma stream_on_update [simp]:
  "stream_on (AList.update k b m) n = (if n = k then b else stream_on m n)"
  by (simp add: stream_on_def AList.update_conv')

lemma serve_append: "serve A (os @ ps) = serve (serve A os) ps"
  by (induction A os rule: serve.induct) auto

lemma effs_append [simp]: "effs (os @ ps) = effs os @ effs ps"
  by (induction os rule: effs.induct) auto

lemma effs_map_Eff [simp]: "effs (map Eff es) = es"
  by (induction es) auto

lemma serve_displayError [simp]: "serve A (displayError e) = A"
  by (cases e) (auto simp: displayError_def)

lemma viewCamera_request_cases:
  "viewCamera_request n isOn st \<in> {[], addStream n, removeStream n}"
  by (simp add: viewCamera_request_def)

lemma effs_viewCamera [simp]:
  "effs (snd (viewCamera n isOn w)) = viewCamera_request n isOn (snd w)"
  by (cases w) (simp add: viewCamera_def Let_def)

lemma AddStream_viewCamera_request:
  "Call (StreamReq (AddStream m)) \<in> set (viewCamera_request n isOn st) \<longleftrightarrow>
     m = n \<and> isOn \<and> \<not> stream_on (baseStreamStates st) n \<and> \<not> stream_on (cameraStreamStates st) n"
  by (auto simp: viewCamera_request_def addStream_def removeStream_def)

lemma RemoveStream_viewCamera_request:
  "Call (StreamReq (RemoveStream m)) \<in> set (viewCamera_request n isOn st) \<longleftrightarrow>
     m = n \<and> \<not> isOn \<and> \<not> stream_on (baseStreamStates st) n \<and> stream_on (cameraStreamStates st) n"
  by (auto simp: viewCamera_request_def addStream_def removeStream_def)

lemma displayError_not_Call [simp]: "Call r \<in> set (displayError e) \<longleftrightarrow> False"
  by simp

lemma effs_selectCameraView [simp]:
  "effs (snd (selectCameraView n w)) =
     viewCamera_request n (cam_selectedValue (fst w) = ''live'') (snd w)"
  using effs_viewCamera [of n True w] effs_viewCamera [of n False w]
  by (auto simp: selectCameraView_def split_def Let_def)

text \<open>Only expanding and selecting send stream requests.\<close>

lemma stream_requests_camera_handle:
  "Call (StreamReq r) \<in> set (effs (snd (camera_handle et n (cs, st) e))) \<Longrightarrow>
     \<exists>isOn. Call (StreamReq r) \<in> set (viewCamera_request n isOn st)"
  by (cases e)
    (auto simp: cam_toggleExpand_def cam_togglePCDExpand_def renderPCD_def refreshCamera_def
      exportScreenshot_def exportScreenshot_done_def viewCamera_rest_def renderPCD_done_def Let_def
      split: if_splits option.splits)

section \<open>Properties\<close>

text \<open>
  Whatever the event and the state, the camera panel asks for a stream only for its own camera
  and only while neither the base panels nor the camera panel has it on, and drops a stream only
  while no base panel has it on and the camera panel does.
\<close>

theorem camera_requests_guarded:
  "(Call (StreamReq (AddStream m)) \<in> set (effs (snd (camera_handle et n (cs, st) e))) \<longrightarrow>
      m = n \<and> \<not> stream_on (baseStreamStates st) n \<and> \<not> stream_on (cameraStreamStates st) n)
   \<and> (Call (StreamReq (RemoveStream m)) \<in> set (effs (snd (camera_handle et n (cs, st) e))) \<longrightarrow>
      m = n \<and> \<not> stream_on (baseStreamStates st) n \<and> stream_on (cameraStreamStates st) n)"
  using stream_requests_camera_handle [of "AddStream m" et n cs st e]
    stream_requests_camera_handle [of "RemoveStream m" et n cs st e]
  by (auto simp: AddStream_viewCamera_request RemoveStream_viewCamera_request)

theorem camera_requests_guarded_witness:
  "Call (StreamReq (AddStream ''c'')) \<in>
     set (effs (snd (camera_handle err_message ''c'' (camera_init, \<lparr>baseStreamStates = [], cameraStreamStates = []\<rparr>)
       CamToggleExpand)))
   \<and> \<not> stream_on (baseStreamStates \<lparr>baseStreamStates = [], cameraStreamStates = []\<rparr>) ''c''"
proof -
  let ?st = "\<lparr>baseStreamStates = [], cameraStreamStates = []\<rparr> :: streams"
  have sent: "Call (StreamReq (AddStream ''c'')) \<in>
      set (effs (snd (camera_handle err_message ''c'' (camera_init, ?st) CamToggleExpand)))"
    by (simp add: cam_toggleExpand_def camera_init_def viewCamera_request_def stream_on_def addStream_def)
  with camera_requests_guarded [of "''c''" err_message "''c''" camera_init ?st CamToggleExpand]
  show ?thesis by blast
qed

text \<open>
  When the request of a \<open>viewCamera\<close> settles before anything else happens, the bookkeeping keeps
  tracking the served streams of every camera, and the camera panel's own flag is the one asked for.
\<close>

theorem viewCamera_tracks:
  assumes "\<And>m. tracks st A m"
  shows "tracks (fst (viewCamera_rest n isOn None st)) (serve A (viewCamera_request n isOn st)) m
         \<and> stream_on (cameraStreamStates (fst (viewCamera_rest n isOn None st))) n = isOn"
  using assms [of m]
  by (auto simp: tracks_def viewCamera_rest_def viewCamera_request_def addStream_def removeStream_def)

theorem viewCamera_tracks_witness:
  "(let st = \<lparr>baseStreamStates = [(''d'', True)], cameraStreamStates = [(''c'', False)]\<rparr>
    in serve {''d''} (viewCamera_request ''c'' True st) = {''c'', ''d''}
       \<and> tracks (fst (viewCamera_rest ''c'' True None st)) {''c'', ''d''} ''c'')"
proof -
  let ?st = "\<lparr>baseStreamStates = [(''d'', True)], cameraStreamStates = [(''c'', False)]\<rparr> :: streams"
  have "tracks ?st {''d''} m" for m by (auto simp: tracks_def stream_on_def)
  moreover have "serve {''d''} (viewCamera_request ''c'' True ?st) = {''c'', ''d''}"
    by (auto simp: viewCamera_request_def stream_on_def addStream_def)
  ultimately show ?thesis using viewCamera_tracks [of ?st "{''d''}" "''c''" True "''c''"] by simp
qed

text \<open>
  No entry of the refresh menu, \<open>Live\<close> included, ever asks for the live stream: the handler
  compares the selection with \<open>'live'\<close>, the menu's entry is \<open>'Live'\<close>, so selecting it drops the
  stream the camera panel has on.
\<close>

definition refresh_options :: "string list" where
  "refresh_options = map (dropWhile (\<lambda>c. c = CHR '' '')) (js_split (CHR '','')
     ''Manual Refresh, Every 30 Seconds, Every 10 Seconds, Every Second, Live'')"

theorem refresh_menu_never_live:
  "list_all (\<lambda>v. effs (snd (camera_handle et n (cs, st) (CamSelect v))) =
      (if \<not> stream_on (baseStreamStates st) n \<and> stream_on (cameraStreamStates st) n
       then removeStream n else [])) refresh_options"
  by (simp add: refresh_options_def viewCamera_request_def)

text \<open>
  Expanding and collapsing the camera before the first request settles leaves the collapsed
  panel with its stream recorded as on, and served: the collapse found the flag still off and sent
  nothing, and the late continuation then set it.
\<close>

theorem camera_toggle_race:
  "let (w, os) = run (camera_handle et n) (camera_init, \<lparr>baseStreamStates = [], cameraStreamStates = []\<rparr>)
         [CamMounted, CamToggleExpand, CamToggleExpand, CamStreamSettled 0 None]
   in \<not> cam_camera (fst w) \<and> stream_on (cameraStreamStates (snd w)) n \<and> serve {} (effs os) = {n}"
  by (simp add: cam_toggleExpand_def camera_init_def viewCamera_def viewCamera_request_def
      cam_initStreamState_def viewCamera_rest_def stream_on_def addStream_def displayError_def Let_def)

text \<open>
  A refused request is recorded as if it had been accepted: whenever \<open>viewCamera\<close> sends a request and the
  robot refuses it, the error is shown and the flag is wrong about the camera afterwards.
\<close>

theorem refused_request_recorded:
  assumes "tracks st A n" "viewCamera_request n isOn st \<noteq> []"
  shows "\<not> tracks (fst (viewCamera_rest n isOn (Some e) st)) A n
         \<and> snd (viewCamera_rest n isOn (Some e) st) = displayError (Some e)"
  using assms by (auto simp: tracks_def viewCamera_rest_def viewCamera_request_def split: if_splits)

theorem refused_request_recorded_witness:
  "\<not> tracks (fst (viewCamera_rest ''c'' True (Some e) \<lparr>baseStreamStates = [], cameraStreamStates = []\<rparr>)) {} ''c''"
  using refused_request_recorded [of "\<lparr>baseStreamStates = [], cameraStreamStates = []\<rparr>" "{}" "''c''" True e]
  by (simp add: tracks_def stream_on_def viewCamera_request_def addStream_def)

end
