(* ===== verification/Keyboard.thy ===== *)
theory Keyboard
  imports Js_Prelude Event_System
begin

text \<open>
  The key pad \<open>components/keyboard-input.vue\<close>: the lit keys, whether the pad is active (and so has
  its listeners on the window), and the \<open>keydown\<close>, \<open>keyup\<close> and \<open>toggle\<close> events it emits to its
  parent. The last section is the contract between the pad and a parent that mirrors its keys.
\<close>

section \<open>State\<close>

datatype key = Kw | Ka | Ks | Kd

lemma UNIV_key: "(UNIV :: key set) = {Kw, Ka, Ks, Kd}"
  using key.exhaust by auto

instance key :: finite
  by standard (simp add: UNIV_key)

datatype kbd_out = EmitKeyDown key | EmitKeyUp key | EmitToggle bool

record kbd =
  pressedKeys :: "key \<Rightarrow> bool"
  isActive :: bool
  kbd_listening :: bool          \<comment> \<open>the keydown and keyup listeners are on the window\<close>

definition kbd_init :: kbd where
  "kbd_init = \<lparr>pressedKeys = (\<lambda>k. False), isActive = False, kbd_listening = False\<rparr>"

definition keysLayout :: "key list list" where
  "keysLayout = [[Kw], [Ka, Ks, Kd]]"

definition key_table :: "(string \<times> key) list" where
  "key_table = [(''w'', Kw), (''a'', Ka), (''s'', Ks), (''d'', Kd), (''arrowup'', Kw),
                (''arrowleft'', Ka), (''arrowdown'', Ks), (''arrowright'', Kd)]"

text \<open>
  The table is a plain object, so the inherited names \<open>constructor\<close> and \<open>__proto__\<close> would be found
  too; no keyboard reports a key of that name.
\<close>

definition normalizeKey :: "string \<Rightarrow> key option" where
  "normalizeKey k = map_of key_table (toLowerCase k)"

section \<open>Operations\<close>

definition toggleKeyboard :: "bool \<Rightarrow> kbd \<Rightarrow> kbd \<times> kbd_out list" where
  "toggleKeyboard nowActive s =
     (s\<lparr>kbd_listening := nowActive, isActive := nowActive\<rparr>, [EmitToggle nowActive])"

definition emitKeyDown :: "key \<Rightarrow> kbd \<Rightarrow> kbd \<times> kbd_out list" where
  "emitKeyDown k s =
     (let (s', os) = (if \<not> isActive s then toggleKeyboard True s else (s, []))
      in (s'\<lparr>pressedKeys := (pressedKeys s')(k := True)\<rparr>, os @ [EmitKeyDown k]))"

definition emitKeyUp :: "key \<Rightarrow> kbd \<Rightarrow> kbd \<times> kbd_out list" where
  "emitKeyUp k s = (s\<lparr>pressedKeys := (pressedKeys s)(k := False)\<rparr>, [EmitKeyUp k])"

definition kbd_handleKeyDown :: "string \<Rightarrow> kbd \<Rightarrow> kbd \<times> kbd_out list" where
  "kbd_handleKeyDown evkey s =
     (case normalizeKey evkey of
        None \<Rightarrow> (s, [])
      | Some k \<Rightarrow> if pressedKeys s k then (s, []) else emitKeyDown k s)"

definition kbd_handleKeyUp :: "string \<Rightarrow> kbd \<Rightarrow> kbd \<times> kbd_out list" where
  "kbd_handleKeyUp evkey s =
     (case normalizeKey evkey of None \<Rightarrow> (s, []) | Some k \<Rightarrow> emitKeyUp k s)"

definition handlePointerDown :: "key \<Rightarrow> kbd \<Rightarrow> kbd \<times> kbd_out list" where
  "handlePointerDown k s = emitKeyDown k s"

definition handlePointerUp :: "key \<Rightarrow> kbd \<Rightarrow> kbd \<times> kbd_out list" where
  "handlePointerUp k s = emitKeyUp k s"

text \<open>
  The events: keys of the window (heard only through the listeners), the pointer on a key's button,
  the switch, a click outside of the pad, and unmounting.
\<close>

datatype kbd_event =
    WinKeyDown string
  | WinKeyUp string
  | PointerDown key
  | PointerUp key
  | PointerLeave key
  | KbdSwitch bool
  | ClickOutside
  | KbdUnmounted

fun kbd_handle :: "(kbd, kbd_event, kbd_out) handler" where
  "kbd_handle s (WinKeyDown k) = (if kbd_listening s then kbd_handleKeyDown k s else (s, []))"
| "kbd_handle s (WinKeyUp k) = (if kbd_listening s then kbd_handleKeyUp k s else (s, []))"
| "kbd_handle s (PointerDown k) = handlePointerDown k s"
| "kbd_handle s (PointerUp k) = handlePointerUp k s"
| "kbd_handle s (PointerLeave k) = handlePointerUp k s"
| "kbd_handle s (KbdSwitch b) = toggleKeyboard b s"
| "kbd_handle s ClickOutside = toggleKeyboard False s"
| "kbd_handle s KbdUnmounted = toggleKeyboard False s"

section \<open>Lemmas\<close>

lemmas kbd_defs = toggleKeyboard_def emitKeyDown_def emitKeyUp_def kbd_handleKeyDown_def
  kbd_handleKeyUp_def handlePointerDown_def handlePointerUp_def

text \<open>What a list of emitted events says about which keys are down.\<close>

fun heard :: "(key \<Rightarrow> bool) \<Rightarrow> kbd_out list \<Rightarrow> key \<Rightarrow> bool" where
  "heard d [] = d"
| "heard d (EmitKeyDown k # os) = heard (d(k := True)) os"
| "heard d (EmitKeyUp k # os) = heard (d(k := False)) os"
| "heard d (EmitToggle b # os) = heard d os"

lemma heard_Cons: "heard d (x # os) = heard (heard d [x]) os"
  by (cases x) simp_all

lemma heard_append: "heard d (os @ ps) = heard (heard d os) ps"
proof (induction os arbitrary: d)
  case (Cons x os)
  then show ?case using heard_Cons [of d x "os @ ps"] heard_Cons [of d x os] by simp
qed simp

lemma kbd_handle_heard: "pressedKeys (fst (kbd_handle s e)) = heard (pressedKeys s) (snd (kbd_handle s e))"
  by (cases e) (auto simp: kbd_defs Let_def split: option.splits)

lemma kbd_handle_listening:
  "kbd_listening s = isActive s \<Longrightarrow> kbd_listening (fst (kbd_handle s e)) = isActive (fst (kbd_handle s e))"
  by (cases e) (auto simp: kbd_defs Let_def split: option.splits)

interpretation listening: invariant_system kbd_handle "\<lambda>s. kbd_listening s = isActive s"
  by unfold_locales (rule kbd_handle_listening)

text \<open>A press is emitted for a lit key only by a second pointer press.\<close>

lemma kbd_no_repeat:
  "EmitKeyDown k \<in> set (snd (kbd_handle s e)) \<Longrightarrow> e = PointerDown k \<or> \<not> pressedKeys s k"
  by (cases e) (auto simp: kbd_defs Let_def split: option.splits if_splits)

lemma kbd_silent_when_inactive:
  "\<not> kbd_listening s \<Longrightarrow> kbd_handle s (WinKeyDown k) = (s, []) \<and> kbd_handle s (WinKeyUp k) = (s, [])"
  by simp

lemma normalizeKey_names:
  "normalizeKey ''w'' = Some Kw" "normalizeKey ''W'' = Some Kw" "normalizeKey ''ArrowUp'' = Some Kw"
  "normalizeKey ''a'' = Some Ka" "normalizeKey ''A'' = Some Ka" "normalizeKey ''ArrowLeft'' = Some Ka"
  "normalizeKey ''s'' = Some Ks" "normalizeKey ''S'' = Some Ks" "normalizeKey ''ArrowDown'' = Some Ks"
  "normalizeKey ''d'' = Some Kd" "normalizeKey ''D'' = Some Kd" "normalizeKey ''ArrowRight'' = Some Kd"
  by code_simp+

section \<open>The parent of a key pad\<close>

text \<open>
  A parent receives every emitted event, in order. \<open>feed\<close> passes them on; the locale says that the
  parent mirrors the pad: a key it holds down is one the pad has reported down since.
\<close>

fun feed :: "('s \<Rightarrow> kbd_out \<Rightarrow> 's \<times> 'o list) \<Rightarrow> 's \<Rightarrow> kbd_out list \<Rightarrow> 's \<times> 'o list" where
  "feed sink s [] = (s, [])"
| "feed sink s (x # xs) = (let (t, os) = sink s x; (u, ps) = feed sink t xs in (u, os @ ps))"

locale key_sink =
  fixes sink :: "'s \<Rightarrow> kbd_out \<Rightarrow> 's \<times> 'o list" and held :: "'s \<Rightarrow> key set"
  assumes sink_down: "held (fst (sink s (EmitKeyDown k))) = insert k (held s)"
    and sink_up: "held (fst (sink s (EmitKeyUp k))) = held s - {k}"
    and sink_toggle: "held (fst (sink s (EmitToggle b))) = held s"
begin

lemma feed_held: "held s \<subseteq> Collect d \<Longrightarrow> held (fst (feed sink s xs)) \<subseteq> Collect (heard d xs)"
proof (induction xs arbitrary: s d)
  case (Cons x xs)
  have "held (fst (sink s x)) \<subseteq> Collect (heard d [x])"
    using Cons.prems by (cases x) (auto simp: sink_down sink_up sink_toggle)
  then have "held (fst (feed sink (fst (sink s x)) xs)) \<subseteq> Collect (heard (heard d [x]) xs)"
    by (rule Cons.IH)
  then show ?case using heard_append [of d "[x]" xs] by (simp add: split_def Let_def)
qed simp

lemma feed_kbd:
  "held s \<subseteq> Collect (pressedKeys p) \<Longrightarrow>
   held (fst (feed sink s (snd (kbd_handle p e)))) \<subseteq> Collect (pressedKeys (fst (kbd_handle p e)))"
  using feed_held [of s "pressedKeys p" "snd (kbd_handle p e)"] by (simp add: kbd_handle_heard)

end

section \<open>Properties\<close>

text \<open>
  C39. After any sequence of events from a fresh pad, the lit keys are exactly those whose last
  emitted event is a press: the parent that follows the emitted events knows the pad's keys. The
  window listeners are installed exactly while the pad is active.
\<close>

theorem keyboard_emits_its_keys:
  "pressedKeys (final kbd_handle kbd_init es) = heard (\<lambda>k. False) (outputs kbd_handle kbd_init es)
   \<and> kbd_listening (final kbd_handle kbd_init es) = isActive (final kbd_handle kbd_init es)"
proof -
  have "pressedKeys (final kbd_handle s es) = heard (pressedKeys s) (outputs kbd_handle s es)" for s
  proof (induction es arbitrary: s)
    case (Cons e es)
    then show ?case by (simp add: split_def Let_def heard_append kbd_handle_heard)
  qed simp
  from this [of kbd_init] show ?thesis
    using listening.run_inv [of kbd_init es] by (simp add: kbd_init_def)
qed

text \<open>
  The accepted keys: letters and arrows in either case name the same four directions, every
  other key is ignored, and a held key that auto-repeats emits nothing.
\<close>

theorem keyboard_key_names:
  "map normalizeKey [''w'', ''W'', ''ArrowUp''] = [Some Kw, Some Kw, Some Kw]
   \<and> map normalizeKey [''a'', ''A'', ''ArrowLeft''] = [Some Ka, Some Ka, Some Ka]
   \<and> map normalizeKey [''s'', ''S'', ''ArrowDown''] = [Some Ks, Some Ks, Some Ks]
   \<and> map normalizeKey [''d'', ''D'', ''ArrowRight''] = [Some Kd, Some Kd, Some Kd]
   \<and> (normalizeKey n \<noteq> None \<longleftrightarrow> toLowerCase n \<in> fst ` set key_table)
   \<and> kbd_handle (fst (kbd_handle s (WinKeyDown n))) (WinKeyDown n) = (fst (kbd_handle s (WinKeyDown n)), [])"
proof -
  have "(normalizeKey n \<noteq> None) = (toLowerCase n \<in> fst ` set key_table)"
    by (simp add: normalizeKey_def map_of_eq_None_iff)
  moreover have "kbd_handle (fst (kbd_handle s (WinKeyDown n))) (WinKeyDown n) =
      (fst (kbd_handle s (WinKeyDown n)), [])"
    by (auto simp: kbd_defs Let_def split: option.splits)
  ultimately show ?thesis by (simp add: normalizeKey_names)
qed

end
