(* ===== verification/Base.thy ===== *)
theory Base
  imports Streams Keyboard
begin

text \<open>
  The base panel \<open>components/base.vue\<close> with the key pad inside it: the keys it holds, the power,
  velocity, move and spin commands it sends, and the camera previews it switches on the shared
  stream state. The pad exists only on the \<open>Keyboard\<close> tab: leaving the tab unmounts it, returning
  mounts a fresh one. Numbers typed into the panel are the numbers its inputs deliver.
\<close>

section \<open>State\<close>

datatype tabs = TabKeyboard | TabDiscrete
datatype movement_type = Continuous | DiscreteMove
datatype movement_mode = ModeStraight | ModeSpin
datatype spin_type = Clockwise | Counterclockwise
datatype directions = Forwards | Backwards

record base_state =
  selectedItem :: tabs
  movementMode :: movement_mode
  movementType :: movement_type
  direction :: directions
  spinType :: spin_type
  increment :: jsnum
  speed :: jsnum
  spinSpeed :: jsnum
  angle :: jsnum
  selectCameras :: string
  pressed :: "key list"
  stopped :: bool
  base_listening :: bool         \<comment> \<open>the visibilitychange listener is on the window\<close>

definition base_init :: base_state where
  "base_init = \<lparr>selectedItem = TabKeyboard, movementMode = ModeStraight, movementType = Continuous,
     direction = Forwards, spinType = Clockwise, increment = Fin 1000, speed = Fin 200,
     spinSpeed = Fin 90, angle = Fin 0, selectCameras = [], pressed = [], stopped = True,
     base_listening = False\<rparr>"

record base_props =
  bp_name :: string
  bp_resources :: "resource_name list"
  bp_rcDebug :: bool

section \<open>Operations\<close>

definition base_initStreamState :: "base_props \<Rightarrow> streams \<Rightarrow> streams" where
  "base_initStreamState props st =
     st\<lparr>baseStreamStates :=
          fold (\<lambda>v m. AList.update (rn_name v) False m)
            (filterResources (bp_resources props) ''rdk'' ''component'' ''camera'') (baseStreamStates st)\<rparr>"

definition resetDiscreteState :: "base_state \<Rightarrow> base_state" where
  "resetDiscreteState s =
     s\<lparr>movementMode := ModeStraight, movementType := Continuous, direction := Forwards,
        spinType := Clockwise\<rparr>"

definition base_stop :: "base_props \<Rightarrow> base_state \<Rightarrow> base_state \<times> effect list" where
  "base_stop props s = (s\<lparr>stopped := True\<rparr>, [Call (BaseReq (BaseStop (bp_name props)))])"

text \<open>\<open>rcLogConditionally(req)\<close> and then the call.\<close>

definition base_send :: "base_props \<Rightarrow> base_req \<Rightarrow> effect list" where
  "base_send props r = rcLogConditionally (bp_rcDebug props) (BaseReq r) @ [Call (BaseReq r)]"

fun digest_key :: "key \<Rightarrow> jsnum \<times> jsnum \<Rightarrow> jsnum \<times> jsnum" where
  "digest_key Kw (l, a) = (num_add l (Fin 1), a)"
| "digest_key Ks (l, a) = (num_sub l (Fin 1), a)"
| "digest_key Ka (l, a) = (l, num_add a (Fin 1))"
| "digest_key Kd (l, a) = (l, num_sub a (Fin 1))"

definition digestInput :: "base_props \<Rightarrow> base_state \<Rightarrow> effect list" where
  "digestInput props s =
     (let (linearValue, angularValue) = fold digest_key (pressed s) (Fin 0, Fin 0)
      in base_send props (SetPower (bp_name props) (new_Vector3\<lparr>v_y := linearValue\<rparr>)
           (new_Vector3\<lparr>v_z := angularValue\<rparr>)))"

text \<open>The callback of \<open>setPower\<close>.\<close>

definition digestInput_done :: "base_props \<Rightarrow> service_error option \<Rightarrow> base_state \<Rightarrow> base_state \<times> effect list" where
  "digestInput_done props error s =
     (if length (pressed s) \<le> 0 then
        (let (s', os) = base_stop props s in (s', displayError error @ os))
      else (s, displayError error))"

definition base_handleKeyDown :: "base_props \<Rightarrow> key \<Rightarrow> base_state \<Rightarrow> base_state \<times> effect list" where
  "base_handleKeyDown props k s =
     (let s' = s\<lparr>pressed := set_add k (pressed s)\<rparr> in (s', digestInput props s'))"

definition base_handleKeyUp :: "base_props \<Rightarrow> key \<Rightarrow> base_state \<Rightarrow> base_state \<times> effect list" where
  "base_handleKeyUp props k s =
     (let s' = s\<lparr>pressed := set_delete k (pressed s)\<rparr>
      in if length (pressed s') > 0
         then (let s'' = s'\<lparr>stopped := False\<rparr> in (s'', digestInput props s''))
         else base_stop props s')"

definition base_onToggle :: "base_props \<Rightarrow> bool \<Rightarrow> base_state \<Rightarrow> base_state \<times> effect list" where
  "base_onToggle props active s =
     (if \<not> active \<and> (length (pressed s) > 0 \<or> \<not> stopped s) then base_stop props s else (s, []))"

fun base_sink :: "base_props \<Rightarrow> base_state \<Rightarrow> kbd_out \<Rightarrow> base_state \<times> effect list" where
  "base_sink props s (EmitKeyDown k) = base_handleKeyDown props k s"
| "base_sink props s (EmitKeyUp k) = base_handleKeyUp props k s"
| "base_sink props s (EmitToggle b) = base_onToggle props b s"

definition handleBaseStraight ::
  "base_props \<Rightarrow> string \<Rightarrow> movement_type \<Rightarrow> jsnum \<Rightarrow> jsnum \<Rightarrow> jsnum \<Rightarrow> effect list" where
  "handleBaseStraight props name mtype dir spd distance =
     (if mtype = Continuous then
        base_send props (SetVelocity name (new_Vector3\<lparr>v_y := num_mul spd dir\<rparr>) new_Vector3)
      else base_send props (MoveStraight name (num_mul spd dir) distance))"

definition baseRun :: "base_props \<Rightarrow> base_state \<Rightarrow> effect list" where
  "baseRun props s =
     (case movementMode s of
        ModeSpin \<Rightarrow>
          base_send props (Spin (bp_name props)
            (num_mul (angle s) (if spinType s = Clockwise then Fin (- 1) else Fin 1)) (spinSpeed s))
      | ModeStraight \<Rightarrow>
          handleBaseStraight props (bp_name props) (movementType s)
            (if direction s = Forwards then Fin 1 else Fin (- 1)) (speed s) (increment s))"

text \<open>
  \<open>viewPreviewCamera\<close> walks the map and rewrites the entry it is at. The promises of the stream
  requests are not awaited, so the \<open>catch\<close> never sees a rejection.
\<close>

definition preview_step ::
  "string \<Rightarrow> string \<times> bool \<Rightarrow> streams \<times> effect list \<Rightarrow> streams \<times> effect list" where
  "preview_step name kv acc =
     (let (key, val) = kv; (st, os) = acc
      in if js_includes name key \<and> val = False then
           (st\<lparr>baseStreamStates := AList.update key True (baseStreamStates st)\<rparr>,
            os @ (if \<not> stream_on (cameraStreamStates st) name then addStream key else []))
         else if \<not> js_includes name key \<and> val = True then
           (st\<lparr>baseStreamStates := AList.update key False (baseStreamStates st)\<rparr>,
            os @ (if \<not> stream_on (cameraStreamStates st) name then removeStream key else []))
         else (st, os))"

definition viewPreviewCamera :: "string \<Rightarrow> streams \<Rightarrow> streams \<times> effect list" where
  "viewPreviewCamera name st = fold (preview_step name) (baseStreamStates st) (st, [])"

definition handleTabSelect :: "tabs \<Rightarrow> base_state \<times> streams \<Rightarrow> (base_state \<times> streams) \<times> effect list" where
  "handleTabSelect tab w =
     (let (s, st) = w;
          s1 = s\<lparr>selectedItem := tab, selectCameras := []\<rparr>;
          (st', os) = viewPreviewCamera (selectCameras s1) st
      in ((if tab = TabDiscrete then resetDiscreteState s1 else s1, st'), os))"

definition handleVisibilityChange :: "base_props \<Rightarrow> bool \<Rightarrow> base_state \<Rightarrow> base_state \<times> effect list" where
  "handleVisibilityChange props hidden s =
     (if hidden then base_stop props (s\<lparr>pressed := []\<rparr>) else (s, []))"

section \<open>The inputs of the \<open>Discrete\<close> tab\<close>

definition base_setMovementMode :: "movement_mode \<Rightarrow> base_state \<Rightarrow> base_state" where
  [simp]: "base_setMovementMode mode s = s\<lparr>movementMode := mode\<rparr>"

definition base_setMovementType :: "movement_type \<Rightarrow> base_state \<Rightarrow> base_state" where
  [simp]: "base_setMovementType type s = s\<lparr>movementType := type\<rparr>"

definition base_setSpinType :: "spin_type \<Rightarrow> base_state \<Rightarrow> base_state" where
  [simp]: "base_setSpinType type s = s\<lparr>spinType := type\<rparr>"

definition base_setDirection :: "directions \<Rightarrow> base_state \<Rightarrow> base_state" where
  [simp]: "base_setDirection dir s = s\<lparr>direction := dir\<rparr>"

section \<open>The panel\<close>

datatype base_event =
    BaseMounted
  | BaseUnmounted
  | StopClick
  | TabSelect tabs
  | Pad kbd_event                            \<comment> \<open>an event of the key pad\<close>
  | SelectPreview string
  | SetMovementMode movement_mode
  | SetMovementType movement_type
  | SetSpinType spin_type
  | SetDirection directions
  | SetSpeed jsnum
  | SetIncrement jsnum
  | SetSpinSpeed jsnum
  | SetAngle jsnum
  | RunClick
  | VisibilityChange bool                    \<comment> \<open>whether the document is hidden\<close>
  | PowerSettled "service_error option"
  | CommandSettled "service_error option"

record base_world =
  bw_base :: base_state
  bw_pad :: kbd
  bw_streams :: streams

definition on_base :: "(base_state \<Rightarrow> base_state \<times> effect list) \<Rightarrow> base_world \<Rightarrow> base_world \<times> effect list" where
  "on_base f w = (let (s, os) = f (bw_base w) in (w\<lparr>bw_base := s\<rparr>, os))"

text \<open>An event of the pad, whose emitted events the panel handles in order.\<close>

definition pad_event :: "base_props \<Rightarrow> kbd_event \<Rightarrow> base_world \<Rightarrow> base_world \<times> effect list" where
  "pad_event props e w =
     (let (p, xs) = kbd_handle (bw_pad w) e; (s, os) = feed (base_sink props) (bw_base w) xs
      in (w\<lparr>bw_pad := p, bw_base := s\<rparr>, os))"

text \<open>The pad goes away with the \<open>Keyboard\<close> tab; the next one starts afresh.\<close>

definition pad_unmount :: "base_props \<Rightarrow> base_world \<Rightarrow> base_world \<times> effect list" where
  "pad_unmount props w = (let (w', os) = pad_event props KbdUnmounted w in (w'\<lparr>bw_pad := kbd_init\<rparr>, os))"

fun base_handle :: "base_props \<Rightarrow> (base_world, base_event, effect) handler" where
  "base_handle props w BaseMounted =
     (w\<lparr>bw_streams := base_initStreamState props (bw_streams w),
        bw_base := (bw_base w)\<lparr>base_listening := True\<rparr>\<rparr>, [])"
| "base_handle props w BaseUnmounted =
     (let (w1, os) = (if selectedItem (bw_base w) = TabKeyboard then pad_unmount props w else (w, []));
          (w2, ps) = on_base (base_stop props) w1
      in (w2\<lparr>bw_base := (bw_base w2)\<lparr>base_listening := False\<rparr>\<rparr>, os @ ps))"
| "base_handle props w StopClick = on_base (base_stop props) w"
| "base_handle props w (TabSelect tab) =
     (let ((s, st), os) = handleTabSelect tab (bw_base w, bw_streams w);
          w1 = w\<lparr>bw_base := s, bw_streams := st\<rparr>;
          (w2, ps) = (if selectedItem (bw_base w) = TabKeyboard \<and> tab \<noteq> TabKeyboard
                      then pad_unmount props w1 else (w1, []))
      in (w2, os @ ps))"
| "base_handle props w (Pad e) =
     (if selectedItem (bw_base w) = TabKeyboard then pad_event props e w else (w, []))"
| "base_handle props w (SelectPreview v) =
     (let (st, os) = viewPreviewCamera v (bw_streams w)
      in (w\<lparr>bw_base := (bw_base w)\<lparr>selectCameras := v\<rparr>, bw_streams := st\<rparr>, os))"
| "base_handle props w (SetMovementMode m) = (w\<lparr>bw_base := base_setMovementMode m (bw_base w)\<rparr>, [])"
| "base_handle props w (SetMovementType t) = (w\<lparr>bw_base := base_setMovementType t (bw_base w)\<rparr>, [])"
| "base_handle props w (SetSpinType t) = (w\<lparr>bw_base := base_setSpinType t (bw_base w)\<rparr>, [])"
| "base_handle props w (SetDirection d) = (w\<lparr>bw_base := base_setDirection d (bw_base w)\<rparr>, [])"
| "base_handle props w (SetSpeed v) = (w\<lparr>bw_base := (bw_base w)\<lparr>speed := v\<rparr>\<rparr>, [])"
| "base_handle props w (SetIncrement v) = (w\<lparr>bw_base := (bw_base w)\<lparr>increment := v\<rparr>\<rparr>, [])"
| "base_handle props w (SetSpinSpeed v) = (w\<lparr>bw_base := (bw_base w)\<lparr>spinSpeed := v\<rparr>\<rparr>, [])"
| "base_handle props w (SetAngle v) = (w\<lparr>bw_base := (bw_base w)\<lparr>angle := v\<rparr>\<rparr>, [])"
| "base_handle props w RunClick = (w, baseRun props (bw_base w))"
| "base_handle props w (VisibilityChange hidden) =
     (if base_listening (bw_base w) then on_base (handleVisibilityChange props hidden) w else (w, []))"
| "base_handle props w (PowerSettled err) = on_base (digestInput_done props err) w"
| "base_handle props w (CommandSettled err) = (w, displayError err)"

section \<open>The motion command in force\<close>

fun last_motion :: "effect list \<Rightarrow> base_req option" where
  "last_motion [] = None"
| "last_motion (e # os) =
     (case last_motion os of
        Some r \<Rightarrow> Some r
      | None \<Rightarrow> (case e of Call (BaseReq r) \<Rightarrow> Some r | _ \<Rightarrow> None))"

definition axis :: "key \<Rightarrow> key \<Rightarrow> key set \<Rightarrow> int" where
  "axis pos neg ks = of_bool (pos \<in> ks) - of_bool (neg \<in> ks)"

text \<open>The power that a set of held keys stands for.\<close>

definition power_for :: "string \<Rightarrow> key set \<Rightarrow> base_req" where
  "power_for n ks = SetPower n (new_Vector3\<lparr>v_y := num_int (axis Kw Ks ks)\<rparr>)
                               (new_Vector3\<lparr>v_z := num_int (axis Ka Kd ks)\<rparr>)"

text \<open>
  The base is idle (no command yet, or stopped), or it runs at exactly the power of the keys the
  panel holds, of which there is one.
\<close>

definition idle :: "string \<Rightarrow> effect list \<Rightarrow> bool" where
  "idle n os \<longleftrightarrow> last_motion os = None \<or> last_motion os = Some (BaseStop n)"

definition driven :: "base_props \<Rightarrow> base_state \<Rightarrow> effect list \<Rightarrow> bool" where
  "driven props s os \<longleftrightarrow> distinct (pressed s) \<and>
     (idle (bp_name props) os \<or>
      pressed s \<noteq> [] \<and> last_motion os = Some (power_for (bp_name props) (set (pressed s))))"

lemma last_motion_append:
  "last_motion (os @ ps) = (case last_motion ps of None \<Rightarrow> last_motion os | Some r \<Rightarrow> Some r)"
  by (induction os) (auto split: option.splits)

lemma last_motion_displayError [simp]: "last_motion (displayError e) = None"
  by (cases e) (auto simp: displayError_def)

lemma last_motion_rcLog [simp]: "last_motion (rcLogConditionally d r) = None"
  by (simp add: rcLogConditionally_def)

lemma last_motion_send [simp]: "last_motion (base_send props r) = Some r"
  by (simp add: base_send_def last_motion_append)

lemma digest_fold:
  "distinct ks \<Longrightarrow> \<bar>l\<bar> + int (length ks) \<le> 2 ^ 53 \<Longrightarrow> \<bar>a\<bar> + int (length ks) \<le> 2 ^ 53 \<Longrightarrow>
   fold digest_key ks (num_int l, num_int a) =
     (num_int (l + axis Kw Ks (set ks)), num_int (a + axis Ka Kd (set ks)))"
proof (induction ks arbitrary: l a)
  case (Cons k ks)
  have step: "digest_key k (num_int l, num_int a) =
      (num_int (l + axis Kw Ks {k}), num_int (a + axis Ka Kd {k}))"
    using Cons.prems num_add_int [of l 1] num_add_int [of l "- 1"] num_add_int [of a 1] num_add_int [of a "- 1"]
    by (cases k) (auto simp: num_sub_def axis_def)
  have "\<bar>l + axis Kw Ks {k}\<bar> \<le> \<bar>l\<bar> + 1" "\<bar>a + axis Ka Kd {k}\<bar> \<le> \<bar>a\<bar> + 1"
    by (auto simp: axis_def)
  then have "fold digest_key ks (digest_key k (num_int l, num_int a)) =
      (num_int (l + axis Kw Ks {k} + axis Kw Ks (set ks)), num_int (a + axis Ka Kd {k} + axis Ka Kd (set ks)))"
    unfolding step using Cons.prems by (intro Cons.IH) auto
  moreover have "axis p n {k} + axis p n (set ks) = axis p n (set (k # ks))" for p n
    using Cons.prems by (auto simp: axis_def)
  ultimately show ?case by (simp add: add.assoc)
qed (simp add: axis_def)

lemma keys_bounded:
  assumes "distinct (ks :: key list)"
  shows "length ks \<le> 4"
proof -
  have "card (set ks) \<le> card (UNIV :: key set)" by (rule card_mono) simp_all
  also have "\<dots> = 4" by (simp add: UNIV_key)
  finally show ?thesis using assms by (simp add: distinct_card)
qed

lemma digestInput_eq:
  assumes "distinct (pressed s)"
  shows "digestInput props s = base_send props (power_for (bp_name props) (set (pressed s)))"
  using digest_fold [OF assms, of 0 0] keys_bounded [OF assms] by (simp add: digestInput_def power_for_def)

lemmas base_ops = base_stop_def base_handleKeyDown_def base_handleKeyUp_def base_onToggle_def
  digestInput_done_def handleVisibilityChange_def

lemma stop_driven: "distinct (pressed s) \<Longrightarrow> driven props (fst (base_stop props s)) (os @ snd (base_stop props s))"
  by (simp add: driven_def idle_def base_stop_def last_motion_append)

lemma sink_driven: "driven props s os \<Longrightarrow> driven props (fst (base_sink props s x)) (os @ snd (base_sink props s x))"
  by (cases x)
    (auto simp: driven_def idle_def base_ops digestInput_eq last_motion_append Let_def set_add_def)

lemma feed_driven:
  "driven props s os \<Longrightarrow>
   driven props (fst (feed (base_sink props) s xs)) (os @ snd (feed (base_sink props) s xs))"
proof (induction xs arbitrary: s os)
  case (Cons x xs)
  from Cons.IH [OF sink_driven [OF Cons.prems, of x]] show ?case by (simp add: split_def Let_def)
qed simp

lemma done_driven: "driven props s os \<Longrightarrow>
  driven props (fst (digestInput_done props e s)) (os @ snd (digestInput_done props e s))"
  by (auto simp: driven_def idle_def base_ops last_motion_append)

lemma visibility_driven: "driven props s os \<Longrightarrow>
  driven props (fst (handleVisibilityChange props b s)) (os @ snd (handleVisibilityChange props b s))"
  by (auto simp: driven_def idle_def base_ops last_motion_append)

text \<open>Only the held keys and the commands sent matter.\<close>

lemma driven_cong:
  "driven props s os \<Longrightarrow> pressed t = pressed s \<Longrightarrow> last_motion ps = None \<Longrightarrow> driven props t (os @ ps)"
  by (auto simp: driven_def idle_def last_motion_append)

lemma driven_distinct: "driven props s os \<Longrightarrow> distinct (pressed s)"
  by (simp add: driven_def)

interpretation mirror: key_sink "base_sink props" "\<lambda>s. set (pressed s)" for props
  by unfold_locales (auto simp: base_ops Let_def set_delete_def filter_empty_conv)

text \<open>Pads and tabs.\<close>

lemma pad_event_driven:
  "driven props (bw_base w) os \<Longrightarrow>
   driven props (bw_base (fst (pad_event props e w))) (os @ snd (pad_event props e w))"
  using feed_driven [of props "bw_base w" os "snd (kbd_handle (bw_pad w) e)"]
  by (simp add: pad_event_def split_def Let_def)

lemma pad_unmount_driven:
  "driven props (bw_base w) os \<Longrightarrow>
   driven props (bw_base (fst (pad_unmount props w))) (os @ snd (pad_unmount props w))"
  using pad_event_driven [of props w os KbdUnmounted] by (simp add: pad_unmount_def split_def Let_def)

lemma on_base_simps [simp]:
  "bw_base (fst (on_base f w)) = fst (f (bw_base w))" "snd (on_base f w) = snd (f (bw_base w))"
  "bw_pad (fst (on_base f w)) = bw_pad w"
  by (simp_all add: on_base_def split_def Let_def)

lemma last_motion_preview: "last_motion (snd (viewPreviewCamera name st)) = None"
proof -
  have "last_motion os = None \<Longrightarrow> last_motion (snd (fold (preview_step name) kvs (st, os))) = None" for kvs st os
    by (induction kvs arbitrary: st os)
      (auto simp: preview_step_def split_def Let_def last_motion_append addStream_def removeStream_def)
  from this [of "[]"] show ?thesis by (simp add: viewPreviewCamera_def)
qed

lemma tab_driven:
  assumes "driven props (bw_base w) os"
  shows "driven props (bw_base (fst (base_handle props w (TabSelect tab))))
    (os @ snd (base_handle props w (TabSelect tab)))"
proof -
  define st where "st = fst (viewPreviewCamera [] (bw_streams w))"
  define ps where "ps = snd (viewPreviewCamera [] (bw_streams w))"
  define s where "s = fst (fst (handleTabSelect tab (bw_base w, bw_streams w)))"
  define w1 where "w1 = w\<lparr>bw_base := s, bw_streams := st\<rparr>"
  have "last_motion ps = None" by (simp add: ps_def last_motion_preview)
  moreover have "pressed s = pressed (bw_base w)"
    by (simp add: s_def handleTabSelect_def split_def Let_def resetDiscreteState_def)
  ultimately have d: "driven props (bw_base w1) (os @ ps)"
    using assms by (auto simp: w1_def intro: driven_cong)
  have h: "handleTabSelect tab (bw_base w, bw_streams w) = ((s, st), ps)"
    by (simp add: s_def st_def ps_def handleTabSelect_def split_def Let_def)
  show ?thesis
    using d pad_unmount_driven [OF d] by (simp add: h split_def Let_def flip: w1_def)
qed

lemma base_handle_driven:
  assumes "driven props (bw_base w) os" "e \<noteq> RunClick"
  shows "driven props (bw_base (fst (base_handle props w e))) (os @ snd (base_handle props w e))"
proof (cases e)
  case BaseUnmounted
  show ?thesis
    using assms(1) pad_unmount_driven [OF assms(1)]
      driven_cong [OF stop_driven [of "bw_base w" props os], of _ "[]"]
      driven_cong [OF stop_driven [of "bw_base (fst (pad_unmount props w))" props "os @ snd (pad_unmount props w)"], of _ "[]"]
    by (auto simp: BaseUnmounted split_def Let_def driven_distinct)
next
  case (TabSelect tab)
  then show ?thesis using tab_driven [OF assms(1)] by simp
next
  case (SelectPreview v)
  then show ?thesis using assms(1)
    by (auto simp: split_def Let_def last_motion_preview intro: driven_cong)
next
  case (Pad k)
  then show ?thesis using assms(1) pad_event_driven by simp
next
  case (VisibilityChange b)
  then show ?thesis using assms(1) visibility_driven by simp
next
  case (PowerSettled e)
  then show ?thesis using assms(1) done_driven by simp
qed (use assms driven_cong [OF assms(1), of _ "[]"] in
      \<open>auto intro: driven_cong [OF assms(1)] stop_driven driven_distinct\<close>)

interpretation drive: history_system "base_handle props" "\<lambda>w. pressed (bw_base w) = []"
    "\<lambda>e. e \<noteq> RunClick" "\<lambda>w os. driven props (bw_base w) os" for props
proof unfold_locales
  fix w :: base_world
  assume "pressed (bw_base w) = []"
  then show "driven props (bw_base w) []" by (simp add: driven_def idle_def)
qed (rule base_handle_driven)

text \<open>While the pad stays mounted, the panel holds no key that the pad does not show.\<close>

definition mirrored :: "base_world \<Rightarrow> bool" where
  "mirrored w \<longleftrightarrow> set (pressed (bw_base w)) \<subseteq> Collect (pressedKeys (bw_pad w))"

fun stays_on_tab :: "base_event \<Rightarrow> bool" where
  "stays_on_tab (TabSelect t) = False"
| "stays_on_tab BaseUnmounted = False"
| "stays_on_tab _ = True"

lemma pad_event_mirrored: "mirrored w \<Longrightarrow> mirrored (fst (pad_event props e w))"
  using mirror.feed_kbd [of "bw_base w" "bw_pad w" props e]
  by (simp add: mirrored_def pad_event_def split_def Let_def)

lemma base_handle_mirrored:
  "mirrored w \<Longrightarrow> stays_on_tab e \<Longrightarrow> mirrored (fst (base_handle props w e))"
  by (cases e) (auto simp: mirrored_def base_ops split_def Let_def
      dest: pad_event_mirrored [unfolded mirrored_def])

interpretation deadman: history_system "base_handle props"
    "\<lambda>w. pressed (bw_base w) = []" "\<lambda>e. stays_on_tab e \<and> e \<noteq> RunClick"
    "\<lambda>w os. mirrored w \<and> driven props (bw_base w) os" for props
proof unfold_locales
  fix w :: base_world
  assume "pressed (bw_base w) = []"
  then show "mirrored w \<and> driven props (bw_base w) []" by (simp add: mirrored_def driven_def idle_def)
qed (blast intro: base_handle_driven base_handle_mirrored)

section \<open>The preview walk\<close>

definition preview_request :: "string \<Rightarrow> (string \<times> bool) \<Rightarrow> effect list" where
  "preview_request name kv =
     (if js_includes name (fst kv) \<and> \<not> snd kv then addStream (fst kv)
      else if \<not> js_includes name (fst kv) \<and> snd kv then removeStream (fst kv) else [])"

lemma preview_fold:
  "distinct (map fst kvs) \<Longrightarrow> (\<And>k v. (k, v) \<in> set kvs \<Longrightarrow> map_of (baseStreamStates st) k = Some v) \<Longrightarrow>
   map_of (baseStreamStates (fst (fold (preview_step name) kvs (st, os)))) =
     (\<lambda>k. if k \<in> fst ` set kvs then Some (js_includes name k) else map_of (baseStreamStates st) k)
   \<and> cameraStreamStates (fst (fold (preview_step name) kvs (st, os))) = cameraStreamStates st
   \<and> snd (fold (preview_step name) kvs (st, os)) =
       os @ (if stream_on (cameraStreamStates st) name then [] else concat (map (preview_request name) kvs))"
proof (induction kvs arbitrary: st os)
  case (Cons kv kvs)
  obtain k v where kv: "kv = (k, v)" by (cases kv)
  define st' where "st' = fst (preview_step name kv (st, os))"
  define os' where "os' = snd (preview_step name kv (st, os))"
  have v: "map_of (baseStreamStates st) k = Some v" using Cons.prems kv by auto
  then have m: "map_of (baseStreamStates st') = (map_of (baseStreamStates st))(k \<mapsto> js_includes name k)"
    and c: "cameraStreamStates st' = cameraStreamStates st"
    and o: "os' = os @ (if stream_on (cameraStreamStates st) name then [] else preview_request name kv)"
    by (auto simp: st'_def os'_def kv preview_step_def preview_request_def Let_def dict_simps fun_upd_idem)
  have "\<And>k' v'. (k', v') \<in> set kvs \<Longrightarrow> map_of (baseStreamStates st') k' = Some v'"
    using Cons.prems kv m by (force simp: image_iff)
  with Cons.IH [of st' os'] Cons.prems(1) have ih:
    "map_of (baseStreamStates (fst (fold (preview_step name) kvs (st', os')))) =
       (\<lambda>k. if k \<in> fst ` set kvs then Some (js_includes name k) else map_of (baseStreamStates st') k)"
    "cameraStreamStates (fst (fold (preview_step name) kvs (st', os'))) = cameraStreamStates st'"
    "snd (fold (preview_step name) kvs (st', os')) =
       os' @ (if stream_on (cameraStreamStates st') name then [] else concat (map (preview_request name) kvs))"
    by simp_all
  have f: "fold (preview_step name) (kv # kvs) (st, os) = fold (preview_step name) kvs (st', os')"
    by (simp add: st'_def os'_def)
  show ?case unfolding f using ih m c o kv by (auto simp: fun_eq_iff)
qed auto

lemma viewPreviewCamera_eq:
  assumes "distinct (map fst (baseStreamStates st))"
  shows "map_of (baseStreamStates (fst (viewPreviewCamera name st))) =
           (\<lambda>k. map_option (\<lambda>v. js_includes name k) (map_of (baseStreamStates st) k))"
    and "cameraStreamStates (fst (viewPreviewCamera name st)) = cameraStreamStates st"
    and "snd (viewPreviewCamera name st) =
           (if stream_on (cameraStreamStates st) name then []
            else concat (map (preview_request name) (baseStreamStates st)))"
proof -
  note f = preview_fold [OF assms, of st name "[]"]
  show "map_of (baseStreamStates (fst (viewPreviewCamera name st))) =
           (\<lambda>k. map_option (\<lambda>v. js_includes name k) (map_of (baseStreamStates st) k))"
  proof (rule ext)
    fix k
    show "map_of (baseStreamStates (fst (viewPreviewCamera name st))) k =
           map_option (\<lambda>v. js_includes name k) (map_of (baseStreamStates st) k)"
      using f assms map_of_eq_None_iff [of "baseStreamStates st" k]
      by (cases "map_of (baseStreamStates st) k") (simp_all add: viewPreviewCamera_def)
  qed
  show "cameraStreamStates (fst (viewPreviewCamera name st)) = cameraStreamStates st"
    "snd (viewPreviewCamera name st) =
           (if stream_on (cameraStreamStates st) name then []
            else concat (map (preview_request name) (baseStreamStates st)))"
    using f assms by (simp_all add: viewPreviewCamera_def)
qed

section \<open>Discrete moves\<close>

lemma num_mul_one: "num_ok x \<Longrightarrow> num_mul x (Fin 1) = x"
  by (cases x) (auto simp: mk_num_def is_double_def Let_def)

lemma num_mul_minus_one: "num_ok x \<Longrightarrow> num_mul x (Fin (- 1)) = num_neg x"
  by (cases x) (auto simp: mk_num_def is_double_def Let_def rnd_minus)

section \<open>Properties\<close>

text \<open>
  C1. The key-driven base, for every sequence of events other than RUN (including hidden documents,
  tab changes and late callbacks): the motion command in force is none, a stop, or the power
  \<open>(w - s, a - d)\<close> of exactly the keys the panel holds; with no key held, it is none or a stop.
\<close>

theorem base_driven_by_keys:
  assumes "pressed (bw_base w) = []" and "list_all (\<lambda>e. e \<noteq> RunClick) es"
  shows "let (w', os) = run (base_handle props) w es in
     last_motion os \<in> {None, Some (BaseStop (bp_name props)),
                       Some (power_for (bp_name props) (set (pressed (bw_base w'))))}
     \<and> (pressed (bw_base w') = [] \<longrightarrow> last_motion os \<in> {None, Some (BaseStop (bp_name props))})"
  using drive.run_P [of w es props] assms by (auto simp: driven_def idle_def split_def Let_def)

definition base_start :: base_world where
  "base_start = \<lparr>bw_base = base_init, bw_pad = kbd_init,
     bw_streams = \<lparr>baseStreamStates = [], cameraStreamStates = []\<rparr>\<rparr>"

definition demo_props :: base_props where
  "demo_props = \<lparr>bp_name = ''b'', bp_resources = [], bp_rcDebug = False\<rparr>"

lemmas base_eval = base_start_def base_init_def kbd_init_def demo_props_def pad_event_def kbd_defs
  base_ops set_add_def set_delete_def on_base_def split_def Let_def

theorem base_driven_by_keys_witness:
  "last_motion (outputs (base_handle demo_props) base_start [Pad (PointerDown Kw), VisibilityChange True, Pad (PointerUp Kw)])
     \<in> {None, Some (BaseStop ''b'')}"
proof -
  let ?es = "[Pad (PointerDown Kw), VisibilityChange True, Pad (PointerUp Kw)]"
  have "pressed (bw_base base_start) = []" by (simp add: base_start_def base_init_def)
  moreover have "list_all (\<lambda>e. e \<noteq> RunClick) ?es" by simp
  moreover have "pressed (bw_base (final (base_handle demo_props) base_start ?es)) = []" by code_simp
  moreover have "bp_name demo_props = ''b''" by (simp add: demo_props_def)
  ultimately show ?thesis
    using base_driven_by_keys [of base_start ?es demo_props] by (simp only: split_def Let_def simp_thms)
qed

text \<open>
  C2. The dead man's switch: while the pad stays mounted and RUN is not used, whenever the pad shows
  no key down, the motion command in force is none or a stop.
\<close>

theorem base_stops_when_released:
  assumes "pressed (bw_base w) = []" and "list_all (\<lambda>e. stays_on_tab e \<and> e \<noteq> RunClick) es"
    and "\<And>k. \<not> pressedKeys (bw_pad (final (base_handle props) w es)) k"
  shows "last_motion (outputs (base_handle props) w es) \<in> {None, Some (BaseStop (bp_name props))}"
proof -
  have "mirrored (final (base_handle props) w es)"
    and d: "driven props (bw_base (final (base_handle props) w es)) (outputs (base_handle props) w es)"
    using deadman.run_P [of w es props] assms(1, 2) by auto
  then have "set (pressed (bw_base (final (base_handle props) w es))) \<subseteq> {}"
    using assms(3) unfolding mirrored_def by blast
  then have "pressed (bw_base (final (base_handle props) w es)) = []" by simp
  then show ?thesis using d by (auto simp: driven_def idle_def)
qed

theorem base_stops_when_released_witness:
  "last_motion (outputs (base_handle demo_props) base_start
     [Pad (KbdSwitch True), Pad (WinKeyDown ''W''), Pad (WinKeyDown ''a''), Pad (WinKeyUp ''w''), Pad (WinKeyUp ''ArrowLeft'')])
     \<in> {None, Some (BaseStop ''b'')}"
proof -
  let ?es = "[Pad (KbdSwitch True), Pad (WinKeyDown ''W''), Pad (WinKeyDown ''a''), Pad (WinKeyUp ''w''), Pad (WinKeyUp ''ArrowLeft'')]"
  have "pressed (bw_base base_start) = []" by (simp add: base_start_def base_init_def)
  moreover have "list_all (\<lambda>e. stays_on_tab e \<and> e \<noteq> RunClick) ?es" by simp
  moreover have "\<not> pressedKeys (bw_pad (final (base_handle demo_props) base_start ?es)) k" for k
  proof -
    have "map (pressedKeys (bw_pad (final (base_handle demo_props) base_start ?es))) [Kw, Ka, Ks, Kd] =
        [False, False, False, False]"
      by (simp add: base_eval normalizeKey_names)
    then show ?thesis by (cases k) simp_all
  qed
  moreover have "bp_name demo_props = ''b''" by (simp add: demo_props_def)
  ultimately show ?thesis using base_stops_when_released [of base_start ?es demo_props] by simp
qed

text \<open>
  The pad's picture of the keyboard can be stale: a key released while the pad is not listening
  (after a click outside of it) stays lit and held. The next press and release of another key then
  leaves the base running at the power of the stale key, with no key of the keyboard down.
\<close>

theorem base_stale_key_drives:
  "last_motion (outputs (base_handle demo_props) base_start
     [Pad (KbdSwitch True), Pad (WinKeyDown ''w''), Pad ClickOutside, Pad (WinKeyUp ''w''),
      Pad (PointerDown Ka), Pad (PointerUp Ka)])
   = Some (power_for ''b'' {Kw})"
  by (simp add: base_eval normalizeKey_names digestInput_eq last_motion_append)

text \<open>
  Selecting previews: afterwards a camera of the panel is on exactly when its name occurs in the
  selection, the camera panel's flags are untouched, and unless the selection itself is the name of a
  camera that the camera panel has on, a stream is requested for each preview that goes on and
  dropped for each that goes off, in the order of the map.
\<close>

theorem viewPreviewCamera_correct:
  assumes "distinct (map fst (baseStreamStates st))"
  shows "map_of (baseStreamStates (fst (viewPreviewCamera sel st))) =
           (\<lambda>k. if map_of (baseStreamStates st) k = None then None else Some (sublist k sel))
    \<and> cameraStreamStates (fst (viewPreviewCamera sel st)) = cameraStreamStates st
    \<and> snd (viewPreviewCamera sel st) =
        (if stream_on (cameraStreamStates st) sel then []
         else concat (map (preview_request sel) (baseStreamStates st)))"
  using viewPreviewCamera_eq [OF assms, of sel] by (auto simp: js_includes_sublist fun_eq_iff)

theorem viewPreviewCamera_correct_witness:
  "snd (viewPreviewCamera ''cam10'' \<lparr>baseStreamStates = [(''cam1'', False), (''cam10'', False), (''x'', True)],
                                    cameraStreamStates = []\<rparr>) =
     addStream ''cam1'' @ addStream ''cam10'' @ removeStream ''x''"
proof -
  let ?st = "\<lparr>baseStreamStates = [(''cam1'', False), (''cam10'', False), (''x'', True)], cameraStreamStates = []\<rparr> :: streams"
  have "distinct (map fst (baseStreamStates ?st))" by simp
  from viewPreviewCamera_correct [OF this, of "''cam10''"] show ?thesis
    by (simp add: stream_on_def preview_request_def)
qed

text \<open>
  Deselecting all previews drops a stream the camera panel is still showing: the guard looks up
  the whole selection, not the camera whose preview goes off.
\<close>

theorem preview_drops_camera_stream:
  "map_of (cameraStreamStates st) [] = None \<Longrightarrow> map_of (cameraStreamStates st) n = Some True \<Longrightarrow>
   baseStreamStates st = [(n, True)] \<Longrightarrow>
   snd (viewPreviewCamera [] st) = removeStream n"
  by (cases n) (simp_all add: viewPreviewCamera_eq(3) stream_on_def preview_request_def)

theorem preview_drops_camera_stream_witness:
  "snd (viewPreviewCamera [] \<lparr>baseStreamStates = [(''c'', True)], cameraStreamStates = [(''c'', True)]\<rparr>) =
     removeStream ''c''"
  using preview_drops_camera_stream [of "\<lparr>baseStreamStates = [(''c'', True)], cameraStreamStates = [(''c'', True)]\<rparr>" "''c''"]
  by simp

text \<open>
  RUN sends one request to this base: a spin by the angle, negated for clockwise; or, straight, a
  velocity when continuous and a move over the distance when discrete, with the speed negated for
  backwards.
\<close>

theorem baseRun_request:
  assumes "num_ok (angle s)" and "num_ok (speed s)"
  shows "baseRun props s = base_send props
    (let n = bp_name props; v = (if direction s = Forwards then speed s else num_neg (speed s))
     in if movementMode s = ModeSpin
        then Spin n (if spinType s = Clockwise then num_neg (angle s) else angle s) (spinSpeed s)
        else if movementType s = Continuous then SetVelocity n (new_Vector3\<lparr>v_y := v\<rparr>) new_Vector3
        else MoveStraight n v (increment s))"
  using assms num_mul_one num_mul_minus_one
  by (cases "movementMode s") (auto simp: baseRun_def handleBaseStraight_def Let_def)

theorem baseRun_request_witness:
  "baseRun demo_props (base_init\<lparr>direction := Backwards, movementType := DiscreteMove\<rparr>) =
     [Call (BaseReq (MoveStraight ''b'' (Fin (- 200)) (Fin 1000)))]"
proof -
  let ?s = "base_init\<lparr>direction := Backwards, movementType := DiscreteMove\<rparr>"
  have "num_ok (angle ?s)" by (simp add: base_init_def)
  moreover have "num_ok (speed ?s)" using is_double_int [of 200] by (simp add: base_init_def)
  ultimately show ?thesis using baseRun_request [of ?s demo_props]
    by (simp add: base_init_def demo_props_def base_send_def rcLogConditionally_def)
qed

end
