(* ===== verification/Actuators.thy ===== *)
theory Actuators
  imports Panel Fixers
begin

text \<open>
  The panels of the motor (\<open>motor-detail.vue\<close>), servo, gantry, gripper and board components, with
  \<open>lib/math.ts\<close>. Each panel is an event system over the values in its inputs; what it may send is
  the contract \<open>panel\<close> of the theory \<open>Panel\<close>: only requests to its own component. Values of number inputs are the numbers
  the inputs deliver, values of text inputs are strings.
\<close>

section \<open>lib/math.ts\<close>

definition roundTo2Decimals :: "jsnum \<Rightarrow> jsnum" where
  "roundTo2Decimals num = num_div (math_round (num_mul num (Fin 100))) (Fin 100)"

section \<open>motor-detail.vue\<close>

datatype motor_type = Mgo | MgoFor | MgoTo

record motor_state =
  mt_position :: jsnum
  mt_rpm :: jsnum
  mt_power :: jsnum
  mt_revolutions :: jsnum
  mt_movementType :: string
  mt_direction :: jsnum
  mt_type :: motor_type

definition motor_init :: motor_state where
  "motor_init = \<lparr>mt_position = Fin 0, mt_rpm = Fin 0, mt_power = Fin 25, mt_revolutions = Fin 0,
     mt_movementType = ''Go'', mt_direction = Fin 1, mt_type = Mgo\<rparr>"

definition motor_setMovementType :: "string \<Rightarrow> motor_state \<Rightarrow> motor_state" where
  "motor_setMovementType v s =
     (let s' = s\<lparr>mt_movementType := v\<rparr>
      in if v = ''Go'' then s'\<lparr>mt_type := Mgo\<rparr>
         else if v = ''Go For'' then s'\<lparr>mt_type := MgoFor\<rparr>
         else if v = ''Go To'' then s'\<lparr>mt_type := MgoTo\<rparr>
         else s')"

definition motor_setDirection :: "string \<Rightarrow> motor_state \<Rightarrow> motor_state" where
  "motor_setDirection v s =
     (if v = ''Forwards'' then s\<lparr>mt_direction := Fin 1\<rparr>
      else if v = ''Backwards'' then s\<lparr>mt_direction := Fin (- 1)\<rparr>
      else s\<lparr>mt_direction := Fin 1\<rparr>)"

definition logged :: "bool \<Rightarrow> request \<Rightarrow> effect list" where
  "logged rcDebug req = rcLogConditionally rcDebug req @ [Call req]"

definition motor_setPower :: "bool \<Rightarrow> string \<Rightarrow> motor_state \<Rightarrow> effect list" where
  "motor_setPower rcDebug name s =
     (let powerPct = num_div (num_mul (mt_power s) (mt_direction s)) (Fin 100)
      in logged rcDebug (MotorReq (MotorSetPower name powerPct)))"

definition motor_goFor :: "bool \<Rightarrow> string \<Rightarrow> motor_state \<Rightarrow> effect list" where
  "motor_goFor rcDebug name s =
     logged rcDebug (MotorReq (GoFor name (num_mul (mt_rpm s) (mt_direction s)) (mt_revolutions s)))"

definition motor_goTo :: "bool \<Rightarrow> string \<Rightarrow> motor_state \<Rightarrow> effect list" where
  "motor_goTo rcDebug name s = logged rcDebug (MotorReq (GoTo name (mt_rpm s) (mt_position s)))"

definition motorRun :: "bool \<Rightarrow> string \<Rightarrow> motor_state \<Rightarrow> effect list" where
  "motorRun rcDebug name s =
     (case mt_type s of
        Mgo \<Rightarrow> motor_setPower rcDebug name s
      | MgoFor \<Rightarrow> motor_goFor rcDebug name s
      | MgoTo \<Rightarrow> motor_goTo rcDebug name s)"

definition motorStop :: "bool \<Rightarrow> string \<Rightarrow> effect list" where
  "motorStop rcDebug name = logged rcDebug (MotorReq (MotorStop name))"

datatype motor_event =
    MtStop
  | MtRun
  | MtSetType string
  | MtSetDirection string
  | MtSetPosition jsnum
  | MtSetRpm jsnum
  | MtSetRevolutions jsnum
  | MtSetPower jsnum
  | MtSettled "service_error option"

fun motor_handle :: "bool \<Rightarrow> string \<Rightarrow> (motor_state, motor_event, effect) handler" where
  "motor_handle d n s MtStop = (s, motorStop d n)"
| "motor_handle d n s MtRun = (s, motorRun d n s)"
| "motor_handle d n s (MtSetType v) = (motor_setMovementType v s, [])"
| "motor_handle d n s (MtSetDirection v) = (motor_setDirection v s, [])"
| "motor_handle d n s (MtSetPosition x) = (s\<lparr>mt_position := x\<rparr>, [])"
| "motor_handle d n s (MtSetRpm x) = (s\<lparr>mt_rpm := x\<rparr>, [])"
| "motor_handle d n s (MtSetRevolutions x) = (s\<lparr>mt_revolutions := x\<rparr>, [])"
| "motor_handle d n s (MtSetPower x) = (s\<lparr>mt_power := x\<rparr>, [])"
| "motor_handle d n s (MtSettled err) = (s, displayError err)"

text \<open>The options of the movement radio and the input groups shown.\<close>

definition motor_options :: "motor_status \<Rightarrow> string list" where
  "motor_options st = (if truthy (ms_positionReporting st) then [''Go'', ''Go For'', ''Go To''] else [''Go''])"

section \<open>servo.vue\<close>

text \<open>The raw status of the panel is a prop; the events carry the one in force.\<close>

definition servo_stop :: "bool \<Rightarrow> string \<Rightarrow> effect list" where
  "servo_stop rcDebug name = logged rcDebug (ServoReq (ServoStop name))"

definition servo_move :: "string \<Rightarrow> jsval \<Rightarrow> jsnum \<Rightarrow> effect list" where
  "servo_move name rawStatus amount =
     (case get_prop rawStatus ''position_deg'' of
        Inl e \<Rightarrow> [Uncaught e]
      | Inr v \<Rightarrow>
          (let oldAngle = (if nullish v then Num (Fin 0) else v); angle = js_add oldAngle (Num amount)
           in [Call (ServoReq (ServoMove name angle))]))"

datatype servo_event = SvStop | SvMove jsnum | SvStatus jsval | SvSettled "service_error option"

fun servo_handle :: "bool \<Rightarrow> string \<Rightarrow> (jsval, servo_event, effect) handler" where
  "servo_handle d n raw SvStop = (raw, servo_stop d n)"
| "servo_handle d n raw (SvMove a) = (raw, servo_move n raw a)"
| "servo_handle d n raw (SvStatus v) = (v, [])"
| "servo_handle d n raw (SvSettled err) = (raw, displayError err)"

section \<open>gantry.vue\<close>

definition gantry_increment :: "string \<Rightarrow> gantry_status \<Rightarrow> nat \<Rightarrow> jsnum \<Rightarrow> effect list" where
  "gantry_increment name status axis amount =
     (let pos = map gp_pos (gs_parts status);
          pos' = arr_set pos axis (js_add (arr_get pos axis) (Num amount))
      in [Call (GantryReq (GantryMoveToPosition name pos'))])"

definition gantry_stop :: "string \<Rightarrow> effect list" where
  "gantry_stop name = [Call (GantryReq (GantryStop name))]"

datatype gantry_event = GnStop | GnIncrement nat jsnum | GnStatus gantry_status | GnSettled "service_error option"

fun gantry_handle :: "string \<Rightarrow> (gantry_status, gantry_event, effect) handler" where
  "gantry_handle n st GnStop = (st, gantry_stop n)"
| "gantry_handle n st (GnIncrement axis a) = (st, gantry_increment n st axis a)"
| "gantry_handle n st (GnStatus v) = (v, [])"
| "gantry_handle n st (GnSettled err) = (st, displayError err)"

section \<open>gripper.vue\<close>

definition gripper_stop :: "string \<Rightarrow> effect list" where
  "gripper_stop name = [Call (GripperReq (GripperStop name))]"

definition gripper_open :: "string \<Rightarrow> effect list" where
  "gripper_open name = [Call (GripperReq (GripperOpen name))]"

definition gripper_grab :: "string \<Rightarrow> effect list" where
  "gripper_grab name = [Call (GripperReq (GripperGrab name))]"

datatype gripper_event = GrStop | GrOpen | GrGrab | GrSettled "service_error option"

fun gripper_handle :: "string \<Rightarrow> (unit, gripper_event, effect) handler" where
  "gripper_handle n u GrStop = (u, gripper_stop n)"
| "gripper_handle n u GrOpen = (u, gripper_open n)"
| "gripper_handle n u GrGrab = (u, gripper_grab n)"
| "gripper_handle n u (GrSettled err) = (u, displayError err)"

section \<open>board.vue\<close>

record board_state =
  bd_getPin :: string
  bd_setPin :: string
  bd_setLevel :: string
  bd_pwm :: string
  bd_pwmFrequency :: string
  bd_getPinMessage :: string

definition board_init :: board_state where
  "board_init = \<lparr>bd_getPin = [], bd_setPin = [], bd_setLevel = [], bd_pwm = [], bd_pwmFrequency = [],
     bd_getPinMessage = []\<rparr>"

definition getGPIO :: "bool \<Rightarrow> string \<Rightarrow> board_state \<Rightarrow> effect list" where
  "getGPIO rcDebug name s = logged rcDebug (BoardReq (GetGPIO name (bd_getPin s)))"

text \<open>A failed read shows the error and keeps the old message.\<close>

definition read_done :: "(board_state \<Rightarrow> 'a \<Rightarrow> string) \<Rightarrow> service_error + 'a \<Rightarrow> board_state \<Rightarrow> board_state \<times> effect list" where
  "read_done msg r s =
     (case r of
        Inl e \<Rightarrow> (s, [ToastError (err_message e)])
      | Inr x \<Rightarrow> (s\<lparr>bd_getPinMessage := msg s x\<rparr>, []))"

definition getGPIO_message :: "board_state \<Rightarrow> bool \<Rightarrow> string" where
  "getGPIO_message s high = ''Pin: '' @ bd_getPin s @ '' is '' @ (if high then ''high'' else ''low'')"

definition setGPIO :: "bool \<Rightarrow> string \<Rightarrow> board_state \<Rightarrow> effect list" where
  "setGPIO rcDebug name s = logged rcDebug (BoardReq (SetGPIO name (bd_setPin s) (bd_setLevel s = ''high'')))"

definition getPWM :: "bool \<Rightarrow> string \<Rightarrow> board_state \<Rightarrow> effect list" where
  "getPWM rcDebug name s = logged rcDebug (BoardReq (GetPWM name (bd_getPin s)))"

definition getPWM_message :: "board_state \<Rightarrow> jsnum \<Rightarrow> string" where
  "getPWM_message s dutyCyclePct =
     ''Pin '' @ bd_getPin s @ [CHR 0x27] @ ''s duty cycle is '' @ num_to_string (num_mul dutyCyclePct (Fin 100)) @ ''%.''"

definition setPWM :: "bool \<Rightarrow> string \<Rightarrow> board_state \<Rightarrow> effect list" where
  "setPWM rcDebug name s =
     logged rcDebug (BoardReq (SetPWM name (bd_setPin s) (num_div (parseFloat (bd_pwm s)) (Fin 100))))"

definition getPWMFrequency :: "bool \<Rightarrow> string \<Rightarrow> board_state \<Rightarrow> effect list" where
  "getPWMFrequency rcDebug name s = logged rcDebug (BoardReq (GetPWMFrequency name (bd_getPin s)))"

definition getPWMFrequency_message :: "board_state \<Rightarrow> jsnum \<Rightarrow> string" where
  "getPWMFrequency_message s frequencyHz =
     ''Pin '' @ bd_getPin s @ [CHR 0x27] @ ''s frequency is '' @ num_to_string frequencyHz @ ''Hz.''"

definition setPWMFrequency :: "bool \<Rightarrow> string \<Rightarrow> board_state \<Rightarrow> effect list" where
  "setPWMFrequency rcDebug name s =
     logged rcDebug (BoardReq (SetPWMFrequency name (bd_setPin s) (parseFloat (bd_pwmFrequency s))))"

datatype board_event =
    BdGetPin string | BdSetPin string | BdSetLevel string | BdPwm string | BdPwmFrequency string
  | BdGetGPIO | BdSetGPIO | BdGetPWM | BdSetPWM | BdGetPWMFrequency | BdSetPWMFrequency
  | BdGotGPIO "service_error + bool"
  | BdGotPWM "service_error + jsnum"
  | BdGotPWMFrequency "service_error + jsnum"
  | BdSettled "service_error option"

fun board_handle :: "bool \<Rightarrow> string \<Rightarrow> (board_state, board_event, effect) handler" where
  "board_handle d n s (BdGetPin v) = (s\<lparr>bd_getPin := v\<rparr>, [])"
| "board_handle d n s (BdSetPin v) = (s\<lparr>bd_setPin := v\<rparr>, [])"
| "board_handle d n s (BdSetLevel v) = (s\<lparr>bd_setLevel := v\<rparr>, [])"
| "board_handle d n s (BdPwm v) = (s\<lparr>bd_pwm := v\<rparr>, [])"
| "board_handle d n s (BdPwmFrequency v) = (s\<lparr>bd_pwmFrequency := v\<rparr>, [])"
| "board_handle d n s BdGetGPIO = (s, getGPIO d n s)"
| "board_handle d n s BdSetGPIO = (s, setGPIO d n s)"
| "board_handle d n s BdGetPWM = (s, getPWM d n s)"
| "board_handle d n s BdSetPWM = (s, setPWM d n s)"
| "board_handle d n s BdGetPWMFrequency = (s, getPWMFrequency d n s)"
| "board_handle d n s BdSetPWMFrequency = (s, setPWMFrequency d n s)"
| "board_handle d n s (BdGotGPIO r) = read_done getGPIO_message r s"
| "board_handle d n s (BdGotPWM r) = read_done getPWM_message r s"
| "board_handle d n s (BdGotPWMFrequency r) = read_done getPWMFrequency_message r s"
| "board_handle d n s (BdSettled err) = (s, displayError err)"

text \<open>
  The rows of the two tables of the template: the first column of the interrupt table shows the
  board's own name.
\<close>

definition shown_value :: "jsval \<Rightarrow> string throws" where
  "shown_value v = bindE (get_prop v ''value'') (\<lambda>x. Inr (val_to_string (js_or x (Num (Fin 0)))))"

definition analog_rows :: "(string \<times> jsval) list \<Rightarrow> (string \<times> string) list throws" where
  "analog_rows m = mapE (\<lambda>(analogName, analog). bindE (shown_value analog) (\<lambda>t. Inr (analogName, t))) m"

definition interrupt_rows :: "string \<Rightarrow> (string \<times> jsval) list \<Rightarrow> (string \<times> string) list throws" where
  "interrupt_rows name m = mapE (\<lambda>(interruptName, di). bindE (shown_value di) (\<lambda>t. Inr (name, t))) m"

section \<open>The panels keep the contract\<close>

lemma logged_addressed: "o' \<in> set (logged d q) \<Longrightarrow> target q = Some n \<Longrightarrow> addressed_to n o'"
  by (auto simp: logged_def)

lemmas motor_ops = motorRun_def motor_setPower_def motor_goFor_def motor_goTo_def motorStop_def
lemmas board_ops = getGPIO_def setGPIO_def getPWM_def setPWM_def getPWMFrequency_def setPWMFrequency_def

interpretation motor: panel "motor_handle d" for d
proof unfold_locales
  fix o' n s e
  show "o' \<in> set (snd (motor_handle d n s e)) \<Longrightarrow> addressed_to n o'"
    by (cases e) (auto simp: motor_ops Let_def split: motor_type.splits elim!: logged_addressed)
qed

interpretation servo: panel "servo_handle d" for d
proof unfold_locales
  fix o' n s e
  show "o' \<in> set (snd (servo_handle d n s e)) \<Longrightarrow> addressed_to n o'"
    by (cases e) (auto simp: servo_stop_def servo_move_def Let_def split: sum.splits elim!: logged_addressed)
qed

interpretation gantry: panel gantry_handle
proof unfold_locales
  fix o' n s e
  show "o' \<in> set (snd (gantry_handle n s e)) \<Longrightarrow> addressed_to n o'"
    by (cases e) (auto simp: gantry_stop_def gantry_increment_def Let_def)
qed

interpretation gripper: panel gripper_handle
proof unfold_locales
  fix o' n s e
  show "o' \<in> set (snd (gripper_handle n s e)) \<Longrightarrow> addressed_to n o'"
    by (cases e) (auto simp: gripper_stop_def gripper_open_def gripper_grab_def)
qed

interpretation board: panel "board_handle d" for d
proof unfold_locales
  fix o' n s e
  show "o' \<in> set (snd (board_handle d n s e)) \<Longrightarrow> addressed_to n o'"
    by (cases e) (auto simp: board_ops read_done_def split: sum.splits elim!: logged_addressed)
qed

section \<open>The motor's power\<close>

text \<open>What the slider and the radios of the template deliver.\<close>

fun motor_input_ok :: "motor_event \<Rightarrow> bool" where
  "motor_input_ok (MtSetPower x) = (num_ok x \<and> num_finite x \<and> 0 \<le> num_val x \<and> num_val x \<le> 100)"
| "motor_input_ok (MtSetType v) = (v \<in> {''Go'', ''Go For'', ''Go To''})"
| "motor_input_ok _ = True"

definition motor_ok :: "motor_state \<Rightarrow> bool" where
  "motor_ok s \<longleftrightarrow> num_ok (mt_power s) \<and> num_finite (mt_power s) \<and> 0 \<le> num_val (mt_power s)
     \<and> num_val (mt_power s) \<le> 100 \<and> (mt_direction s = Fin 1 \<or> mt_direction s = Fin (- 1))
     \<and> (mt_movementType s, mt_type s) \<in> {(''Go'', Mgo), (''Go For'', MgoFor), (''Go To'', MgoTo)}"

fun power_ok :: "effect \<Rightarrow> bool" where
  "power_ok (Call (MotorReq (MotorSetPower n p))) = (num_finite p \<and> \<bar>num_val p\<bar> \<le> 1)"
| "power_ok _ = True"

lemma num_val_mul_unit:
  assumes "num_ok x" "num_finite x" "d = Fin 1 \<or> d = Fin (- 1)"
  shows "num_finite (num_mul x d) \<and> \<bar>num_val (num_mul x d)\<bar> = \<bar>num_val x\<bar>"
  using assms by (cases x) (auto simp: mk_num_def is_double_def Let_def rnd_minus)

lemma num_div_100:
  assumes "num_finite x" "\<bar>num_val x\<bar> \<le> 100"
  shows "num_finite (num_div x (Fin 100)) \<and> \<bar>num_val (num_div x (Fin 100))\<bar> \<le> 1"
proof -
  have "num_div x (Fin 100) = mk_num (num_sgn x \<noteq> num_sgn (Fin 100)) (num_val x / 100)"
    using assms(1) by (cases x) auto
  moreover have "\<bar>num_val x / 100\<bar> \<le> 2 ^ 0" using assms(2) by simp
  ultimately show ?thesis using num_val_mk_num_bound [of "num_val x / 100" 0] by simp
qed

lemma powerPct_bounded:
  assumes "motor_ok s"
  shows "num_finite (num_div (num_mul (mt_power s) (mt_direction s)) (Fin 100))
    \<and> \<bar>num_val (num_div (num_mul (mt_power s) (mt_direction s)) (Fin 100))\<bar> \<le> 1"
  using num_val_mul_unit [of "mt_power s" "mt_direction s"] assms
  by (intro num_div_100) (auto simp: motor_ok_def)

lemma displayError_power_ok: "o' \<in> set (displayError e) \<Longrightarrow> power_ok o'"
  by (cases e) (auto simp: displayError_def)

lemma logged_power_ok:
  "o' \<in> set (logged d q) \<Longrightarrow> power_ok (Call q) \<Longrightarrow> power_ok o'"
  by (auto simp: logged_def rcLogConditionally_def split: if_splits)

lemma motor_step_ok:
  assumes "motor_ok s" "motor_input_ok e"
  shows "motor_ok (fst (motor_handle d n s e)) \<and> list_all power_ok (snd (motor_handle d n s e))"
proof (cases e)
  case MtRun
  then show ?thesis using assms powerPct_bounded [OF assms(1)]
    by (auto simp: motor_ops list_all_iff Let_def split: motor_type.splits elim!: logged_power_ok)
qed (use assms in \<open>auto simp: motor_ok_def motor_setMovementType_def motor_setDirection_def
      motorStop_def list_all_iff elim!: logged_power_ok displayError_power_ok\<close>)

interpretation motor_power: history_system "motor_handle d n" motor_ok motor_input_ok
    "\<lambda>s os. motor_ok s \<and> list_all power_ok os" for d n
  by unfold_locales (simp_all add: motor_step_ok)

text \<open>The form as its inputs left it: the last value of each kind, or the initial one.\<close>

fun type_in :: "motor_event \<Rightarrow> string option" where
  "type_in (MtSetType v) = Some v" | "type_in _ = None"

fun direction_in :: "motor_event \<Rightarrow> string option" where
  "direction_in (MtSetDirection v) = Some v" | "direction_in _ = None"

fun power_in :: "motor_event \<Rightarrow> jsnum option" where
  "power_in (MtSetPower x) = Some x" | "power_in _ = None"

fun rpm_in :: "motor_event \<Rightarrow> jsnum option" where
  "rpm_in (MtSetRpm x) = Some x" | "rpm_in _ = None"

fun revolutions_in :: "motor_event \<Rightarrow> jsnum option" where
  "revolutions_in (MtSetRevolutions x) = Some x" | "revolutions_in _ = None"

fun position_in :: "motor_event \<Rightarrow> jsnum option" where
  "position_in (MtSetPosition x) = Some x" | "position_in _ = None"

definition form_ok :: "motor_event list \<Rightarrow> motor_state \<Rightarrow> bool" where
  "form_ok es s \<longleftrightarrow> mt_movementType s = last_input type_in ''Go'' es \<and> mt_power s = last_input power_in (Fin 25) es
     \<and> mt_direction s = (if last_input direction_in ''Forwards'' es = ''Backwards'' then Fin (- 1) else Fin 1)
     \<and> mt_rpm s = last_input rpm_in (Fin 0) es \<and> mt_revolutions s = last_input revolutions_in (Fin 0) es
     \<and> mt_position s = last_input position_in (Fin 0) es"

interpretation motor_form: trace_system "motor_handle d n" motor_init "\<lambda>es s os. form_ok es s" for d n
proof unfold_locales
  fix es s e
  assume "form_ok es s"
  then show "form_ok (es @ [e]) (fst (motor_handle d n s e))"
    by (cases e) (simp_all add: form_ok_def motor_setMovementType_def motor_setDirection_def Let_def)
qed (simp add: form_ok_def motor_init_def)

lemma calls_logged [simp]: "calls (logged d q) = [q]"
  by (simp add: logged_def)

lemma powers_of_calls:
  "list_all power_ok os \<Longrightarrow> MotorReq (MotorSetPower n p) \<in> set (calls os) \<Longrightarrow> num_finite p \<and> \<bar>num_val p\<bar> \<le> 1"
  by (fastforce simp: calls_def list_all_iff map_filter_def split: effect.splits)

section \<open>Rounding to two decimals\<close>

lemma round_near_int:
  assumes "\<bar>q - of_int k\<bar> < (1 / 2 :: rat)"
  shows "\<lfloor>q + 1 / 2\<rfloor> = k"
  using assms by (intro floor_unique) linarith+

lemma rnd_near:
  assumes "k \<noteq> 0" "\<bar>k\<bar> \<le> 2 ^ 50" "\<bar>x - of_int k / 100\<bar> \<le> \<bar>of_int k / 100\<bar> * 2 powi (- 53)"
  shows "\<bar>rnd (x * 100) - of_int k\<bar> < 1 / 2"
proof -
  have e: "(2::rat) powi (- 53) = 1 / 2 ^ 53" by (simp add: power_int_minus divide_simps)
  have "of_int 1 \<le> (of_int \<bar>k\<bar> :: rat)" unfolding of_int_le_iff using assms(1) by simp
  then have k1: "1 \<le> \<bar>of_int k :: rat\<bar>" by simp
  have "of_int \<bar>k\<bar> \<le> (of_int (2 ^ 50) :: rat)" unfolding of_int_le_iff using assms(2) .
  then have k2: "\<bar>of_int k :: rat\<bar> \<le> 2 ^ 50" by simp
  have d: "\<bar>x * 100 - of_int k\<bar> \<le> \<bar>of_int k\<bar> / 2 ^ 53"
    using assms(3) by (simp add: e abs_if field_simps split: if_splits)
  then have d': "\<bar>x * 100 - of_int k\<bar> \<le> 1 / 8" using k2 by (simp add: field_simps)
  then have "2 powi (- 1022) \<le> \<bar>x * 100\<bar>" "\<bar>x * 100\<bar> \<le> 2 ^ 51"
  proof -
    have "7 / 8 \<le> \<bar>x * 100\<bar>" using d' k1 by linarith
    moreover have "(2::rat) powi (- 1022) \<le> 2 powi (- 1)" by (rule powi2_mono) simp
    moreover have "(2::rat) powi (- 1) = 1 / 2" by simp
    ultimately show "2 powi (- 1022) \<le> \<bar>x * 100\<bar>" by linarith
    have "(2::rat) ^ 51 = 2 ^ 50 + 2 ^ 50" by simp
    moreover have "1 / 8 \<le> (2::rat) ^ 50" by simp
    ultimately show "\<bar>x * 100\<bar> \<le> 2 ^ 51" using d' k2 by linarith
  qed
  then have "\<bar>rnd (x * 100) - x * 100\<bar> \<le> \<bar>x * 100\<bar> / 2 ^ 53" using rnd_error [of "x * 100"] by (simp add: e)
  moreover have "\<bar>x * 100\<bar> / 2 ^ 53 \<le> 1 / 4" using \<open>\<bar>x * 100\<bar> \<le> 2 ^ 51\<close> by (simp add: field_simps)
  ultimately show ?thesis using d' by linarith
qed

lemma int_hundredth_normal:
  assumes "k \<noteq> 0"
  shows "2 powi (- 1022) \<le> \<bar>of_int k / 100 :: rat\<bar>"
proof -
  have "of_int 1 \<le> (of_int \<bar>k\<bar> :: rat)" unfolding of_int_le_iff using assms by simp
  then have "1 / 100 \<le> \<bar>of_int k / 100 :: rat\<bar>" by simp
  moreover have "(2::rat) powi (- 1022) \<le> 2 powi (- 7)" by (rule powi2_mono) simp
  moreover have "(2::rat) powi (- 7) = 1 / 128" by (simp add: power_int_minus)
  ultimately show ?thesis by linarith
qed

lemma roundTo2Decimals_grid:
  assumes "\<bar>k\<bar> \<le> 2 ^ 50"
  shows "roundTo2Decimals (num_of (of_int k / 100)) = num_of (of_int k / 100)"
proof (cases "k = 0")
  case False
  define x where "x = rnd (of_int k / 100)"
  have e: "\<bar>x - of_int k / 100\<bar> \<le> \<bar>of_int k / 100\<bar> * 2 powi (- 53)"
    unfolding x_def by (rule rnd_error) (rule int_hundredth_normal [OF False])
  have near: "\<bar>rnd (x * 100) - of_int k\<bar> < 1 / 2" using rnd_near [OF False assms e] .
  have k: "\<bar>of_int k :: rat\<bar> \<le> 2 ^ 50" using of_int_le_iff [of "\<bar>k\<bar>" "2 ^ 50", where ?'a = rat] assms by simp
  have x: "num_of (of_int k / 100) = Fin x" "x \<noteq> 0"
  proof -
    show "x \<noteq> 0" using near False k by (auto simp: abs_if split: if_splits)
    moreover have "\<bar>of_int k / 100 :: rat\<bar> \<le> 2 ^ 50" using k by (simp add: field_simps)
    ultimately show "num_of (of_int k / 100) = Fin x"
      using num_val_mk_num_bound [of "of_int k / 100" 50 False] by (auto simp: x_def mk_num_def Let_def)
  qed
  define r where "r = rnd (x * 100)"
  have "of_int 1 \<le> (of_int \<bar>k\<bar> :: rat)" unfolding of_int_le_iff using False by simp
  then have "1 \<le> \<bar>of_int k :: rat\<bar>" by simp
  then have r: "r \<noteq> 0" "\<bar>r\<bar> \<le> 2 ^ 50 + 1" using near k unfolding r_def by linarith+
  then have "\<bar>r\<bar> < 2 ^ 1024" using num_lt_max [of r] by simp
  then have "num_mul (Fin x) (Fin 100) = Fin r" using r(1) x(2) by (auto simp: mk_num_def r_def Let_def)
  moreover have "math_round (Fin r) = num_int k"
    using round_near_int [of r k] near False by (simp add: r_def Let_def)
  moreover have "num_div (num_int k) (Fin 100) = num_of (of_int k / 100)"
    using False by (simp add: mk_num_def)
  ultimately show ?thesis by (simp add: roundTo2Decimals_def x(1))
next
  case True
  have "\<lfloor>1 / 2 :: rat\<rfloor> = 0" by (simp add: floor_eq_iff)
  then show ?thesis using True by (simp add: roundTo2Decimals_def mk_num_def)
qed

section \<open>Properties\<close>

text \<open>
  Every panel addresses its own component only: in any state and for any sequence of events, each
  request sent or logged by the panel of the component \<open>n\<close> is for \<open>n\<close>.
\<close>

theorem panels_address_their_component:
  "list_all (addressed_to n) (outputs (motor_handle d n) ms mes)
   \<and> list_all (addressed_to n) (outputs (servo_handle d n) sv ses)
   \<and> list_all (addressed_to n) (outputs (gantry_handle n) gs ges)
   \<and> list_all (addressed_to n) (outputs (gripper_handle n) () res)
   \<and> list_all (addressed_to n) (outputs (board_handle d n) bs bes)"
  by (intro conjI motor.run_addressed servo.run_addressed gantry.run_addressed gripper.run_addressed
      board.run_addressed)

text \<open>
  C36. RUN sends what the form says: exactly one request, for the panel's motor, which is the power times
  the direction over 100 under \<open>Go\<close>, a run of the revolutions at the rpm times the direction under
  \<open>Go For\<close>, and the position at the rpm under \<open>Go To\<close>, where each field is its last input or its initial
  value and the direction is minus one exactly after \<open>Backwards\<close>. As long as the power slider delivers
  numbers from 0 to 100 and the radio one of its three options, every power ever requested is finite and
  within \<open>[-1, 1]\<close>.
\<close>

theorem motor_power_in_range:
  assumes "list_all motor_input_ok es"
  shows "let dir = (if last_input direction_in ''Forwards'' es = ''Backwards'' then Fin (- 1) else Fin 1);
             power = last_input power_in (Fin 25) es; rpm = last_input rpm_in (Fin 0) es;
             radio = last_input type_in ''Go'' es
         in calls (snd (motor_handle d n (final (motor_handle d n) motor_init es) MtRun)) =
              [MotorReq
                (if radio = ''Go'' then MotorSetPower n (num_div (num_mul power dir) (Fin 100))
                 else if radio = ''Go For'' then GoFor n (num_mul rpm dir) (last_input revolutions_in (Fin 0) es)
                 else GoTo n rpm (last_input position_in (Fin 0) es))]
            \<and> (\<forall>p. MotorReq (MotorSetPower n p) \<in> set (calls (outputs (motor_handle d n) motor_init es)) \<longrightarrow>
                 num_finite p \<and> \<bar>num_val p\<bar> \<le> 1)"
proof -
  have "motor_ok motor_init" using is_double_int [of 25] by (simp add: motor_ok_def motor_init_def)
  from motor_power.run_P [OF this assms] have ok: "motor_ok (final (motor_handle d n) motor_init es)"
    "list_all power_ok (outputs (motor_handle d n) motor_init es)" by simp_all
  have "form_ok es (final (motor_handle d n) motor_init es)"
    using motor_form.run_trace [of es d n] assms by blast
  then show ?thesis using ok(1) powers_of_calls [OF ok(2)]
    unfolding Let_def by (auto simp: form_ok_def motor_ok_def motor_ops)
qed

theorem motor_power_in_range_witness:
  "calls (snd (motor_handle True ''m'' (final (motor_handle True ''m'') motor_init
       [MtSetRpm (Fin 7), MtSetType ''Go For'', MtSetDirection ''Backwards'', MtSetRevolutions (Fin 3)]) MtRun)) =
     [MotorReq (GoFor ''m'' (num_mul (Fin 7) (Fin (- 1))) (Fin 3))]"
proof -
  have "list_all motor_input_ok [MtSetRpm (Fin 7), MtSetType ''Go For'', MtSetDirection ''Backwards'', MtSetRevolutions (Fin 3)]"
    by simp
  from motor_power_in_range [OF this, of True "''m''"] show ?thesis
    by (simp add: Let_def last_input_def map_filter_simps del: motor_handle.simps run.simps)
qed

text \<open>
  Rounding to two decimals leaves numbers of two decimals alone, in double arithmetic and up to
  \<open>2 ^ 50 / 100\<close>: what an edit form shows is what it sends.
\<close>

theorem roundTo2Decimals_stable:
  "\<bar>k\<bar> \<le> 2 ^ 50 \<Longrightarrow> roundTo2Decimals (num_of (of_int k / 100)) = num_of (of_int k / 100)"
  by (rule roundTo2Decimals_grid)

theorem roundTo2Decimals_stable_witness:
  "roundTo2Decimals (num_of (of_int 1010 / 100)) = num_of (of_int 1010 / 100)"
  using roundTo2Decimals_stable [of 1010] by simp

text \<open>
  A gantry step sends the positions of all axes, each as last reported except the stepped axis,
  which moves by the amount; the list has one entry per axis.
\<close>

theorem gantry_step_moves_one_axis:
  assumes "axis < length ps"
    and "fixGantryStatus (Obj o') = Inr st"
    and "ofield o' ''positions_mm'' = Arr (map Num ps)" and "ofield o' ''lengths_mm'' = Arr ls"
  shows "gantry_increment n st axis amount =
    [Call (GantryReq (GantryMoveToPosition n (map Num (ps[axis := num_add (ps ! axis) amount]))))]"
proof -
  have "mapE (\<lambda>i. Inr \<lparr>gp_axis = i, gp_pos = (if i < length ps then map Num ps ! i else Undefined),
          gp_length = (if i < length ls then ls ! i else Undefined)\<rparr>) [0..<length ps] = Inr (gs_parts st)"
    and len: "length ls = length ps"
    using assms(2-) by (auto simp: fixGantryStatus_def get_prop_Obj split: if_splits)
  then have parts: "gs_parts st = map (\<lambda>i. \<lparr>gp_axis = i, gp_pos = (if i < length ps then map Num ps ! i else Undefined),
          gp_length = (if i < length ls then ls ! i else Undefined)\<rparr>) [0..<length ps]"
    by simp
  have "map gp_pos (gs_parts st) = map Num ps"
    unfolding parts by (rule nth_equalityI) simp_all
  then show ?thesis using assms(1)
    by (simp add: gantry_increment_def arr_set_def arr_get_def map_update)
qed

theorem gantry_step_moves_one_axis_witness:
  "gantry_increment ''g'' \<lparr>gs_parts = [\<lparr>gp_axis = 0, gp_pos = Num (Fin 5), gp_length = Num (Fin 9)\<rparr>],
      gs_is_moving = Bool False\<rparr> 0 (Fin 10) =
    [Call (GantryReq (GantryMoveToPosition ''g'' [Num (num_add (Fin 5) (Fin 10))]))]"
  using gantry_step_moves_one_axis [of 0 "[Fin 5]"
      "[(''lengths_mm'', Arr [Num (Fin 9)]), (''positions_mm'', Arr [Num (Fin 5)])]"
      "\<lparr>gs_parts = [\<lparr>gp_axis = 0, gp_pos = Num (Fin 5), gp_length = Num (Fin 9)\<rparr>], gs_is_moving = Bool False\<rparr>"
      "[Num (Fin 9)]" "''g''" "Fin 10"]
  by (simp add: fixGantryStatus_def get_prop_Obj ofield_def del: num_add.simps)

text \<open>
  The board's duty cycle: typing the printed form of a number sends that number over 100, an empty
  or wordy input sends NaN, and a failed read shows the error and keeps the message on screen.
\<close>

theorem board_pwm_text:
  assumes "num_ok x" and "x \<noteq> NegZero"
  shows "setPWM d n (s\<lparr>bd_pwm := num_to_string x\<rparr>) =
           logged d (BoardReq (SetPWM n (bd_setPin s) (num_div x (Fin 100))))
    \<and> setPWMFrequency d n (s\<lparr>bd_pwmFrequency := num_to_string x\<rparr>) =
           logged d (BoardReq (SetPWMFrequency n (bd_setPin s) x))
    \<and> setPWM d n (s\<lparr>bd_pwm := []\<rparr>) = logged d (BoardReq (SetPWM n (bd_setPin s) NaN))
    \<and> board_handle d n s (BdGotPWM (Inl e)) = (s, [ToastError (err_message e)])"
proof -
  have "parseFloat [] = NaN" by code_simp
  then show ?thesis
    using parseFloat_show [OF assms(1)] assms(2) by (simp add: setPWM_def setPWMFrequency_def read_done_def)
qed

theorem board_pwm_text_witness:
  "setPWM False ''b'' (board_init\<lparr>bd_pwm := num_to_string (Fin 50)\<rparr>) =
     [Call (BoardReq (SetPWM ''b'' [] (num_div (Fin 50) (Fin 100))))]"
proof -
  have "num_ok (Fin 50)" using is_double_int [of 50] by simp
  from board_pwm_text [OF this, of False "''b''" board_init] show ?thesis
    by (simp add: board_init_def logged_def rcLogConditionally_def del: num_to_string.simps num_div.simps)
qed

text \<open>
  The interrupt table names the board in every row, whatever the interrupts are called; the analog
  table names each analog.
\<close>

theorem interrupt_table_names:
  "(\<forall>m. case interrupt_rows n m of Inl e \<Rightarrow> True | Inr rows \<Rightarrow> map fst rows = replicate (length m) n)
   \<and> (\<forall>m. case analog_rows m of Inl e \<Rightarrow> True | Inr rows \<Rightarrow> map fst rows = map fst m)"
proof (intro conjI allI)
  fix m
  show "case interrupt_rows n m of Inl e \<Rightarrow> True | Inr rows \<Rightarrow> map fst rows = replicate (length m) n"
  proof (cases "interrupt_rows n m")
    case (Inr rows)
    then have "map fst rows = map (\<lambda>_. n) m" unfolding interrupt_rows_def by (rule mapE_map) auto
    then show ?thesis using Inr by (simp add: map_replicate_const)
  qed simp
next
  fix m
  show "case analog_rows m of Inl e \<Rightarrow> True | Inr rows \<Rightarrow> map fst rows = map fst m"
  proof (cases "analog_rows m")
    case (Inr rows)
    then have "map fst rows = map fst m" unfolding analog_rows_def by (rule mapE_map) auto
    then show ?thesis using Inr by simp
  qed simp
qed

text \<open>
  The message of an answered read names the pin that is in the input when the answer comes, not the
  one that was asked about: edit the input in between, and the level of one pin is shown for another.
\<close>

theorem board_answer_names_typed_pin:
  "Call (BoardReq (GetGPIO n a)) \<in> set (outputs (board_handle d n) s [BdGetPin a, BdGetGPIO])
   \<and> bd_getPinMessage (final (board_handle d n) s ([BdGetPin a, BdGetGPIO] @ es @ [BdGetPin b, BdGotGPIO (Inr high)])) =
       ''Pin: '' @ b @ '' is '' @ (if high then ''high'' else ''low'')"
  by (simp add: run_append run_Cons getGPIO_def logged_def read_done_def getGPIO_message_def del: run.simps(2))

end
