(* ===== verification/Arm.thy ===== *)
theory Arm
  imports Actuators
begin

text \<open>
  The arm panel \<open>components/arm.vue\<close>. The joint list of the raw status is edited in place: the
  panel's requests and the application's copy of the status share one array, so the raw status is
  part of the state here and a status update replaces it. Values typed into the edit form are
  strings. An exception leaves the handler and changes nothing.
\<close>

section \<open>Poses by field name\<close>

text \<open>\<open>newPose[`set${f}`](v)\<close>: calling a setter that does not exist raises.\<close>

definition pose_set :: "string \<Rightarrow> jsval \<Rightarrow> pose \<Rightarrow> pose throws" where
  "pose_set f v p =
     (if f = ''X'' then Inr (p\<lparr>p_x := v\<rparr>)
      else if f = ''Y'' then Inr (p\<lparr>p_y := v\<rparr>)
      else if f = ''Z'' then Inr (p\<lparr>p_z := v\<rparr>)
      else if f = ''OX'' then Inr (p\<lparr>p_o_x := v\<rparr>)
      else if f = ''OY'' then Inr (p\<lparr>p_o_y := v\<rparr>)
      else if f = ''OZ'' then Inr (p\<lparr>p_o_z := v\<rparr>)
      else if f = ''Theta'' then Inr (p\<lparr>p_theta := v\<rparr>)
      else Inl TypeError)"

text \<open>\<open>newPose[`get${f}`]()\<close>: the getters convert to a number.\<close>

definition pose_get :: "string \<Rightarrow> pose \<Rightarrow> jsnum throws" where
  "pose_get f p =
     (if f = ''X'' then Inr (val_to_num (p_x p))
      else if f = ''Y'' then Inr (val_to_num (p_y p))
      else if f = ''Z'' then Inr (val_to_num (p_z p))
      else if f = ''OX'' then Inr (val_to_num (p_o_x p))
      else if f = ''OY'' then Inr (val_to_num (p_o_y p))
      else if f = ''OZ'' then Inr (val_to_num (p_o_z p))
      else if f = ''Theta'' then Inr (val_to_num (p_theta p))
      else Inl TypeError)"

fun foldE :: "('a \<Rightarrow> 'b \<Rightarrow> 'b throws) \<Rightarrow> 'a list \<Rightarrow> 'b \<Rightarrow> 'b throws" where
  "foldE f [] b = Inr b"
| "foldE f (x # xs) b = bindE (f x b) (foldE f xs)"

section \<open>State\<close>

record arm_edit =
  ed_pos_pieces :: "pos_piece list"
  ed_joint_pieces :: "joint_piece list"

record arm_state =
  ar_toggle :: "(string \<times> arm_edit) list"
  ar_status :: "arm_status option"
  ar_raw :: jsval

definition arm_init :: arm_state where
  "arm_init = \<lparr>ar_toggle = [], ar_status = None, ar_raw = Undefined\<rparr>"

text \<open>
  \<open>rawStatus.joint_positions.values\<close>, and the raw status with that array's contents replaced. A
  value that is not an array is outside of the status format; reading it raises here.
\<close>

definition raw_joints :: "jsval \<Rightarrow> jsval list throws" where
  "raw_joints raw =
     bindE (get_prop raw ''joint_positions'') (\<lambda>jp.
     bindE (get_prop jp ''values'') (\<lambda>v. case v of Arr xs \<Rightarrow> Inr xs | _ \<Rightarrow> Inl TypeError))"

fun set_field :: "string \<Rightarrow> jsval \<Rightarrow> jsval \<Rightarrow> jsval" where
  "set_field k v (Obj ps) = Obj (AList.update k v ps)"
| "set_field k v w = w"

definition set_joints :: "jsval list \<Rightarrow> jsval \<Rightarrow> jsval" where
  "set_joints xs raw =
     (case get_prop raw ''joint_positions'' of
        Inl e \<Rightarrow> raw
      | Inr jp \<Rightarrow> set_field ''joint_positions'' (set_field ''values'' (Arr xs) jp) raw)"

section \<open>Operations\<close>

text \<open>Each returns the new state and the request, or raises.\<close>

type_synonym arm_result = "(arm_state \<times> effect list) throws"

definition arm_stop :: "string \<Rightarrow> effect list" where
  "arm_stop name = [Call (ArmReq (ArmStop name))]"

definition get_edit :: "string \<Rightarrow> arm_state \<Rightarrow> arm_edit throws" where
  "get_edit name s = (case map_of (ar_toggle s) name of None \<Rightarrow> Inl TypeError | Some ed \<Rightarrow> Inr ed)"

definition armModifyAllDoEndPosition :: "string \<Rightarrow> arm_state \<Rightarrow> arm_result" where
  "armModifyAllDoEndPosition name s =
     bindE (get_edit name s) (\<lambda>ed.
     bindE (foldE (\<lambda>piece. pose_set (snd (pp_endPosition piece)) (pp_endPositionValue piece))
              (ed_pos_pieces ed) new_Pose) (\<lambda>newPose.
     Inr (s\<lparr>ar_toggle := AList.delete name (ar_toggle s)\<rparr>,
          [Call (ArmReq (ArmMoveToPosition name newPose))])))"

definition armModifyAllCancel :: "string \<Rightarrow> arm_state \<Rightarrow> arm_state" where
  "armModifyAllCancel name s = s\<lparr>ar_toggle := AList.delete name (ar_toggle s)\<rparr>"

text \<open>The loop runs while both the pieces and the (possibly growing) list last.\<close>

fun apply_joints :: "nat \<Rightarrow> joint_piece list \<Rightarrow> jsval list \<Rightarrow> jsval list" where
  "apply_joints i [] xs = xs"
| "apply_joints i (p # ps) xs =
     (if i < length xs then apply_joints (Suc i) ps (arr_set xs (jp_joint p) (jp_jointValue p)) else xs)"

definition armModifyAllDoJoint :: "string \<Rightarrow> arm_state \<Rightarrow> arm_result" where
  "armModifyAllDoJoint name s =
     bindE (raw_joints (ar_raw s)) (\<lambda>newList.
     bindE (get_edit name s) (\<lambda>ed.
     let xs = apply_joints 0 (ed_joint_pieces ed) newList
     in Inr (s\<lparr>ar_raw := set_joints xs (ar_raw s), ar_toggle := AList.delete name (ar_toggle s)\<rparr>,
             [Call (ArmReq (MoveToJointPositions name xs))])))"

definition adjusted_amount :: "string \<Rightarrow> jsnum \<Rightarrow> jsnum" where
  "adjusted_amount getterSetter amount =
     (if take 1 getterSetter = ''o'' \<or> take 1 getterSetter = ''O'' then num_div amount (Fin 100) else amount)"

definition armEndPositionInc :: "string \<Rightarrow> string \<Rightarrow> jsnum \<Rightarrow> arm_state \<Rightarrow> arm_result" where
  "armEndPositionInc name getterSetter amount s =
     bindE (get_prop (ar_raw s) ''end_position'') (\<lambda>old.
     bindE (foldE (\<lambda>fs p. bindE (get_prop old (fst fs)) (\<lambda>v. pose_set (snd fs) (js_or v (Num (Fin 0))) p))
              fieldSetters new_Pose) (\<lambda>p.
     bindE (pose_get getterSetter p) (\<lambda>x.
     bindE (pose_set getterSetter (Num (num_add x (adjusted_amount getterSetter amount))) p) (\<lambda>newPose.
     Inr (s, [Call (ArmReq (ArmMoveToPosition name newPose))])))))"

definition send_joints :: "string \<Rightarrow> jsval list \<Rightarrow> arm_state \<Rightarrow> arm_result" where
  "send_joints name xs s =
     Inr (s\<lparr>ar_raw := set_joints xs (ar_raw s)\<rparr>, [Call (ArmReq (MoveToJointPositions name xs))])"

definition armJointInc :: "string \<Rightarrow> nat \<Rightarrow> jsnum \<Rightarrow> arm_state \<Rightarrow> arm_result" where
  "armJointInc name j amount s =
     bindE (raw_joints (ar_raw s)) (\<lambda>newList.
     send_joints name (arr_set newList j (js_add (arr_get newList j) (Num amount))) s)"

definition armHome :: "string \<Rightarrow> arm_state \<Rightarrow> arm_result" where
  "armHome name s =
     bindE (raw_joints (ar_raw s)) (\<lambda>newList.
     send_joints name (map (\<lambda>_. Num (Fin 0)) newList) s)"

definition armModifyAll :: "string \<Rightarrow> arm_state \<Rightarrow> arm_result" where
  "armModifyAll name s =
     (case ar_status s of
        None \<Rightarrow> Inl TypeError
      | Some arm \<Rightarrow>
          Inr (s\<lparr>ar_toggle := AList.update name
                 \<lparr>ed_pos_pieces = map (\<lambda>p. p\<lparr>pp_endPositionValue :=
                      Num (roundTo2Decimals (val_to_num (pp_endPositionValue p)))\<rparr>) (as_pos_pieces arm),
                  ed_joint_pieces = map (\<lambda>p. p\<lparr>jp_jointValue :=
                      Num (roundTo2Decimals (val_to_num (jp_jointValue p)))\<rparr>) (as_joint_pieces arm)\<rparr>
                 (ar_toggle s)\<rparr>, []))"

text \<open>Typing into the inputs of the edit form.\<close>

definition edit_pos :: "string \<Rightarrow> nat \<Rightarrow> string \<Rightarrow> arm_state \<Rightarrow> arm_state" where
  "edit_pos name i v s =
     (case map_of (ar_toggle s) name of
        None \<Rightarrow> s
      | Some ed \<Rightarrow> s\<lparr>ar_toggle := AList.update name
          (ed\<lparr>ed_pos_pieces := (ed_pos_pieces ed)
             [i := ((ed_pos_pieces ed) ! i)\<lparr>pp_endPositionValue := Str v\<rparr>]\<rparr>) (ar_toggle s)\<rparr>)"

definition edit_joint :: "string \<Rightarrow> nat \<Rightarrow> string \<Rightarrow> arm_state \<Rightarrow> arm_state" where
  "edit_joint name i v s =
     (case map_of (ar_toggle s) name of
        None \<Rightarrow> s
      | Some ed \<Rightarrow> s\<lparr>ar_toggle := AList.update name
          (ed\<lparr>ed_joint_pieces := (ed_joint_pieces ed)
             [i := ((ed_joint_pieces ed) ! i)\<lparr>jp_jointValue := Str v\<rparr>]\<rparr>) (ar_toggle s)\<rparr>)"

section \<open>The panel\<close>

datatype arm_event =
    ArStop
  | ArEndPositionInc string jsnum
  | ArJointInc nat jsnum
  | ArHome
  | ArModifyAll
  | ArEditPos nat string
  | ArEditJoint nat string
  | ArGoToEndPosition
  | ArGoToJoints
  | ArCancel
  | ArStatus jsval "arm_status option"     \<comment> \<open>new props from the application\<close>
  | ArSettled "service_error option"

definition settle :: "arm_state \<Rightarrow> arm_result \<Rightarrow> arm_state \<times> effect list" where
  "settle s r = (case r of Inl e \<Rightarrow> (s, [Uncaught e]) | Inr x \<Rightarrow> x)"

fun arm_handle :: "string \<Rightarrow> (arm_state, arm_event, effect) handler" where
  "arm_handle n s ArStop = (s, arm_stop n)"
| "arm_handle n s (ArEndPositionInc f a) = settle s (armEndPositionInc n f a s)"
| "arm_handle n s (ArJointInc j a) = settle s (armJointInc n j a s)"
| "arm_handle n s ArHome = settle s (armHome n s)"
| "arm_handle n s ArModifyAll = settle s (armModifyAll n s)"
| "arm_handle n s (ArEditPos i v) = (edit_pos n i v s, [])"
| "arm_handle n s (ArEditJoint i v) = (edit_joint n i v s, [])"
| "arm_handle n s ArGoToEndPosition = settle s (armModifyAllDoEndPosition n s)"
| "arm_handle n s ArGoToJoints = settle s (armModifyAllDoJoint n s)"
| "arm_handle n s ArCancel = (armModifyAllCancel n s, [])"
| "arm_handle n s (ArStatus raw st) = (s\<lparr>ar_raw := raw, ar_status := st\<rparr>, [])"
| "arm_handle n s (ArSettled err) = (s, displayError err)"

section \<open>Lemmas\<close>

lemmas arm_ops = armEndPositionInc_def armJointInc_def armHome_def armModifyAll_def send_joints_def
  armModifyAllDoEndPosition_def armModifyAllDoJoint_def settle_def

interpretation arm: panel arm_handle
proof unfold_locales
  fix o' n s e
  have bind: "(\<And>a x. f a = Inr x \<Longrightarrow> list_all (addressed_to n) (snd x)) \<Longrightarrow>
      list_all (addressed_to n) (snd (settle s (bindE m f)))" for m :: "'b throws" and f
    by (cases m) (auto simp: settle_def split: sum.splits)
  have "list_all (addressed_to n) (snd (arm_handle n s e))"
    by (cases e) (auto simp: arm_ops arm_stop_def Let_def list_all_iff split: sum.splits option.splits)
  then show "o' \<in> set (snd (arm_handle n s e)) \<Longrightarrow> addressed_to n o'" by (simp add: list_all_iff)
qed

lemma arr_case: "(case v of Arr xs \<Rightarrow> Inr xs | _ \<Rightarrow> Inl TypeError) = Inr ys \<longleftrightarrow> v = Arr ys"
  by (cases v) simp_all

lemma raw_joints_cases:
  assumes "raw_joints raw = Inr xs"
  obtains o' jo where "raw = Obj o'" "map_of o' ''joint_positions'' = Some (Obj jo)"
    "map_of jo ''values'' = Some (Arr xs)"
proof -
  from assms obtain jp v where jp: "get_prop raw ''joint_positions'' = Inr jp"
    and v: "get_prop jp ''values'' = Inr v" and x: "v = Arr xs"
    by (auto simp: raw_joints_def arr_case)
  from v x obtain jo where jo: "jp = Obj jo" "map_of jo ''values'' = Some (Arr xs)"
    by (cases jp) (auto simp: ofield_def or_undefined_def split: option.splits)
  from jp jo(1) obtain o' where "raw = Obj o'" "map_of o' ''joint_positions'' = Some (Obj jo)"
    by (cases raw) (auto simp: ofield_def or_undefined_def split: option.splits)
  with jo that show thesis by blast
qed

lemma raw_joints_set [simp]:
  assumes "raw_joints raw = Inr xs"
  shows "raw_joints (set_joints ys raw) = Inr ys"
  by (rule raw_joints_cases [OF assms])
    (simp add: raw_joints_def set_joints_def get_prop_Obj ofield_def dict_simps)

lemma apply_joints_all:
  assumes "\<And>k. k < length ps \<Longrightarrow> jp_joint (ps ! k) = i + k" and "i + length ps = length xs"
  shows "apply_joints i ps xs = take i xs @ map jp_jointValue ps"
  using assms
proof (induction ps arbitrary: i xs)
  case (Cons p ps)
  have p: "jp_joint p = i" using Cons.prems(1) [of 0] by simp
  have i: "i < length xs" using Cons.prems(2) by simp
  have "apply_joints (Suc i) ps (xs[i := jp_jointValue p]) =
      take (Suc i) (xs[i := jp_jointValue p]) @ map jp_jointValue ps"
  proof (rule Cons.IH)
    fix k assume "k < length ps"
    then show "jp_joint (ps ! k) = Suc i + k" using Cons.prems(1) [of "Suc k"] by simp
  qed (use Cons.prems(2) in simp)
  moreover have "take (Suc i) (xs[i := jp_jointValue p]) = take i xs @ [jp_jointValue p]"
    using i by (simp add: take_Suc_conv_app_nth)
  ultimately show ?case using i p by (simp add: arr_set_def)
qed simp

text \<open>The joint pieces of a fixed status number the joints in order.\<close>

lemma fixArmStatus_joints:
  assumes "fixArmStatus raw = Inr st" "raw_joints raw = Inr xs"
  shows "as_joint_pieces st = map (\<lambda>j. \<lparr>jp_joint = j, jp_jointValue = js_or (xs ! j) num0\<rparr>) [0..<length xs]"
proof -
  obtain o' jo where r: "raw = Obj o'" "map_of o' ''joint_positions'' = Some (Obj jo)"
    "map_of jo ''values'' = Some (Arr xs)" using raw_joints_cases [OF assms(2)] .
  have "mapE (\<lambda>j. bindE (get_index (Arr xs) j) (\<lambda>v. Inr \<lparr>jp_joint = j, jp_jointValue = js_or v num0\<rparr>)) [0..<length xs] =
      Inr (map (\<lambda>j. \<lparr>jp_joint = j, jp_jointValue = js_or (xs ! j) num0\<rparr>) [0..<length xs])"
    by (rule mapE_Inr) simp
  then show ?thesis using assms(1) r by (auto simp: fixArmStatus_def get_prop_Obj ofield_def)
qed

definition pose_field :: "string \<Rightarrow> pose \<Rightarrow> jsval" where
  "pose_field f p =
     (if f = ''X'' then p_x p else if f = ''Y'' then p_y p else if f = ''Z'' then p_z p
      else if f = ''OX'' then p_o_x p else if f = ''OY'' then p_o_y p else if f = ''OZ'' then p_o_z p
      else p_theta p)"

abbreviation pose_fields :: "string set" where
  "pose_fields \<equiv> {''X'', ''Y'', ''Z'', ''Theta'', ''OX'', ''OY'', ''OZ''}"

lemma fieldSetters_fields: "snd ` set fieldSetters = pose_fields"
  by (simp add: fieldSetters_def)

lemma pose_get_field: "f \<in> pose_fields \<Longrightarrow> pose_get f p = Inr (val_to_num (pose_field f p))"
  by (auto simp: pose_get_def pose_field_def)

lemma pose_set_field:
  "f \<in> pose_fields \<Longrightarrow> \<exists>p'. pose_set f v p = Inr p' \<and>
     (\<forall>g \<in> pose_fields. pose_field g p' = (if g = f then v else pose_field g p))"
  by (elim insertE emptyE; simp add: pose_set_def pose_field_def)

lemma reported_pose:
  assumes "\<not> nullish ep"
  shows "\<exists>p. foldE (\<lambda>fs p. bindE (get_prop ep (fst fs)) (\<lambda>v. pose_set (snd fs) (js_or v num0) p))
         fieldSetters new_Pose = Inr p
     \<and> list_all (\<lambda>(k, g). pose_field g p = js_or (prop_of ep k) num0) fieldSetters"
  using assms by (simp add: fieldSetters_def get_prop_cases pose_set_def pose_field_def)

text \<open>The step on a raw status with an end position.\<close>

lemma end_position_step:
  assumes f: "f \<in> pose_fields" and "\<not> nullish (ar_raw s)" and "\<not> nullish (prop_of (ar_raw s) ''end_position'')"
  obtains p p' where "armEndPositionInc n f a s = Inr (s, [Call (ArmReq (ArmMoveToPosition n p'))])"
    and "list_all (\<lambda>(k, g). pose_field g p = js_or (prop_of (prop_of (ar_raw s) ''end_position'') k) num0) fieldSetters"
    and "\<forall>g \<in> pose_fields. pose_field g p' =
      (if g = f then Num (num_add (val_to_num (pose_field f p)) (adjusted_amount f a)) else pose_field g p)"
proof -
  let ?ep = "prop_of (ar_raw s) ''end_position''"
  obtain p where p: "foldE (\<lambda>fs p. bindE (get_prop ?ep (fst fs)) (\<lambda>v. pose_set (snd fs) (js_or v num0) p))
       fieldSetters new_Pose = Inr p" "list_all (\<lambda>(k, g). pose_field g p = js_or (prop_of ?ep k) num0) fieldSetters"
    using reported_pose [OF assms(3)] by blast
  obtain p' where p': "pose_set f (Num (num_add (val_to_num (pose_field f p)) (adjusted_amount f a))) p = Inr p'"
    "\<forall>g \<in> pose_fields. pose_field g p' = (if g = f then Num (num_add (val_to_num (pose_field f p)) (adjusted_amount f a)) else pose_field g p)"
    using pose_set_field [OF f] by blast
  have "get_prop (ar_raw s) ''end_position'' = Inr ?ep" using assms(2) by (simp add: get_prop_cases)
  then have "armEndPositionInc n f a s = Inr (s, [Call (ArmReq (ArmMoveToPosition n p'))])"
    unfolding armEndPositionInc_def using p(1) p'(1) pose_get_field [OF f, of p] by (simp del: get_prop.simps)
  with p(2) p'(2) that show thesis by blast
qed

lemma end_position_raises:
  assumes "nullish (ar_raw s) \<or> nullish (prop_of (ar_raw s) ''end_position'')"
  shows "armEndPositionInc n f a s = Inl TypeError"
  using assms by (auto simp: armEndPositionInc_def fieldSetters_def get_prop_cases)

text \<open>A status that could be fixed has an end position, and its pieces are the values shown.\<close>

lemma fixArmStatus_position:
  assumes "fixArmStatus raw = Inr st"
  shows "\<not> nullish raw \<and> \<not> nullish (prop_of raw ''end_position'') \<and>
    map pp_endPositionValue (as_pos_pieces st) =
      map (\<lambda>(k, g). js_or (prop_of (prop_of raw ''end_position'') k) num0) fieldSetters"
  using assms
  by (auto simp: fixArmStatus_def fieldSetters_def get_prop_cases split: if_splits)

lemma adjusted_amount_fields:
  "f \<in> pose_fields \<Longrightarrow>
   adjusted_amount f a = (if f \<in> {''OX'', ''OY'', ''OZ''} then num_div a (Fin 100) else a)"
  by (elim insertE emptyE; simp add: adjusted_amount_def)

section \<open>Properties\<close>

text \<open>
  C37. Whatever the raw status holds, a step of one coordinate sends the reported pose (zero for what is
  not reported) with that coordinate alone changed, by the amount for positions and \<open>Theta\<close> and by a
  hundredth of it for the orientation vector; only without a raw status, or without an end position in
  it, the handler raises and sends nothing. A status that could be fixed has an end position, and what it
  displays is the pose the step starts from.
\<close>

theorem arm_end_position_step:
  assumes "f \<in> snd ` set fieldSetters"
  shows "let raw = ar_raw s; ep = prop_of raw ''end_position''; r = arm_handle n s (ArEndPositionInc f a)
         in (if nullish raw \<or> nullish ep then r = (s, [Uncaught TypeError])
             else \<exists>p. r = (s, [Call (ArmReq (ArmMoveToPosition n p))])
               \<and> list_all (\<lambda>(k, g). pose_field g p =
                    (let v = js_or (prop_of ep k) num0
                     in if g = f then Num (num_add (val_to_num v)
                          (if f \<in> {''OX'', ''OY'', ''OZ''} then num_div a (Fin 100) else a)) else v)) fieldSetters)
            \<and> (\<forall>st. fixArmStatus raw = Inr st \<longrightarrow> \<not> nullish raw \<and> \<not> nullish ep \<and>
                 map pp_endPositionValue (as_pos_pieces st) = map (\<lambda>(k, g). js_or (prop_of ep k) num0) fieldSetters)"
proof -
  define raw ep where "raw = ar_raw s" and "ep = prop_of raw ''end_position''"
  have f: "f \<in> pose_fields" using assms by (simp only: fieldSetters_fields)
  have "\<exists>p. arm_handle n s (ArEndPositionInc f a) = (s, [Call (ArmReq (ArmMoveToPosition n p))])
      \<and> list_all (\<lambda>(k, g). pose_field g p = (let v = js_or (prop_of ep k) num0
           in if g = f then Num (num_add (val_to_num v) (adjusted_amount f a)) else v)) fieldSetters"
    if present: "\<not> nullish raw" "\<not> nullish ep"
  proof -
    obtain p p' where e: "armEndPositionInc n f a s = Inr (s, [Call (ArmReq (ArmMoveToPosition n p'))])"
      and p: "list_all (\<lambda>(k, g). pose_field g p = js_or (prop_of ep k) num0) fieldSetters"
      and p': "\<forall>g \<in> pose_fields. pose_field g p' =
        (if g = f then Num (num_add (val_to_num (pose_field f p)) (adjusted_amount f a)) else pose_field g p)"
      using end_position_step [OF f] present unfolding raw_def ep_def by metis
    have "pose_field g p' = (let v = js_or (prop_of ep k) num0
        in if g = f then Num (num_add (val_to_num v) (adjusted_amount f a)) else v)" if "(k, g) \<in> set fieldSetters" for k g
    proof -
      have "g \<in> snd ` set fieldSetters" using that by (rule image_eqI [rotated]) simp
      then have "g \<in> pose_fields" unfolding fieldSetters_fields .
      from bspec [OF p' this] show ?thesis using p that by (cases "g = f") (auto simp: list_all_iff Let_def)
    qed
    then show ?thesis using e unfolding list_all_iff by (intro exI [of _ p']) (auto simp: settle_def)
  qed
  then show ?thesis
    using end_position_raises [of s n f a] fixArmStatus_position [of raw]
    unfolding Let_def raw_def [symmetric] ep_def [symmetric] adjusted_amount_fields [OF f]
    by (auto simp: settle_def raw_def [symmetric] ep_def [symmetric])
qed

theorem arm_end_position_step_witness:
  "let raw = Obj [(''is_moving'', Bool True), (''end_position'', Obj [(''x'', Num (Fin 3))]),
       (''joint_positions'', Obj [(''values'', Arr [])])]
   in \<exists>p. snd (arm_handle ''a'' (arm_init\<lparr>ar_raw := raw\<rparr>) (ArEndPositionInc ''OZ'' (Fin 10))) =
         [Call (ArmReq (ArmMoveToPosition ''a'' p))] \<and> pose_field ''X'' p = Num (Fin 3)"
proof -
  let ?raw = "Obj [(''is_moving'', Bool True), (''end_position'', Obj [(''x'', Num (Fin 3))]),
       (''joint_positions'', Obj [(''values'', Arr [])])]"
  have "''OZ'' \<in> snd ` set fieldSetters" by (simp add: fieldSetters_def)
  from arm_end_position_step [OF this, of "arm_init\<lparr>ar_raw := ?raw\<rparr>" "''a''" "Fin 10"]
  obtain p where p: "snd (arm_handle ''a'' (arm_init\<lparr>ar_raw := ?raw\<rparr>) (ArEndPositionInc ''OZ'' (Fin 10))) =
        [Call (ArmReq (ArmMoveToPosition ''a'' p))]"
    and l: "list_all (\<lambda>(k, g). g = ''OZ'' \<or> pose_field g p = js_or (ofield [(''x'', Num (Fin 3))] k) num0) fieldSetters"
    by (auto simp: ofield_def list_all_iff Let_def simp del: arm_handle.simps split: if_splits)
  have "(''x'', ''X'') \<in> set fieldSetters" by (simp add: fieldSetters_def)
  with l have "pose_field ''X'' p = js_or (ofield [(''x'', Num (Fin 3))] ''x'') num0"
    by (fastforce simp: list_all_iff)
  then show ?thesis using p by (auto simp: ofield_def js_or_def num_truthy_def simp del: arm_handle.simps)
qed

text \<open>
  C38. Joint steps accumulate between status updates, since the panel steps the shared list in place:
  a second step of a joint starts from the first one's target, and homing sends a zero for every joint
  and leaves zeros in the list.
\<close>

theorem arm_joint_steps_accumulate:
  assumes "raw_joints (ar_raw s) = Inr (map Num xs)" and "j < length xs"
  shows "outputs (arm_handle n) s [ArJointInc j a, ArJointInc j b, ArHome, ArJointInc j b] =
    [Call (ArmReq (MoveToJointPositions n (map Num (xs[j := num_add (xs ! j) a])))),
     Call (ArmReq (MoveToJointPositions n (map Num (xs[j := num_add (num_add (xs ! j) a) b])))),
     Call (ArmReq (MoveToJointPositions n (replicate (length xs) (Num (Fin 0))))),
     Call (ArmReq (MoveToJointPositions n (map Num ((replicate (length xs) (Fin 0))[j := num_add (Fin 0) b]))))]"
proof -
  have step: "arm_handle n t (ArJointInc j c) =
      (t\<lparr>ar_raw := set_joints (map Num (ys[j := num_add (ys ! j) c])) (ar_raw t)\<rparr>,
       [Call (ArmReq (MoveToJointPositions n (map Num (ys[j := num_add (ys ! j) c]))))])"
    if "raw_joints (ar_raw t) = Inr (map Num ys)" "j < length ys" for t ys c
    using that by (simp add: armJointInc_def send_joints_def settle_def arr_set_def arr_get_def map_update)
  have home: "arm_handle n t ArHome =
      (t\<lparr>ar_raw := set_joints (map Num (replicate (length ys) (Fin 0))) (ar_raw t)\<rparr>,
       [Call (ArmReq (MoveToJointPositions n (replicate (length ys) (Num (Fin 0)))))])"
    if "raw_joints (ar_raw t) = Inr (map Num ys)" for t ys
    using that by (simp add: armHome_def send_joints_def settle_def map_replicate_const comp_def)
  define s1 where "s1 = s\<lparr>ar_raw := set_joints (map Num (xs[j := num_add (xs ! j) a])) (ar_raw s)\<rparr>"
  have r1: "raw_joints (ar_raw s1) = Inr (map Num (xs[j := num_add (xs ! j) a]))"
    using assms(1) by (simp add: s1_def)
  define s2 where "s2 = s1\<lparr>ar_raw := set_joints (map Num (xs[j := num_add (num_add (xs ! j) a) b])) (ar_raw s1)\<rparr>"
  have r2: "raw_joints (ar_raw s2) = Inr (map Num (xs[j := num_add (num_add (xs ! j) a) b]))"
    using r1 by (simp add: s2_def)
  define s3 where "s3 = s2\<lparr>ar_raw := set_joints (map Num (replicate (length xs) (Fin 0))) (ar_raw s2)\<rparr>"
  have r3: "raw_joints (ar_raw s3) = Inr (map Num (replicate (length xs) (Fin 0)))"
    using r2 by (simp add: s3_def)
  have h1: "arm_handle n s (ArJointInc j a) =
      (s1, [Call (ArmReq (MoveToJointPositions n (map Num (xs[j := num_add (xs ! j) a]))))])"
    using step [OF assms, of a] by (simp only: s1_def)
  have h2: "arm_handle n s1 (ArJointInc j b) =
      (s2, [Call (ArmReq (MoveToJointPositions n (map Num (xs[j := num_add (num_add (xs ! j) a) b]))))])"
    using step [OF r1, of b] assms(2) by (simp add: s2_def)
  have h3: "arm_handle n s2 ArHome =
      (s3, [Call (ArmReq (MoveToJointPositions n (replicate (length xs) (Num (Fin 0)))))])"
    using home [OF r2] by (simp add: s3_def)
  have h4: "snd (arm_handle n s3 (ArJointInc j b)) =
      [Call (ArmReq (MoveToJointPositions n (map Num ((replicate (length xs) (Fin 0))[j := num_add (Fin 0) b]))))]"
    using step [OF r3, of b] assms(2) by simp
  show ?thesis by (simp add: h1 h2 h3 h4 split_def Let_def del: arm_handle.simps)
qed

theorem arm_joint_steps_accumulate_witness:
  "let s = arm_init\<lparr>ar_raw := Obj [(''joint_positions'', Obj [(''values'', Arr (map Num [Fin 1, Fin 2]))])]\<rparr>
   in length (outputs (arm_handle ''a'') s [ArJointInc 1 (Fin 10), ArJointInc 1 (Fin 10), ArHome, ArJointInc 1 (Fin 10)]) = 4"
  using arm_joint_steps_accumulate [of "arm_init\<lparr>ar_raw := Obj [(''joint_positions'', Obj [(''values'', Arr (map Num [Fin 1, Fin 2]))])]\<rparr>"
      "[Fin 1, Fin 2]" 1 "''a''" "Fin 10" "Fin 10"]
  by (simp add: raw_joints_def ofield_def Let_def del: run.simps arm_handle.simps num_add.simps)

text \<open>
  The edit form end to end: opening it on a reported status and sending the joints without an edit
  commands every joint to its reported value rounded to two decimals (zero for a value that is not a
  number), and closes the form.
\<close>

theorem arm_modify_all_joints:
  assumes "fixArmStatus raw = Inr st" and "raw_joints raw = Inr (map Num xs)"
  shows "outputs (arm_handle n) s [ArStatus raw (Some st), ArModifyAll, ArGoToJoints] =
      [Call (ArmReq (MoveToJointPositions n
         (map (\<lambda>x. Num (roundTo2Decimals (if num_truthy x then x else Fin 0))) xs)))]
    \<and> map_of (ar_toggle (final (arm_handle n) s [ArStatus raw (Some st), ArModifyAll, ArGoToJoints])) n = None"
proof -
  define val where "val x = Num (roundTo2Decimals (if num_truthy x then x else Fin 0))" for x
  let ?ed = "map (\<lambda>p. p\<lparr>jp_jointValue := Num (roundTo2Decimals (val_to_num (jp_jointValue p)))\<rparr>) (as_joint_pieces st)"
  have ed: "?ed = map (\<lambda>j. \<lparr>jp_joint = j, jp_jointValue = val (xs ! j)\<rparr>) [0..<length xs]"
    unfolding fixArmStatus_joints [OF assms] by (simp add: val_def js_or_def)
  have "apply_joints 0 ?ed (map Num xs) = map jp_jointValue ?ed"
    unfolding ed using apply_joints_all [of "map (\<lambda>j. \<lparr>jp_joint = j, jp_jointValue = val (xs ! j)\<rparr>) [0..<length xs]" 0 "map Num xs"]
    by simp
  also have "\<dots> = map val xs" unfolding ed by (rule nth_equalityI) simp_all
  finally have aj: "apply_joints 0 ?ed (map Num xs) = map val xs" .
  show ?thesis using assms(2)
    by (simp add: armModifyAll_def armModifyAllDoJoint_def get_edit_def settle_def dict_simps Let_def
        aj val_def [symmetric] AList.delete_conv')
qed

theorem arm_modify_all_joints_witness:
  "let raw = Obj [(''end_position'', Obj []), (''joint_positions'', Obj [(''values'', Arr (map Num [Fin 3]))])]
   in \<exists>st. fixArmStatus raw = Inr st \<and>
       outputs (arm_handle ''a'') arm_init [ArStatus raw (Some st), ArModifyAll, ArGoToJoints] =
         [Call (ArmReq (MoveToJointPositions ''a'' [Num (roundTo2Decimals (Fin 3))]))]"
proof -
  let ?raw = "Obj [(''end_position'', Obj []), (''joint_positions'', Obj [(''values'', Arr (map Num [Fin 3]))])]"
  have "\<exists>st. fixArmStatus ?raw = Inr st"
    by (simp add: fixArmStatus_def fieldSetters_def ofield_def)
  then obtain st where st: "fixArmStatus ?raw = Inr st" ..
  have "raw_joints ?raw = Inr (map Num [Fin 3])" by (simp add: raw_joints_def ofield_def)
  from arm_modify_all_joints [OF st this, of "''a''" arm_init] st show ?thesis
    unfolding Let_def by (intro exI [of _ st] conjI) (simp_all add: num_truthy_def del: run.simps)
qed

end
