(* ===== verification/Gamepad.thy ===== *)
theory Gamepad
  imports Panel
begin

text \<open>
  The web gamepad \<open>components/gamepad.vue\<close>: it polls the browser's gamepad, turns the changes of its
  axes and buttons into input events with strictly increasing time stamps, and sends them while it is
  enabled. What the browser reports (its gamepads, the time) comes with each event; a time is what
  \<open>Timestamp.fromDate(new Date())\<close> returns. A pending \<open>setTimeout(tick)\<close> is counted.
\<close>

section \<open>State\<close>

record pad =
  pd_index :: nat
  pd_id :: string
  pd_connected :: bool
  pd_axes :: "jsnum list"
  pd_buttons :: "jsnum list"               \<comment> \<open>the buttons' values\<close>

type_synonym pads = "pad option list"      \<comment> \<open>\<open>navigator.getGamepads()\<close>\<close>

type_synonym ts = "int \<times> int"              \<comment> \<open>seconds, nanos\<close>

definition control_keys :: "string list" where
  "control_keys = [''X'', ''Y'', ''RX'', ''RY'', ''Z'', ''RZ'', ''Hat0X'', ''Hat0Y'', ''South'', ''East'', ''West'',
     ''North'', ''LT'', ''RT'', ''LThumb'', ''RThumb'', ''Select'', ''Start'', ''Menu'']"

record gp_state =
  gp_idx :: "nat option"
  gp_connectedPrev :: bool
  gp_enabled :: bool
  gp_cur :: "(string \<times> jsnum) list"
  gp_prev :: "(string \<times> jsnum) list"
  gp_lastError :: int
  gp_lastTS :: ts
  gp_timers :: nat                         \<comment> \<open>pending ticks\<close>

definition gp_init :: "int \<Rightarrow> ts \<Rightarrow> gp_state" where
  "gp_init now t = \<lparr>gp_idx = None, gp_connectedPrev = False, gp_enabled = False,
     gp_cur = map (\<lambda>k. (k, NaN)) control_keys, gp_prev = [], gp_lastError = now, gp_lastTS = t, gp_timers = 0\<rparr>"

section \<open>Sending\<close>

definition sendEvent :: "string \<Rightarrow> gp_state \<Rightarrow> ctrl_event \<Rightarrow> effect list" where
  "sendEvent name s newEvent =
     (if \<not> gp_enabled s then [] else [Call (InputReq (TriggerEvent name newEvent))])"

definition sendEvent_done :: "(service_error \<Rightarrow> bool) \<Rightarrow> service_error option \<Rightarrow> int \<Rightarrow> gp_state \<Rightarrow> gp_state \<times> effect list" where
  "sendEvent_done isError error now s =
     (case error of
        None \<Rightarrow> (s, [])
      | Some e \<Rightarrow>
          if isError e then (s, [])
          else if now - gp_lastError s > 1000 then (s\<lparr>gp_lastError := now\<rparr>, [ToastError (err_message e)])
          else (s, []))"

text \<open>
  The nanoseconds are counted up without a carry into the seconds; times are compared here, as in the
  code, by seconds first. Past a full second of nanoseconds that is not the order of instants.
\<close>

definition nextTS :: "ts \<Rightarrow> ts \<Rightarrow> ts" where
  "nextTS lastTS clock =
     (let nowTS = (if fst lastTS > fst clock \<or> (fst lastTS = fst clock \<and> snd lastTS > snd clock)
                   then lastTS else clock)
      in if fst nowTS = fst lastTS \<and> snd nowTS = snd lastTS then (fst nowTS, snd nowTS + 1) else nowTS)"

definition currentGamepad :: "gp_state \<Rightarrow> pads \<Rightarrow> pad option" where
  "currentGamepad s pads =
     (case gp_idx s of None \<Rightarrow> None | Some i \<Rightarrow> if i < length pads then pads ! i else None)"

definition pad_live :: "gp_state \<Rightarrow> pads \<Rightarrow> bool" where
  "pad_live s pads = (case currentGamepad s pads of None \<Rightarrow> False | Some p \<Rightarrow> pd_connected p)"

text \<open>The pattern \<open>/X|Y|Z$/\<close>: an X or a Y anywhere, or a Z at the end.\<close>

definition is_axis :: "string \<Rightarrow> bool" where
  "is_axis ctrl \<longleftrightarrow> CHR ''X'' \<in> set ctrl \<or> CHR ''Y'' \<in> set ctrl \<or> (ctrl \<noteq> [] \<and> last ctrl = CHR ''Z'')"

definition control_name :: "string \<Rightarrow> string" where
  "control_name ctrl = (if is_axis ctrl then ''Absolute'' @ ctrl else ''Button'' @ ctrl)"

text \<open>The loop of \<open>connectEvent\<close>: one nanosecond later for each control.\<close>

fun connect_loop :: "string \<Rightarrow> gp_state \<Rightarrow> bool \<Rightarrow> ts \<Rightarrow> string list \<Rightarrow> ts \<times> effect list" where
  "connect_loop name s con t [] = (t, [])"
| "connect_loop name s con t (ctrl # cs) =
     (let t' = (fst t, snd t + 1);
          os = sendEvent name s \<lparr>ce_seconds = fst t', ce_nanos = snd t',
                 ce_event = (if con then ''Connect'' else ''Disconnect''),
                 ce_control = control_name ctrl, ce_value = Fin 0\<rparr>;
          (t'', ps) = connect_loop name s con t' cs
      in (t'', os @ ps))"

definition connectEvent :: "string \<Rightarrow> bool \<Rightarrow> pads \<Rightarrow> ts \<Rightarrow> gp_state \<Rightarrow> gp_state \<times> effect list" where
  "connectEvent name con pads clock s =
     (if (con \<and> \<not> pad_live s pads) \<or> (\<not> con \<and> \<not> gp_connectedPrev s) then (s, [])
      else (let (t, os) = connect_loop name s con (nextTS (gp_lastTS s) clock) (map fst (gp_cur s))
            in (s\<lparr>gp_lastTS := t\<rparr>, os)))"

text \<open>\<open>value === prevStates[key] || (Number.isNaN(value) && Number.isNaN(prevStates[key]))\<close>.\<close>

definition unchanged :: "(string \<times> jsnum) list \<Rightarrow> string \<times> jsnum \<Rightarrow> bool" where
  "unchanged prev kv =
     (case map_of prev (fst kv) of
        None \<Rightarrow> False
      | Some p \<Rightarrow> num_eq (snd kv) p \<or> (snd kv = NaN \<and> p = NaN))"

definition change_event :: "ts \<Rightarrow> string \<times> jsnum \<Rightarrow> ctrl_event" where
  "change_event t kv =
     \<lparr>ce_seconds = fst t, ce_nanos = snd t,
      ce_event = (if snd kv = NaN then ''Disconnect'' else if is_axis (fst kv) then ''PositionChangeAbs''
                  else if num_truthy (snd kv) then ''ButtonPress'' else ''ButtonRelease''),
      ce_control = control_name (fst kv), ce_value = (if snd kv = NaN then Fin 0 else snd kv)\<rparr>"

fun change_loop :: "string \<Rightarrow> gp_state \<Rightarrow> ts \<Rightarrow> (string \<times> jsnum) list \<Rightarrow> ts \<times> effect list" where
  "change_loop name s t [] = (t, [])"
| "change_loop name s t (kv # kvs) =
     (if unchanged (gp_prev s) kv then change_loop name s t kvs
      else (let t' = (fst t, snd t + 1); os = sendEvent name s (change_event t' kv);
                (t'', ps) = change_loop name s t' kvs
            in (t'', os @ ps)))"

definition processEvents :: "string \<Rightarrow> bool \<Rightarrow> pads \<Rightarrow> ts \<Rightarrow> gp_state \<Rightarrow> gp_state \<times> effect list" where
  "processEvents name isConn pads clock s =
     (if \<not> isConn then
        (let s1 = s\<lparr>gp_cur := map (\<lambda>kv. (fst kv, NaN)) (gp_cur s)\<rparr>
         in if gp_connectedPrev s1
            then (let (s2, os) = connectEvent name False pads clock s1 in (s2\<lparr>gp_connectedPrev := False\<rparr>, os))
            else (s1, []))
      else
        (let (s1, os) = (if \<not> gp_connectedPrev s
                         then (let (s', os) = connectEvent name True pads clock s in (s'\<lparr>gp_connectedPrev := True\<rparr>, os))
                         else (s, []));
             (t, ps) = change_loop name s1 (nextTS (gp_lastTS s1) clock) (gp_cur s1)
         in (s1\<lparr>gp_lastTS := t\<rparr>, os @ ps)))"

section \<open>Reading the gamepad\<close>

definition checkVal :: "jsnum option \<Rightarrow> jsnum" where
  "checkVal val = (case val of None \<Rightarrow> NaN | Some x \<Rightarrow> if \<not> num_truthy x \<and> \<not> num_zero x then NaN else x)"

text \<open>
  The match of \<open>/^-?\d+(?:.\d{0,4})?/u\<close> at the start of a string without line breaks: an optional
  minus, digits, and if there is more, any one character with up to four digits after it.
\<close>

definition match_number :: "string \<Rightarrow> string option" where
  "match_number str =
     (let (m, r) = (case str of [] \<Rightarrow> ([], []) | c # r \<Rightarrow> if c = CHR ''-'' then ([c], r) else ([], str));
          ds = takeWhile is_digit r; r' = dropWhile is_digit r
      in if ds = [] then None
         else Some (m @ ds @ (case r' of [] \<Rightarrow> [] | c # r'' \<Rightarrow> c # take 4 (takeWhile is_digit r''))))"

definition gp_trunc :: "jsnum option \<Rightarrow> jsnum throws" where
  "gp_trunc val =
     (let checkedVal = checkVal val
      in if checkedVal = NaN then Inr checkedVal
         else (case match_number (num_to_string checkedVal) of
                 None \<Rightarrow> Inl TypeError
               | Some m \<Rightarrow> Inr (str_to_num m)))"

definition list_get :: "'a list \<Rightarrow> nat \<Rightarrow> 'a option" where
  "list_get xs i = (if i < length xs then Some (xs ! i) else None)"

text \<open>What each control reads, in the order of the assignments: an axis, a button, or the difference of two buttons.\<close>

definition control_inputs :: "pad \<Rightarrow> (string \<times> jsnum option) list" where
  "control_inputs p =
     (let ax = list_get (pd_axes p); bt = list_get (pd_buttons p);
          hat = (\<lambda>i j. Some (num_add (num_mul (checkVal (bt i)) (Fin (- 1))) (checkVal (bt j))))
      in [(''X'', ax 0), (''Y'', ax 1), (''RX'', ax 2), (''RY'', ax 3), (''Z'', bt 6), (''RZ'', bt 7),
          (''Hat0X'', hat 14 15), (''Hat0Y'', hat 12 13), (''South'', bt 0), (''East'', bt 1), (''West'', bt 2),
          (''North'', bt 3), (''LT'', bt 4), (''RT'', bt 5), (''Select'', bt 8), (''Start'', bt 9),
          (''LThumb'', bt 10), (''RThumb'', bt 11), (''Menu'', bt 16)])"

text \<open>The assignments one by one: an exception leaves those made before it.\<close>

fun read_pad :: "(string \<times> jsnum option) list \<Rightarrow> (string \<times> jsnum) list \<Rightarrow> (string \<times> jsnum) list \<times> js_error option" where
  "read_pad [] cur = (cur, None)"
| "read_pad ((k, v) # kvs) cur =
     (case gp_trunc v of Inl e \<Rightarrow> (cur, Some e) | Inr x \<Rightarrow> read_pad kvs (AList.update k x cur))"

definition merge_states :: "(string \<times> jsnum) list \<Rightarrow> (string \<times> jsnum) list \<Rightarrow> (string \<times> jsnum) list" where
  "merge_states prev cur = fold (\<lambda>kv m. AList.update (fst kv) (snd kv) m) cur prev"

definition gp_tick :: "string \<Rightarrow> pads \<Rightarrow> ts \<Rightarrow> gp_state \<Rightarrow> gp_state \<times> effect list" where
  "gp_tick name pads clock s =
     (case currentGamepad s pads of
        Some p \<Rightarrow>
          if pd_connected p then
            (let s1 = s\<lparr>gp_prev := merge_states (gp_prev s) (gp_cur s)\<rparr>
             in case read_pad (control_inputs p) (gp_cur s1) of
                  (cur, Some e) \<Rightarrow> (s1\<lparr>gp_cur := cur\<rparr>, [Uncaught e])
                | (cur, None) \<Rightarrow>
                    (let s2 = s1\<lparr>gp_cur := cur\<rparr>;
                         (s3, os) = (if gp_enabled s2 then processEvents name True pads clock s2 else (s2, []))
                     in (s3\<lparr>gp_timers := gp_timers s3 + 1\<rparr>, os)))
          else (if gp_enabled s then processEvents name False pads clock s else (s, []))
      | None \<Rightarrow> (if gp_enabled s then processEvents name False pads clock s else (s, [])))"

section \<open>The panel\<close>

fun first_pad :: "pads \<Rightarrow> nat option" where
  "first_pad [] = None"
| "first_pad (Some p # ps) = Some (pd_index p)"
| "first_pad (None # ps) = first_pad ps"

text \<open>\<open>!gamepadIdx\<close> holds for null and for the index 0.\<close>

definition idx_falsy :: "nat option \<Rightarrow> bool" where
  "idx_falsy i \<longleftrightarrow> i = None \<or> i = Some 0"

datatype gp_event =
    GpMounted pads ts
  | GpConnected nat pads ts
  | GpDisconnected nat pads
  | GpTimer pads ts
  | GpToggle pads ts
  | GpSettled "service_error option" int
  | GpUnmounted

fun gp_handle :: "(service_error \<Rightarrow> bool) \<Rightarrow> string \<Rightarrow> (gp_state, gp_event, effect) handler" where
  "gp_handle isError n s (GpMounted pads clock) =
     (let s1 = (case first_pad pads of None \<Rightarrow> s | Some i \<Rightarrow> s\<lparr>gp_idx := Some i\<rparr>)
      in if idx_falsy (gp_idx s1) then (s1, [])
         else gp_tick n pads clock (s1\<lparr>gp_prev := merge_states (gp_prev s1) (gp_cur s1)\<rparr>))"
| "gp_handle isError n s (GpConnected i pads clock) =
     (if idx_falsy (gp_idx s) then gp_tick n pads clock (s\<lparr>gp_idx := Some i\<rparr>) else (s, []))"
| "gp_handle isError n s (GpDisconnected i pads) =
     (if gp_idx s = Some i \<or> \<not> pad_live s pads then (s\<lparr>gp_idx := None\<rparr>, []) else (s, []))"
| "gp_handle isError n s (GpTimer pads clock) =
     (if gp_timers s > 0 then gp_tick n pads clock (s\<lparr>gp_timers := gp_timers s - 1\<rparr>) else (s, []))"
| "gp_handle isError n s (GpToggle pads clock) =
     (let s1 = s\<lparr>gp_enabled := \<not> gp_enabled s\<rparr> in connectEvent n (gp_enabled s1) pads clock s1)"
| "gp_handle isError n s (GpSettled err now) = sendEvent_done isError err now s"
| "gp_handle isError n s GpUnmounted = (s\<lparr>gp_timers := gp_timers s - 1\<rparr>, [])"

section \<open>Time stamps\<close>

fun sent_time :: "effect \<Rightarrow> ts list" where
  "sent_time (Call (InputReq (TriggerEvent n e))) = [(ce_seconds e, ce_nanos e)]"
| "sent_time _ = []"

definition sent_times :: "effect list \<Rightarrow> ts list" where
  "sent_times os = concat (map sent_time os)"

text \<open>Times sent after \<open>t\<close> and up to \<open>t'\<close>, each later than the one before.\<close>

definition segment :: "ts \<Rightarrow> effect list \<Rightarrow> ts \<Rightarrow> bool" where
  "segment t os t' \<longleftrightarrow> t \<le> t' \<and> sorted_wrt (<) (sent_times os) \<and> (\<forall>x \<in> set (sent_times os). t < x \<and> x \<le> t')"

lemma sent_times_simps [simp]:
  "sent_times [] = []" "sent_times (o' # os) = sent_time o' @ sent_times os"
  "sent_times (os @ ps) = sent_times os @ sent_times ps"
  by (simp_all add: sent_times_def)

lemma segment_quiet: "t \<le> t' \<Longrightarrow> sent_times os = [] \<Longrightarrow> segment t os t'"
  by (simp add: segment_def)

lemma segment_append:
  assumes "segment a os b" "segment b ps c"
  shows "segment a (os @ ps) c"
proof -
  have os: "\<And>x. x \<in> set (sent_times os) \<Longrightarrow> a < x \<and> x \<le> b" and ps: "\<And>x. x \<in> set (sent_times ps) \<Longrightarrow> b < x \<and> x \<le> c"
    and le: "a \<le> b" "b \<le> c" and so: "sorted_wrt (<) (sent_times os)" "sorted_wrt (<) (sent_times ps)"
    using assms by (simp_all add: segment_def)
  have "x < y" if "x \<in> set (sent_times os)" "y \<in> set (sent_times ps)" for x y
    using os [OF that(1)] ps [OF that(2)] by (metis le_less_trans)
  moreover have "a < x \<and> x \<le> c" if "x \<in> set (sent_times os) \<union> set (sent_times ps)" for x
    using that os [of x] ps [of x] le by (metis Un_iff le_less_trans order_trans)
  ultimately show ?thesis using so order_trans [OF le] by (simp add: segment_def sorted_wrt_append)
qed

lemma segment_weaken: "segment b os c \<Longrightarrow> a \<le> b \<Longrightarrow> segment a os c"
  unfolding segment_def by (metis le_less_trans order_trans)

lemma segment_send:
  "ce_seconds e = fst t \<Longrightarrow> ce_nanos e = snd t + 1 \<Longrightarrow> segment t (sendEvent n s e) (fst t, snd t + 1)"
  by (cases t) (auto simp: segment_def sendEvent_def)

lemma nextTS_later: "l < nextTS l c"
  by (cases l; cases c) (auto simp: nextTS_def Let_def)

lemma connect_loop_segment: "segment t (snd (connect_loop n s con t ks)) (fst (connect_loop n s con t ks))"
proof (induction ks arbitrary: t)
  case (Cons k ks)
  show ?case
    using segment_append [OF segment_send [of "\<lparr>ce_seconds = fst t, ce_nanos = snd t + 1,
        ce_event = (if con then ''Connect'' else ''Disconnect''), ce_control = control_name k, ce_value = Fin 0\<rparr>" t n s] Cons.IH]
    by (simp add: split_def Let_def)
qed (simp add: segment_quiet)

lemma change_loop_segment: "segment t (snd (change_loop n s t kvs)) (fst (change_loop n s t kvs))"
proof (induction kvs arbitrary: t)
  case (Cons kv kvs)
  show ?case
    using Cons.IH [of t] segment_append [OF segment_send [of "change_event (fst t, snd t + 1) kv" t n s] Cons.IH]
    by (simp add: split_def Let_def change_event_def)
qed (simp add: segment_quiet)

lemma connectEvent_segment:
  "segment (gp_lastTS s) (snd (connectEvent n con pads c s)) (gp_lastTS (fst (connectEvent n con pads c s)))"
  using segment_weaken [OF connect_loop_segment less_imp_le [OF nextTS_later [of "gp_lastTS s" c]]]
  by (simp add: connectEvent_def split_def Let_def segment_quiet)

lemma processEvents_segment:
  "segment (gp_lastTS s) (snd (processEvents n b pads c s)) (gp_lastTS (fst (processEvents n b pads c s)))"
proof (cases b)
  case False
  then show ?thesis
    using connectEvent_segment [of "s\<lparr>gp_cur := map (\<lambda>kv. (fst kv, NaN)) (gp_cur s)\<rparr>" n False pads c]
    by (simp add: processEvents_def split_def Let_def segment_quiet)
next
  case True
  define r where "r = (if \<not> gp_connectedPrev s
      then ((fst (connectEvent n True pads c s))\<lparr>gp_connectedPrev := True\<rparr>, snd (connectEvent n True pads c s)) else (s, []))"
  have r: "segment (gp_lastTS s) (snd r) (gp_lastTS (fst r))"
    using connectEvent_segment [of s n True pads c] by (simp add: r_def segment_quiet)
  note l = segment_weaken [OF change_loop_segment less_imp_le [OF nextTS_later [of "gp_lastTS (fst r)" c]],
      of n "fst r" "gp_cur (fst r)"]
  have "processEvents n b pads c s =
      ((fst r)\<lparr>gp_lastTS := fst (change_loop n (fst r) (nextTS (gp_lastTS (fst r)) c) (gp_cur (fst r)))\<rparr>,
       snd r @ snd (change_loop n (fst r) (nextTS (gp_lastTS (fst r)) c) (gp_cur (fst r))))"
    using True by (simp add: processEvents_def r_def split_def Let_def)
  then show ?thesis using segment_append [OF r l] by simp
qed

lemma gp_tick_segment:
  "segment (gp_lastTS s) (snd (gp_tick n pads c s)) (gp_lastTS (fst (gp_tick n pads c s)))"
proof (cases "currentGamepad s pads")
  case None
  then show ?thesis using processEvents_segment [of s n False pads c]
    by (simp add: gp_tick_def segment_quiet)
next
  case (Some p)
  let ?s1 = "s\<lparr>gp_prev := merge_states (gp_prev s) (gp_cur s)\<rparr>"
  show ?thesis
  proof (cases "read_pad (control_inputs p) (gp_cur s)")
    case (Pair cur r)
    then show ?thesis
      using Some processEvents_segment [of s n False pads c] processEvents_segment [of "?s1\<lparr>gp_cur := cur\<rparr>" n True pads c]
      by (simp add: gp_tick_def segment_quiet split_def Let_def split: option.splits)
  qed
qed

lemma gp_handle_segment:
  "segment (gp_lastTS s) (snd (gp_handle isE n s e)) (gp_lastTS (fst (gp_handle isE n s e)))"
proof (cases e)
  case (GpMounted pads c)
  define s1 where "s1 = (case first_pad pads of None \<Rightarrow> s | Some i \<Rightarrow> s\<lparr>gp_idx := Some i\<rparr>)"
  have "gp_lastTS s1 = gp_lastTS s" by (simp add: s1_def split: option.splits)
  then show ?thesis
    using GpMounted gp_tick_segment [of "s1\<lparr>gp_prev := merge_states (gp_prev s1) (gp_cur s1)\<rparr>" n pads c]
    by (simp add: s1_def [symmetric] segment_quiet)
next
  case (GpConnected i pads c)
  then show ?thesis using gp_tick_segment [of "s\<lparr>gp_idx := Some i\<rparr>" n pads c] by (simp add: segment_quiet)
next
  case (GpTimer pads c)
  then show ?thesis using gp_tick_segment [of "s\<lparr>gp_timers := gp_timers s - 1\<rparr>" n pads c] by (simp add: segment_quiet)
next
  case (GpToggle pads c)
  then show ?thesis using connectEvent_segment [of "s\<lparr>gp_enabled := \<not> gp_enabled s\<rparr>" n "\<not> gp_enabled s" pads c]
    by (simp add: Let_def)
qed (auto simp: sendEvent_done_def split: option.splits intro!: segment_quiet)

definition stamped :: "gp_state \<Rightarrow> effect list \<Rightarrow> bool" where
  "stamped s os \<longleftrightarrow> sorted_wrt (<) (sent_times os) \<and> (\<forall>x \<in> set (sent_times os). x \<le> gp_lastTS s)"

lemma stamped_step:
  assumes "stamped s os" "segment (gp_lastTS s) ps (gp_lastTS s')"
  shows "stamped s' (os @ ps)"
proof -
  have os: "\<And>x. x \<in> set (sent_times os) \<Longrightarrow> x \<le> gp_lastTS s"
    and ps: "\<And>x. x \<in> set (sent_times ps) \<Longrightarrow> gp_lastTS s < x \<and> x \<le> gp_lastTS s'"
    and le: "gp_lastTS s \<le> gp_lastTS s'" and so: "sorted_wrt (<) (sent_times os)" "sorted_wrt (<) (sent_times ps)"
    using assms by (simp_all add: segment_def stamped_def)
  have "x < y" if "x \<in> set (sent_times os)" "y \<in> set (sent_times ps)" for x y
    using os [OF that(1)] ps [OF that(2)] by (metis le_less_trans)
  moreover have "x \<le> gp_lastTS s'" if "x \<in> set (sent_times os) \<union> set (sent_times ps)" for x
    using that os [of x] ps [of x] le by (metis Un_iff order_trans)
  ultimately show ?thesis using so by (simp add: stamped_def sorted_wrt_append)
qed

interpretation stamps: history_system "gp_handle isE n" "\<lambda>_. True" "\<lambda>_. True" stamped for isE n
proof unfold_locales
  fix s e and os :: "effect list"
  assume "stamped s os"
  then show "stamped (fst (gp_handle isE n s e)) (os @ snd (gp_handle isE n s e))"
    using gp_handle_segment [of s isE n e] by (rule stamped_step)
qed (simp add: stamped_def)

section \<open>Enabled or silent\<close>

lemma sendEvent_disabled [simp]: "\<not> gp_enabled s \<Longrightarrow> sendEvent n s e = []"
  by (simp add: sendEvent_def)

lemma connect_loop_disabled: "\<not> gp_enabled s \<Longrightarrow> snd (connect_loop n s con t ks) = []"
  by (induction ks arbitrary: t) (simp_all add: split_def Let_def)

lemma connectEvent_disabled: "\<not> gp_enabled s \<Longrightarrow> snd (connectEvent n con pads c s) = []"
  by (simp add: connectEvent_def connect_loop_disabled split_def Let_def)

lemma gp_tick_disabled:
  "\<not> gp_enabled s \<Longrightarrow> list_all (\<lambda>x. \<exists>e. x = Uncaught e) (snd (gp_tick n pads c s))
     \<and> \<not> gp_enabled (fst (gp_tick n pads c s))"
  by (auto simp: gp_tick_def split_def Let_def split: option.splits)

section \<open>What a poll sends\<close>




















text \<open>Every event goes to the panel's own controller.\<close>

lemma sendEvent_addressed: "list_all (addressed_to n) (sendEvent n s e)"
  by (simp add: sendEvent_def)

lemma connect_loop_addressed: "list_all (addressed_to n) (snd (connect_loop n s con t ks))"
  by (induction ks arbitrary: t) (simp_all add: sendEvent_addressed split_def Let_def)

lemma change_loop_addressed: "list_all (addressed_to n) (snd (change_loop n s t kvs))"
  by (induction kvs arbitrary: t) (simp_all add: sendEvent_addressed split_def Let_def)

lemma connectEvent_addressed: "list_all (addressed_to n) (snd (connectEvent n con pads c s))"
  by (simp add: connectEvent_def connect_loop_addressed split_def Let_def)

lemma processEvents_addressed: "list_all (addressed_to n) (snd (processEvents n b pads c s))"
  by (simp add: processEvents_def connectEvent_addressed change_loop_addressed split_def Let_def)

lemma gp_tick_addressed: "list_all (addressed_to n) (snd (gp_tick n pads c s))"
  by (simp add: gp_tick_def processEvents_addressed split_def Let_def split: option.splits)

interpretation gamepad: panel "gp_handle isE" for isE
proof unfold_locales
  fix o' n s e
  have "list_all (addressed_to n) (snd (gp_handle isE n s e))"
    by (cases e) (auto simp: gp_tick_addressed connectEvent_addressed sendEvent_done_def Let_def split: option.splits)
  then show "o' \<in> set (snd (gp_handle isE n s e)) \<Longrightarrow> addressed_to n o'" by (simp add: list_all_iff)
qed

section \<open>Properties\<close>

text \<open>
  C17. The time stamps of all events the gamepad ever sends are strictly increasing, in whatever way the
  browser's clock jumps, across toggles, reconnections and late timers; and each event is for the
  panel's own controller.
\<close>

theorem gamepad_times_increase:
  "sorted_wrt (<) (sent_times (outputs (gp_handle isE n) s es))
   \<and> list_all (addressed_to n) (outputs (gp_handle isE n) s es)"
  using stamps.run_P [where isE = isE and n = n and s = s and es = es]
    gamepad.run_addressed [where isE = isE and n = n and s = s and es = es]
  by (simp add: stamped_def list_all_iff)



text \<open>
  Nothing is sent while the panel is disabled; in particular switching it off sends no
  \<open>Disconnect\<close> event, since the event is dropped by the check of the switch itself.
\<close>

theorem gamepad_silent_when_disabled:
  assumes "\<not> gp_enabled (fst (gp_handle isE n s e))"
  shows "list_all (\<lambda>x. \<forall>r. x \<noteq> Call r) (snd (gp_handle isE n s e))"
proof -
  have tick: "list_all (\<lambda>x. \<forall>r. x \<noteq> Call r) (snd (gp_tick n pads c t))" if "\<not> gp_enabled t" for t pads c
    using gp_tick_disabled [OF that, of n pads c] by (auto simp: list_all_iff)
  have keep: "gp_enabled (fst (gp_tick n pads c t)) = gp_enabled t" for t pads c
    by (auto simp: gp_tick_def processEvents_def connectEvent_def split_def Let_def split: option.splits)
  have conn: "gp_enabled (fst (connectEvent n b pads c t)) = gp_enabled t" for t b pads c
    by (simp add: connectEvent_def split_def Let_def)
  show ?thesis
  proof (cases e)
    case (GpMounted pads c)
    then show ?thesis using assms by (auto simp: keep Let_def intro!: tick split: if_splits option.splits)
  next
    case (GpToggle pads c)
    then show ?thesis using assms by (simp add: conn connectEvent_disabled Let_def)
  qed (use assms in \<open>auto simp: keep sendEvent_done_def intro!: tick split: if_splits option.splits\<close>)
qed

theorem gamepad_silent_when_disabled_witness:
  "snd (gp_handle (\<lambda>e. False) ''g'' ((gp_init 0 (0, 0))\<lparr>gp_enabled := True, gp_connectedPrev := True\<rparr>) (GpToggle [] (1, 0))) = []
   \<and> list_all (\<lambda>x. \<forall>r. x \<noteq> Call r) (snd (gp_handle (\<lambda>e. False) ''g''
       ((gp_init 0 (0, 0))\<lparr>gp_enabled := True, gp_connectedPrev := True\<rparr>) (GpToggle [] (1, 0))))"
  using gamepad_silent_when_disabled [of "\<lambda>e. False" "''g''" "(gp_init 0 (0, 0))\<lparr>gp_enabled := True, gp_connectedPrev := True\<rparr>"
      "GpToggle [] (1, 0)"]
  by (simp add: connectEvent_def connect_loop_disabled split_def Let_def)

text \<open>
  Truncation works on the printed number: a decimal keeps four digits after the point, but a number that
  prints with an exponent loses it, so that an axis at \<open>1.5e-7\<close> is read as \<open>1.5\<close>.
\<close>

theorem gamepad_trunc_text:
  assumes "ip \<noteq> []" "\<forall>ch \<in> set ip. is_digit ch" "\<forall>ch \<in> set fp. is_digit ch" "r = [] \<or> hd r = CHR ''e''"
  shows "match_number (ip @ CHR ''.'' # fp @ r) = Some (ip @ CHR ''.'' # take 4 fp)"
proof -
  have r: "r = [] \<or> \<not> is_digit (hd r)" using assms(4) by auto
  obtain d ds where ip: "ip = d # ds" using assms(1) by (cases ip) auto
  have "d \<noteq> CHR ''-''" using assms(2) ip by auto
  then show ?thesis
    using span_digits [OF assms(2), of "CHR ''.'' # fp @ r"] span_digits [OF assms(3) r] ip
    by (simp add: match_number_def)
qed

section \<open>What the panel shows\<close>

text \<open>The title of a connected gamepad, the badge, the position of the switch, and the table of the controls.\<close>

definition gp_cell :: "string \<times> jsnum \<Rightarrow> string \<times> string" where
  "gp_cell kv = (fst kv, if is_axis (fst kv) then toFixed 4 (snd kv) else toFixed 0 (snd kv))"

definition gp_view :: "gp_state \<Rightarrow> pads \<Rightarrow> string option \<times> string \<times> string \<times> (string \<times> string) list" where
  "gp_view s pads =
     ((case currentGamepad s pads of
         Some p \<Rightarrow> if pd_connected p then Some ('' ('' @ pd_id p @ '')'') else None
       | None \<Rightarrow> None),
      (if pad_live s pads \<and> gp_enabled s then ''Enabled'' else ''Disabled''),
      (if gp_enabled s then ''on'' else ''off''),
      (if pad_live s pads then map gp_cell (gp_cur s) else []))"

text \<open>
  The table of a connected gamepad shows every control with its current value: the text read as a
  decimal is off by at most half a unit of the fourth decimal for an axis, and by at most a half for
  a button; and the title and the table are there exactly together.
\<close>

theorem gamepad_view_close:
  assumes "pad_live s pads" "(k, Fin q) \<in> set (gp_cur s)" "\<bar>q\<bar> < 10 ^ 21"
  shows "\<exists>t v. (k, t) \<in> set (snd (snd (snd (gp_view s pads)))) \<and> decimal_value t = Some v \<and>
    \<bar>v - q\<bar> \<le> (if is_axis k then 1 / 20000 else 1 / 2) \<and> fst (gp_view s pads) \<noteq> None"
proof -
  have "fst (gp_view s pads) \<noteq> None" using assms(1) by (auto simp: gp_view_def pad_live_def split: option.splits)
  moreover have "(k, snd (gp_cell (k, Fin q))) \<in> set (snd (snd (snd (gp_view s pads))))"
    using assms(1,2) by (force simp: gp_view_def gp_cell_def image_iff)
  moreover obtain v where "decimal_value (toFixed 4 (Fin q)) = Some v" "\<bar>v - q\<bar> \<le> 1 / 20000"
    using toFixed_close [OF assms(3), of 4] by auto
  moreover obtain w where "decimal_value (toFixed 0 (Fin q)) = Some w" "\<bar>w - q\<bar> \<le> 1 / 2"
    using toFixed_close [OF assms(3), of 0] by auto
  ultimately show ?thesis by (cases "is_axis k") (auto simp: gp_cell_def simp del: toFixed.simps)
qed

theorem gamepad_view_close_witness:
  "let s = (gp_init 0 (0, 0))\<lparr>gp_idx := Some 0, gp_cur := [(''X'', Fin (1 / 3))]\<rparr>;
       pads = [Some \<lparr>pd_index = 0, pd_id = ''pad'', pd_connected = True, pd_axes = [], pd_buttons = []\<rparr>]
   in \<exists>t v. (''X'', t) \<in> set (snd (snd (snd (gp_view s pads)))) \<and> decimal_value t = Some v \<and> \<bar>v - 1 / 3\<bar> \<le> 1 / 20000"
proof -
  let ?s = "(gp_init 0 (0, 0))\<lparr>gp_idx := Some 0, gp_cur := [(''X'', Fin (1 / 3))]\<rparr>"
  let ?pads = "[Some \<lparr>pd_index = 0, pd_id = ''pad'', pd_connected = True, pd_axes = [], pd_buttons = []\<rparr>]"
  have "pad_live ?s ?pads" by (simp add: pad_live_def currentGamepad_def)
  from gamepad_view_close [OF this, of "''X''" "1 / 3"] show ?thesis by (auto simp: Let_def is_axis_def)
qed

end
