(* ===== verification/App_Status.thy ===== *)
theory App_Status
  imports Client Fixers Event_System
begin

text \<open>
  The robot's data in the application shell \<open>app.vue\<close>: the status dictionaries and the status
  stream, the resource list and its refresh, the operation and session lists. A callback takes the
  answer as an argument. An exception inside the answer to \<open>resourceNames\<close> leaves the promise
  unsettled.
\<close>

section \<open>State\<close>

definition relevantSubtypesForStatus :: "string list" where
  "relevantSubtypesForStatus = [''arm'', ''gantry'', ''board'', ''servo'', ''motor'', ''input_controller'']"

record robot_data =
  rd_rawStatus :: "(string \<times> jsval) list"
  rd_status :: "(string \<times> fixed_status) list"
  rd_statusStream :: bool                       \<comment> \<open>not null\<close>
  rd_lastStatusTS :: "int option"
  rd_sensorNames :: "resource_name list"
  rd_resources :: "resource_name list"
  rd_resourcesOnce :: bool

definition robot_init :: robot_data where
  "robot_init = \<lparr>rd_rawStatus = [], rd_status = [], rd_statusStream = False, rd_lastStatusTS = None,
     rd_sensorNames = [], rd_resources = [], rd_resourcesOnce = False\<rparr>"

text \<open>What a promise rejects with: an error of the service or an \<open>Error\<close> object.\<close>

datatype rejection = Service service_error | Plain string

section \<open>Status\<close>

definition querySensors :: "robot_data \<Rightarrow> effect list" where
  "querySensors d =
     (case filterNonRemoteResources (rd_resources d) ''rdk'' ''service'' ''sensors'' of
        [] \<Rightarrow> []
      | r # rs \<Rightarrow> [Call (SensorsReq (GetSensors (rn_name r)))])"

definition querySensors_done :: "service_error + resource_name list \<Rightarrow> robot_data \<Rightarrow> robot_data \<times> effect list" where
  "querySensors_done r d =
     (case r of Inl e \<Rightarrow> (d, displayError (Some e)) | Inr names \<Rightarrow> (d\<lparr>rd_sensorNames := names\<rparr>, []))"

text \<open>A status of the stream: a message whose name and status may be unset.\<close>

type_synonym grpc_status = "resource_name option \<times> jsval option"

text \<open>
  One round of the loop of \<open>updateStatus\<close>. A status that cannot be fixed is reported and skipped; a
  message without name or status raises outside of the \<open>try\<close> and ends the loop.
\<close>

definition updateStatus1 :: "grpc_status \<Rightarrow> robot_data \<Rightarrow> (robot_data \<times> effect list) throws" where
  "updateStatus1 g d =
     (case g of
        (Some nameObj, Some statusJs) \<Rightarrow>
          Inr (case fixRawStatus nameObj statusJs of
                 Inl e \<Rightarrow>
                   (d, [ToastError (''Couldn'' @ [CHR 0x27] @ ''t fix status for '' @ resourceNameToString (Some nameObj))])
               | Inr fixed \<Rightarrow>
                   (let name = resourceNameToString (Some nameObj)
                    in (d\<lparr>rd_rawStatus := AList.update name statusJs (rd_rawStatus d),
                         rd_status := AList.update name fixed (rd_status d)\<rparr>, [])))
      | _ \<Rightarrow> Inl TypeError)"

fun updateStatus :: "grpc_status list \<Rightarrow> robot_data \<Rightarrow> robot_data \<times> effect list \<times> bool" where
  "updateStatus [] d = (d, [], True)"
| "updateStatus (g # gs) d =
     (case updateStatus1 g d of
        Inl e \<Rightarrow> (d, [Uncaught e], False)
      | Inr (d', os) \<Rightarrow> (let (d'', ps, ok) = updateStatus gs d' in (d'', os @ ps, ok)))"

text \<open>The handler of the stream's \<open>data\<close> event; an exception keeps the old time stamp.\<close>

definition status_data :: "grpc_status list \<Rightarrow> int \<Rightarrow> robot_data \<Rightarrow> robot_data \<times> effect list" where
  "status_data gs now d =
     (let (d', os, ok) = updateStatus gs d
      in (if ok then d'\<lparr>rd_lastStatusTS := Some now\<rparr> else d', os))"

text \<open>The \<open>status\<close> and \<open>end\<close> events; \<open>isClosed\<close> is \<open>ConnectionClosedError.isError\<close> of the details.\<close>

definition stream_status :: "bool \<Rightarrow> robot_data \<Rightarrow> robot_data \<times> effect list" where
  "stream_status isClosed d =
     (d\<lparr>rd_statusStream := False\<rparr>, if isClosed then [] else [ConsoleError ''error streaming robot status''])"

definition stream_end :: "robot_data \<Rightarrow> robot_data \<times> effect list" where
  "stream_end d = (d\<lparr>rd_statusStream := False\<rparr>, [ConsoleError ''done streaming robot status''])"

definition cancel_stream :: "robot_data \<Rightarrow> robot_data \<times> effect list" where
  "cancel_stream d =
     (if rd_statusStream d then (d\<lparr>rd_statusStream := False\<rparr>, [Call (RobotReq CancelStatusStream)]) else (d, []))"

definition restartStatusStream :: "robot_data \<Rightarrow> robot_data \<times> effect list" where
  "restartStatusStream d =
     (let (d1, os) = cancel_stream d;
          newResources = fold (\<lambda>subtype newResources.
             newResources @ filterResources newResources ''rdk'' ''component'' subtype)
             relevantSubtypesForStatus []
      in (d1\<lparr>rd_statusStream := True\<rparr>, os @ [Call (RobotReq (StreamStatus newResources 500000000))]))"

section \<open>Resources\<close>

definition relevant :: "resource_name \<Rightarrow> bool" where
  "relevant r \<longleftrightarrow> rn_namespace r = ''rdk'' \<and> rn_type r = ''component'' \<and>
     rn_subtype r \<in> set relevantSubtypesForStatus"

text \<open>The toggling loop over the two sets of names.\<close>

definition differences :: "string list \<Rightarrow> string list \<Rightarrow> string list" where
  "differences olds news =
     fold (\<lambda>elem ds. if elem \<in> set ds then set_delete elem ds else set_add elem ds)
       (new_Set news) (new_Set olds)"

fun any_relevant :: "string list \<Rightarrow> bool throws" where
  "any_relevant [] = Inr False"
| "any_relevant (elem # es) =
     bindE (stringToResourceName elem) (\<lambda>r. if relevant r then Inr True else any_relevant es)"

text \<open>
  \<open>queryMetadata\<close> captures whether a stream is missing and sends the request; its callback rejects,
  raises, or stores the list and resolves.
\<close>

datatype 'a settled = Resolved 'a | Rejected rejection | Raised js_error

definition queryMetadata :: "robot_data \<Rightarrow> bool \<times> effect list" where
  "queryMetadata d = (\<not> (rd_resourcesOnce d \<and> rd_statusStream d), [Call (RobotReq ResourceNames)])"

definition queryMetadata_done ::
  "bool \<Rightarrow> service_error + resource_name list option \<Rightarrow> robot_data \<Rightarrow> (robot_data \<times> effect list) \<times> unit settled" where
  "queryMetadata_done shouldRestart answer d =
     (case answer of
        Inl e \<Rightarrow> ((d, []), Rejected (Service e))
      | Inr None \<Rightarrow> ((d, []), Rejected (Plain ''An unexpected issue occured.''))
      | Inr (Some resourcesList) \<Rightarrow>
          (let names = map (\<lambda>r. resourceNameToString (Some r));
               ds = differences (names (rd_resources d)) (names resourcesList)
           in case any_relevant ds of
                Inl e \<Rightarrow> ((d, [Uncaught e]), Raised e)
              | Inr rel \<Rightarrow>
                  (let d1 = d\<lparr>rd_resources := resourcesList, rd_resourcesOnce := True\<rparr>;
                       os = (if length ds > 0 then querySensors d1 else []);
                       (d2, ps) = (if shouldRestart \<or> rel then restartStatusStream d1 else (d1, []))
                   in ((d2, os @ ps), Resolved ()))))"

section \<open>Operations and sessions\<close>

record operation =
  op_id :: string
  op_sessionId :: string
  op_method :: string
  op_started :: "int option"                    \<comment> \<open>seconds\<close>

record current_op =
  co_op :: operation
  co_elapsed :: int

datatype peer_type = PeerGRPC | PeerWebRTC | PeerOther

record peer_info =
  pi_type :: peer_type
  pi_remoteAddress :: string
  pi_localAddress :: string

record session =
  se_id :: string
  se_peerConnectionInfo :: "peer_info option"

definition elapsed_cmp :: "current_op \<Rightarrow> current_op \<Rightarrow> int" where
  "elapsed_cmp op1 op2 =
     (if co_elapsed op1 = - 1 \<or> co_elapsed op2 = - 1 then co_elapsed op2 - co_elapsed op1
      else co_elapsed op1 - co_elapsed op2)"

definition with_elapsed :: "int \<Rightarrow> operation \<Rightarrow> current_op" where
  "with_elapsed now op =
     \<lparr>co_op = op, co_elapsed = (case op_started op of Some sec \<Rightarrow> now - sec * 1000 | None \<Rightarrow> - 1)\<rparr>"

definition loadCurrentOps :: "int \<Rightarrow> operation list \<Rightarrow> current_op list" where
  "loadCurrentOps now ops = js_sort elapsed_cmp (map (with_elapsed now) ops)"

definition session_cmp :: "session \<Rightarrow> session \<Rightarrow> int" where
  "session_cmp sess1 sess2 = (if se_id sess1 < se_id sess2 then - 1 else 1)"

definition sort_sessions :: "session list \<Rightarrow> session list" where
  "sort_sessions xs = js_sort session_cmp xs"

section \<open>What the panels are given\<close>

definition resourceStatusByName :: "robot_data \<Rightarrow> resource_name \<Rightarrow> fixed_status option" where
  "resourceStatusByName d r = map_of (rd_status d) (resourceNameToString (Some r))"

definition rawResourceStatusByName :: "robot_data \<Rightarrow> resource_name \<Rightarrow> jsval option" where
  "rawResourceStatusByName d r = map_of (rd_rawStatus d) (resourceNameToString (Some r))"

definition is_input_controller :: "resource_name \<Rightarrow> bool" where
  "is_input_controller r \<longleftrightarrow>
     rn_namespace r = ''rdk'' \<and> rn_type r = ''component'' \<and> rn_subtype r = ''input_controller''"

definition filteredWebGamepads :: "robot_data \<Rightarrow> resource_name list" where
  "filteredWebGamepads d =
     filter (\<lambda>elem. if \<not> is_input_controller elem then False
                    else last (js_split (CHR '':'') (rn_name elem)) = ''WebGamepad'')
       (filterComponentsWithNames (rd_resources d))"

definition filteredInputControllerList :: "robot_data \<Rightarrow> resource_name list" where
  "filteredInputControllerList d =
     filter (\<lambda>elem. if \<not> is_input_controller elem then False
                    else last (js_split (CHR '':'') (rn_name elem)) \<noteq> ''WebGamepad'' \<and>
                         (case resourceStatusByName d elem of None \<Rightarrow> False | Some f \<Rightarrow> fixed_truthy f))
       (filterComponentsWithNames (rd_resources d))"

section \<open>Lemmas\<close>

lemma toggle_fold:
  "distinct xs \<Longrightarrow>
   set (fold (\<lambda>elem ds. if elem \<in> set ds then set_delete elem ds else set_add elem ds) xs ds) =
     (set ds - set xs) \<union> (set xs - set ds)"
proof (induction xs arbitrary: ds)
  case (Cons x xs)
  show ?case
  proof (cases "x \<in> set ds")
    case True
    then show ?thesis using Cons by auto
  next
    case False
    then show ?thesis using Cons by auto
  qed
qed simp

lemma set_differences: "set (differences olds news) = (set olds - set news) \<union> (set news - set olds)"
  by (simp add: differences_def toggle_fold)

lemma any_relevant_parsed:
  "(\<And>e. e \<in> set es \<Longrightarrow> stringToResourceName e = Inr (g e)) \<Longrightarrow>
   any_relevant es = Inr (\<exists>e \<in> set es. relevant (g e))"
  by (induction es) auto

lemma printed_inj: "inj_on (\<lambda>r. resourceNameToString (Some r)) (Collect printable)"
  by (rule inj_onI) (metis mem_Collect_eq printed_name_parses sum.inject(2))

text \<open>The changed names are the printed forms of the changed resources.\<close>

lemma changed_names:
  assumes "set olds \<subseteq> Collect printable" "set news \<subseteq> Collect printable"
  shows "set (differences (map (\<lambda>r. resourceNameToString (Some r)) olds) (map (\<lambda>r. resourceNameToString (Some r)) news)) =
    (\<lambda>r. resourceNameToString (Some r)) ` ((set olds - set news) \<union> (set news - set olds))"
proof -
  note d = inj_on_image_set_diff [OF printed_inj]
  have "set olds - set news \<subseteq> Collect printable" "set news - set olds \<subseteq> Collect printable"
    using assms by auto
  then show ?thesis using assms d [of "set olds" "set news"] d [of "set news" "set olds"]
    by (simp add: set_differences image_Un)
qed

lemma relevant_changes:
  assumes "set olds \<subseteq> Collect printable" "set news \<subseteq> Collect printable"
  shows "any_relevant (differences (map (\<lambda>r. resourceNameToString (Some r)) olds) (map (\<lambda>r. resourceNameToString (Some r)) news)) =
    Inr (\<exists>r \<in> (set olds - set news) \<union> (set news - set olds). relevant r)"
proof -
  let ?s = "\<lambda>r. resourceNameToString (Some r)"
  let ?ds = "differences (map ?s olds) (map ?s news)"
  have "stringToResourceName e = Inr (projr (stringToResourceName e))" if "e \<in> set ?ds" for e
    using that assms unfolding changed_names [OF assms] by (auto simp: printed_name_parses)
  then have "any_relevant ?ds = Inr (\<exists>e \<in> set ?ds. relevant (projr (stringToResourceName e)))"
    by (rule any_relevant_parsed)
  moreover have "relevant (projr (stringToResourceName (?s r))) = relevant r"
    if "r \<in> (set olds - set news) \<union> (set news - set olds)" for r
    using that assms by (auto simp: printed_name_parses)
  ultimately show ?thesis unfolding changed_names [OF assms] by auto
qed

lemma restart_names: "snd (restartStatusStream d) =
    snd (cancel_stream d) @ [Call (RobotReq (StreamStatus [] 500000000))]"
  by (simp add: restartStatusStream_def relevantSubtypesForStatus_def filterResources_def split_def Let_def)

lemma restart_data: "rd_resources (fst (restartStatusStream d)) = rd_resources d"
  "rd_resourcesOnce (fst (restartStatusStream d)) = rd_resourcesOnce d"
  "rd_statusStream (fst (restartStatusStream d))"
  "rd_status (fst (restartStatusStream d)) = rd_status d"
  "rd_rawStatus (fst (restartStatusStream d)) = rd_rawStatus d"
  "rd_lastStatusTS (fst (restartStatusStream d)) = rd_lastStatusTS d"
  by (simp_all add: restartStatusStream_def cancel_stream_def split_def Let_def)

lemma querySensors_only: "o' \<in> set (querySensors d) \<Longrightarrow> \<exists>n. o' = Call (SensorsReq (GetSensors n))"
  by (auto simp: querySensors_def split: list.splits)

definition le_elapsed :: "current_op \<Rightarrow> current_op \<Rightarrow> bool" where
  "le_elapsed a b \<longleftrightarrow> co_elapsed b = - 1 \<or> (co_elapsed a \<noteq> - 1 \<and> co_elapsed a \<le> co_elapsed b)"

interpretation by_elapsed: array_sort elapsed_cmp le_elapsed "\<lambda>x. - 1 \<le> co_elapsed x"
  by unfold_locales (auto simp: elapsed_cmp_def le_elapsed_def split: if_splits)

interpretation by_id: array_sort session_cmp "\<lambda>a b. se_id a \<le> se_id b" "\<lambda>_. True"
  by unfold_locales (auto simp: session_cmp_def split: if_splits)

text \<open>
  What a batch of messages says, read from the messages alone: those before the first one without name
  or status, and of these the last one of a name that can be fixed.
\<close>

definition complete :: "grpc_status list \<Rightarrow> (resource_name \<times> jsval) list" where
  "complete gs = map (\<lambda>(n, v). (the n, the v)) (takeWhile (\<lambda>(n, v). n \<noteq> None \<and> v \<noteq> None) gs)"

definition last_fixable :: "(resource_name \<times> jsval) list \<Rightarrow> string \<Rightarrow> (resource_name \<times> jsval) option" where
  "last_fixable ms k = find (\<lambda>(r, v). resourceNameToString (Some r) = k \<and> \<not> isl (fixRawStatus r v)) (rev ms)"

definition fix_error :: "resource_name \<Rightarrow> effect" where
  "fix_error r = ToastError (''Couldn'' @ [CHR 0x27] @ ''t fix status for '' @ resourceNameToString (Some r))"

lemma find_append: "find P (xs @ ys) = (case find P xs of None \<Rightarrow> find P ys | Some x \<Rightarrow> Some x)"
  by (induction xs) auto

lemma last_fixable_append:
  "last_fixable (ms @ ns) k = (case last_fixable ns k of None \<Rightarrow> last_fixable ms k | Some x \<Rightarrow> Some x)"
  by (simp add: last_fixable_def find_append split: option.splits)

lemma last_fixable_Nil [simp]: "last_fixable [] k = None"
  by (simp add: last_fixable_def)

lemma last_fixable_Cons:
  "last_fixable (m # ms) k =
     (case last_fixable ms k of
        None \<Rightarrow> if resourceNameToString (Some (fst m)) = k \<and> \<not> isl (fixRawStatus (fst m) (snd m)) then Some m else None
      | Some x \<Rightarrow> Some x)"
  unfolding last_fixable_append [of "[m]" ms k, simplified]
  by (simp add: last_fixable_def [of "[m]"] split_def split: option.splits)

lemma find_Some: "find P xs = Some x \<Longrightarrow> x \<in> set xs \<and> P x"
  by (induction xs) (auto split: if_splits)

lemma last_fixableD:
  "last_fixable ms k = Some (r, v) \<Longrightarrow>
   (r, v) \<in> set ms \<and> resourceNameToString (Some r) = k \<and> (\<exists>f. fixRawStatus r v = Inr f)"
  unfolding last_fixable_def by (drule find_Some) (auto simp: isl_def, metis sum.exhaust)

lemma complete_simps [simp]:
  "complete [] = []"
  "complete ((Some r, Some v) # gs) = (r, v) # complete gs"
  "complete ((None, x) # gs) = []" "complete ((y, None) # gs) = []"
  by (simp_all add: complete_def)

text \<open>The messages whose status cannot be fixed.\<close>

definition unfixable :: "(resource_name \<times> jsval) list \<Rightarrow> resource_name list" where
  "unfixable ms = map fst (filter (\<lambda>(r, v). isl (fixRawStatus r v)) ms)"

lemma updateStatus_effect:
  "updateStatus gs d = (d', os, ok) \<Longrightarrow>
     os = map fix_error (unfixable (complete gs)) @ (if ok then [] else [Uncaught TypeError]) \<and>
     ok = (length (complete gs) = length gs) \<and>
     d' = d\<lparr>rd_rawStatus := rd_rawStatus d', rd_status := rd_status d'\<rparr> \<and>
     map_of (rd_rawStatus d') k =
       (case last_fixable (complete gs) k of None \<Rightarrow> map_of (rd_rawStatus d) k | Some (r, v) \<Rightarrow> Some v) \<and>
     map_of (rd_status d') k =
       (case last_fixable (complete gs) k of None \<Rightarrow> map_of (rd_status d) k
        | Some (r, v) \<Rightarrow> Some (projr (fixRawStatus r v)))"
proof (induction gs arbitrary: d d' os ok)
  case (Cons g gs)
  show ?case
  proof (cases "\<exists>r v. g = (Some r, Some v)")
    case True
    then obtain r v where g: "g = (Some r, Some v)" by blast
    show ?thesis
    proof (cases "fixRawStatus r v")
      case (Inl e)
      then obtain ps where "updateStatus gs d = (d', ps, ok)" "os = fix_error r # ps"
        using Cons.prems by (cases "updateStatus gs d") (simp add: g updateStatus1_def fix_error_def)
      then show ?thesis using Cons.IH [of d d' ps ok] Inl
        by (simp add: g unfixable_def last_fixable_Cons split: option.splits)
    next
      case (Inr f)
      let ?n = "resourceNameToString (Some r)"
      let ?d = "d\<lparr>rd_rawStatus := AList.update ?n v (rd_rawStatus d), rd_status := AList.update ?n f (rd_status d)\<rparr>"
      have "updateStatus gs ?d = (d', os, ok)"
        using Cons.prems Inr by (cases "updateStatus gs ?d") (simp add: g updateStatus1_def Let_def)
      then show ?thesis using Cons.IH [of ?d d' os ok] Inr
        by (auto simp: g unfixable_def last_fixable_Cons dict_simps split: option.splits)
    qed
  next
    case False
    then have "updateStatus1 g d = Inl TypeError" "complete (g # gs) = []"
      by (cases g; auto simp: updateStatus1_def complete_def split: option.splits)+
    then show ?thesis using Cons.prems by (auto simp: unfixable_def)
  qed
qed (auto simp: unfixable_def)

text \<open>
  The answer to \<open>resourceNames\<close>, for names that can be printed and read back: the list is stored, and the
  stream is restarted if the call asked for it or a relevant resource differs.
\<close>

lemma queryMetadata_done_stored:
  assumes "set (rd_resources d) \<subseteq> Collect printable" and "set rs \<subseteq> Collect printable"
  shows "let \<Delta> = (set (rd_resources d) - set rs) \<union> (set rs - set (rd_resources d));
             restart = (sr \<or> (\<exists>r \<in> \<Delta>. relevant r));
             d1 = d\<lparr>rd_resources := rs, rd_resourcesOnce := True\<rparr>
         in queryMetadata_done sr (Inr (Some rs)) d =
              ((if restart then fst (restartStatusStream d1) else d1,
                (if \<Delta> = {} then [] else querySensors d1) @ (if restart then snd (restartStatusStream d1) else [])),
               Resolved ())"
proof -
  let ?s = "\<lambda>r. resourceNameToString (Some r)"
  let ?ds = "differences (map ?s (rd_resources d)) (map ?s rs)"
  define D where "D = (set (rd_resources d) - set rs) \<union> (set rs - set (rd_resources d))"
  have empty: "?ds = [] \<longleftrightarrow> D = {}"
    unfolding D_def using changed_names [OF assms] by (metis image_is_empty set_empty)
  show ?thesis using relevant_changes [OF assms, folded D_def] empty
    unfolding Let_def D_def [symmetric] by (simp add: queryMetadata_done_def split_def Let_def)
qed

section \<open>Properties\<close>

text \<open>
  A restarted status stream asks for no resource by name, whatever resources the robot has: the
  loop filters the list it is building, which starts empty, instead of the resource list.
\<close>

theorem status_stream_asks_for_none:
  "snd (restartStatusStream d) =
     (if rd_statusStream d then [Call (RobotReq CancelStatusStream)] else []) @
     [Call (RobotReq (StreamStatus [] 500000000))]
   \<and> rd_statusStream (fst (restartStatusStream d))"
  by (simp add: restart_names restart_data cancel_stream_def)

text \<open>
  C29. Whatever messages a status response holds, after its handler each name has the raw status of the
  last message of that name that could be fixed and its fixed form, or what it had before; every message
  that could not be fixed is reported by its own toast, in order, and disturbs no other; a message without
  name or status ends the loop with an exception, and then the time of the last status is not renewed.
\<close>

theorem updateStatus_correct:
  "let (d', os) = status_data gs now d; ms = complete gs; whole = (length ms = length gs)
   in (\<forall>k. map_of (rd_rawStatus d') k =
             (case last_fixable ms k of None \<Rightarrow> map_of (rd_rawStatus d) k | Some (r, v) \<Rightarrow> Some v) \<and>
           map_of (rd_status d') k =
             (case last_fixable ms k of None \<Rightarrow> map_of (rd_status d) k
              | Some (r, v) \<Rightarrow> Some (projr (fixRawStatus r v)))) \<and>
      os = map (\<lambda>r. ToastError (''Couldn'' @ [CHR 0x27] @ ''t fix status for '' @ resourceNameToString (Some r)))
             (map fst (filter (\<lambda>(r, v). isl (fixRawStatus r v)) ms)) @ (if whole then [] else [Uncaught TypeError]) \<and>
      rd_lastStatusTS d' = (if whole then Some now else rd_lastStatusTS d) \<and>
      rd_resources d' = rd_resources d \<and> rd_statusStream d' = rd_statusStream d"
proof -
  obtain d' os ok where u: "updateStatus gs d = (d', os, ok)" by (cases "updateStatus gs d")
  have "rd_lastStatusTS d' = rd_lastStatusTS d" "rd_resources d' = rd_resources d" "rd_statusStream d' = rd_statusStream d"
    using updateStatus_effect [OF u] by (metis robot_data.ext_inject robot_data.surjective robot_data.update_convs(1,2))+
  then show ?thesis using updateStatus_effect [OF u]
    by (simp add: status_data_def u fix_error_def unfixable_def [symmetric])
qed

text \<open>
  The operations are listed with the shortest-running first and those without a start time at
  the back, provided no operation starts in the client's future; no operation is lost or added.
\<close>

theorem loadCurrentOps_sorted:
  assumes "\<forall>op \<in> set ops. \<forall>t. op_started op = Some t \<longrightarrow> t * 1000 \<le> now"
  shows "sorted_wrt le_elapsed (loadCurrentOps now ops) \<and>
         mset (loadCurrentOps now ops) = mset (map (with_elapsed now) ops)"
proof -
  have "Ball (set (map (with_elapsed now) ops)) (\<lambda>x. - 1 \<le> co_elapsed x)"
    using assms by (fastforce simp: with_elapsed_def split: option.splits)
  then show ?thesis unfolding loadCurrentOps_def by (rule by_elapsed.sort_correct)
qed

theorem loadCurrentOps_sorted_witness:
  "sorted_wrt le_elapsed (loadCurrentOps 9000
     [\<lparr>op_id = ''x'', op_sessionId = [], op_method = [], op_started = None\<rparr>, \<lparr>op_id = ''y'', op_sessionId = [], op_method = [], op_started = Some 8\<rparr>])"
  using loadCurrentOps_sorted [of "[\<lparr>op_id = ''x'', op_sessionId = [], op_method = [], op_started = None\<rparr>,
      \<lparr>op_id = ''y'', op_sessionId = [], op_method = [], op_started = Some 8\<rparr>]" 9000] by simp

text \<open>
  With the robot's clock ahead of the client's, an operation without a start time is listed first
  instead of last: the comparison that moves it to the back assumes that every elapsed time is
  positive.
\<close>

theorem loadCurrentOps_clock_skew:
  "map (op_id \<circ> co_op) (loadCurrentOps 0
     [\<lparr>op_id = ''late'', op_sessionId = [], op_method = [], op_started = Some 5\<rparr>, \<lparr>op_id = ''none'', op_sessionId = [], op_method = [], op_started = None\<rparr>])
   = [''none'', ''late'']"
  by (simp add: loadCurrentOps_def js_sort_def elapsed_cmp_def with_elapsed_def)

text \<open>
  The input controllers with a name are split over the two panels: a \<open>WebGamepad\<close> (of this robot
  or of a remote) gets the gamepad panel, any other gets the controller panel once it has a status; no
  resource is in both.
\<close>

theorem input_controllers_split:
  "set (filteredWebGamepads d) \<inter> set (filteredInputControllerList d) = {}
   \<and> set (filteredWebGamepads d) \<union> set (filteredInputControllerList d) =
     {r \<in> set (rd_resources d). is_input_controller r \<and> rn_name r \<noteq> [] \<and>
        (last (js_split (CHR '':'') (rn_name r)) = ''WebGamepad'' \<or>
         (case resourceStatusByName d r of None \<Rightarrow> False | Some f \<Rightarrow> fixed_truthy f))}"
  by (auto simp: filteredWebGamepads_def filteredInputControllerList_def filterComponentsWithNames_def
      is_input_controller_def)

end
