(* ===== verification/App_Connection.thy ===== *)
theory App_Connection
  imports App_Status
begin

text \<open>
  The connection manager and the login of \<open>app.vue\<close>. \<open>manageLoop\<close> is an asynchronous function with
  five awaits; it is modelled as a machine whose phase says which answer it is waiting for, so that
  status data, closed streams and any other event may come in between. Times are the values of
  \<open>Date.now()\<close>, which each event carries. \<open>isError\<close> is \<open>ConnectionClosedError.isError\<close> of the SDK.
\<close>

section \<open>Errors reported once\<close>

definition handleError :: "string \<Rightarrow> string \<Rightarrow> (string \<times> bool) list \<Rightarrow> (string \<times> bool) list \<times> effect list" where
  "handleError message onceKey errors =
     (if onceKey \<noteq> [] \<and> map_of errors onceKey = Some True then (errors, [])
      else (if onceKey \<noteq> [] then AList.update onceKey True errors else errors,
            [ToastError message, ConsoleError message]))"

text \<open>The list of failed calls names every key of the status object.\<close>

definition error_item :: "string \<Rightarrow> string" where
  "error_item key =
     (if key = ''resources'' then ''<li>Robot Resources</li>''
      else if key = ''ops'' then ''<li>Current Operations</li>''
      else [])"

definition errors_html :: "string list \<Rightarrow> string" where
  "errors_html ks = ''<ul class='' @ [CHR 0x22] @ ''list-disc pl-4'' @ [CHR 0x22] @ ''>'' @ concat (map error_item ks) @ ''</ul>''"

definition handleCallErrors :: "string list \<Rightarrow> (string \<times> bool) list \<Rightarrow> (string \<times> bool) list \<times> effect list" where
  "handleCallErrors ks errors =
     handleError (''Error fetching the following: '' @ errors_html ks) ''connection'' errors"

section \<open>State\<close>

record statuses =
  st_resources :: bool
  st_ops :: bool
  st_sessions :: bool

datatype phase =
    NotStarted
  | Waiting                                   \<comment> \<open>the timer of the next round is set\<close>
  | AwaitMetadata bool                        \<comment> \<open>whether to restart the status stream\<close>
  | AwaitOps int "rejection list"             \<comment> \<open>when it was sent, the errors so far\<close>
  | AwaitSessions "rejection list"
  | AwaitConnect
  | AwaitReconnectOps int
  | Stuck                                     \<comment> \<open>a promise that will never settle\<close>

record app =
  ap_data :: robot_data
  ap_errors :: "(string \<times> bool) list"
  ap_statuses :: statuses
  ap_connectionRestablished :: bool
  ap_errorMessage :: string
  ap_currentOps :: "current_op list"
  ap_currentSessions :: "session list"
  ap_sessionsSupported :: bool
  ap_rtt :: int
  ap_phase :: phase

definition app_init :: app where
  "app_init = \<lparr>ap_data = robot_init, ap_errors = [],
     ap_statuses = \<lparr>st_resources = False, st_ops = False, st_sessions = False\<rparr>,
     ap_connectionRestablished = False, ap_errorMessage = [], ap_currentOps = [], ap_currentSessions = [],
     ap_sessionsSupported = True, ap_rtt = 0, ap_phase = NotStarted\<rparr>"

record app_env =
  ae_webrtcEnabled :: bool
  ae_isError :: "rejection \<Rightarrow> bool"

section \<open>The round\<close>

definition checkIntervalMillis :: int where
  "checkIntervalMillis = 10000"

definition isConnected :: "app_env \<Rightarrow> int \<Rightarrow> app \<Rightarrow> bool" where
  "isConnected env now a \<longleftrightarrow>
     st_resources (ap_statuses a) \<and> st_ops (ap_statuses a) \<and>
     (ae_webrtcEnabled env \<or>
      now - (case rd_lastStatusTS (ap_data a) of None \<Rightarrow> 0 | Some t \<Rightarrow> t) \<le> checkIntervalMillis)"

text \<open>The \<open>finally\<close> clause.\<close>

definition next_round :: "app \<Rightarrow> app \<times> effect list" where
  "next_round a = (a\<lparr>ap_phase := Waiting\<rparr>, [SetTimeout 500])"

definition begin_round :: "app \<Rightarrow> app \<times> effect list" where
  "begin_round a = (let (should, os) = queryMetadata (ap_data a) in (a\<lparr>ap_phase := AwaitMetadata should\<rparr>, os))"

definition fetchCurrentOps :: "effect list" where
  "fetchCurrentOps = [Call (RobotReq GetOperations)]"

definition connected_msg :: string where
  "connected_msg = ''Connection established''"

definition end_round :: "app_env \<Rightarrow> int \<Rightarrow> rejection list \<Rightarrow> app \<Rightarrow> app \<times> effect list" where
  "end_round env now newErrors a =
     (if isConnected env now a then
        (let os = (if ap_connectionRestablished a then [ToastSuccess connected_msg] else []);
             (a', ps) = next_round (a\<lparr>ap_connectionRestablished := False, ap_errorMessage := []\<rparr>)
         in (a', os @ ps))
      else
        (let (errs, os) = (if length newErrors > 0
                           then handleCallErrors [''resources'', ''ops'', ''sessions''] (ap_errors a)
                           else (ap_errors a, []));
             (d, ps) = cancel_stream (ap_data a)
         in (a\<lparr>ap_errors := errs, ap_errorMessage := ''Connection lost, attempting to reconnect ...'',
               ap_data := d\<lparr>rd_resourcesOnce := False\<rparr>, ap_phase := AwaitConnect\<rparr>,
             os @ [ConsoleLog ''reconnecting''] @ ps @ [Connect])))"

definition set_sessions :: "app_env \<Rightarrow> int \<Rightarrow> rejection list \<Rightarrow> session list \<Rightarrow> app \<Rightarrow> app \<times> effect list" where
  "set_sessions env now newErrors list a =
     end_round env now newErrors
       (a\<lparr>ap_currentSessions := list,
          ap_connectionRestablished := ap_connectionRestablished a \<or> \<not> st_sessions (ap_statuses a),
          ap_statuses := (ap_statuses a)\<lparr>st_sessions := True\<rparr>\<rparr>)"

definition after_ops :: "app_env \<Rightarrow> int \<Rightarrow> rejection list \<Rightarrow> app \<Rightarrow> app \<times> effect list" where
  "after_ops env now newErrors a =
     (if st_ops (ap_statuses a) then
        (if ap_sessionsSupported a
         then (a\<lparr>ap_phase := AwaitSessions newErrors\<rparr>, [Call (RobotReq GetSessions)])
         else set_sessions env now newErrors [] a)
      else end_round env now newErrors a)"

definition after_metadata :: "app_env \<Rightarrow> int \<Rightarrow> rejection list \<Rightarrow> app \<Rightarrow> app \<times> effect list" where
  "after_metadata env now newErrors a =
     (if st_resources (ap_statuses a)
      then (a\<lparr>ap_phase := AwaitOps now newErrors\<rparr>, fetchCurrentOps)
      else after_ops env now newErrors a)"

section \<open>The answers\<close>

text \<open>A rejected call: a closed connection clears the flag, another error is kept for the report.\<close>

definition on_metadata ::
  "app_env \<Rightarrow> int \<Rightarrow> bool \<Rightarrow> service_error + resource_name list option \<Rightarrow> app \<Rightarrow> app \<times> effect list" where
  "on_metadata env now should answer a =
     (let ((d, os), r) = queryMetadata_done should answer (ap_data a); a1 = a\<lparr>ap_data := d\<rparr>;
          (a2, ps) = (case r of
            Resolved u \<Rightarrow> after_metadata env now []
              (a1\<lparr>ap_connectionRestablished := ap_connectionRestablished a1 \<or> \<not> st_resources (ap_statuses a1),
                  ap_statuses := (ap_statuses a1)\<lparr>st_resources := True\<rparr>\<rparr>)
          | Rejected e \<Rightarrow>
              if ae_isError env e
              then after_metadata env now [] (a1\<lparr>ap_statuses := (ap_statuses a1)\<lparr>st_resources := False\<rparr>\<rparr>)
              else after_metadata env now [e] a1
          | Raised e \<Rightarrow> (a1\<lparr>ap_phase := Stuck\<rparr>, []))
      in (a2, os @ ps))"

definition ops_answer :: "service_error + operation list option \<Rightarrow> rejection + operation list" where
  "ops_answer answer =
     (case answer of
        Inl e \<Rightarrow> Inl (Service e)
      | Inr None \<Rightarrow> Inl (Plain ''An unexpected issue occurred.'')
      | Inr (Some list) \<Rightarrow> Inr list)"

definition ops_rtt :: "int \<Rightarrow> int \<Rightarrow> service_error + operation list option \<Rightarrow> app \<Rightarrow> app" where
  "ops_rtt now sent answer a = (case answer of Inl e \<Rightarrow> a | Inr x \<Rightarrow> a\<lparr>ap_rtt := max (now - sent) 0\<rparr>)"

definition on_ops ::
  "app_env \<Rightarrow> int \<Rightarrow> int \<Rightarrow> rejection list \<Rightarrow> service_error + operation list option \<Rightarrow> app \<Rightarrow> app \<times> effect list" where
  "on_ops env now sent newErrors answer a =
     (let a1 = ops_rtt now sent answer a
      in case ops_answer answer of
           Inr list \<Rightarrow> after_ops env now newErrors
             (a1\<lparr>ap_currentOps := loadCurrentOps now list,
                 ap_connectionRestablished := ap_connectionRestablished a1 \<or> \<not> st_ops (ap_statuses a1),
                 ap_statuses := (ap_statuses a1)\<lparr>st_ops := True\<rparr>\<rparr>)
         | Inl e \<Rightarrow>
             if ae_isError env e
             then after_ops env now newErrors (a1\<lparr>ap_statuses := (ap_statuses a1)\<lparr>st_ops := False\<rparr>\<rparr>)
             else after_ops env now (newErrors @ [e]) a1)"

definition unimplemented :: int where
  "unimplemented = 12"

definition on_sessions ::
  "app_env \<Rightarrow> int \<Rightarrow> rejection list \<Rightarrow> service_error + session list option \<Rightarrow> app \<Rightarrow> app \<times> effect list" where
  "on_sessions env now newErrors answer a =
     (let fail = (\<lambda>e a. if ae_isError env e
                       then end_round env now newErrors (a\<lparr>ap_statuses := (ap_statuses a)\<lparr>st_sessions := False\<rparr>\<rparr>)
                       else end_round env now (newErrors @ [e]) a)
      in case answer of
           Inl e \<Rightarrow> fail (Service e) (if err_code e = unimplemented then a\<lparr>ap_sessionsSupported := False\<rparr> else a)
         | Inr None \<Rightarrow> fail (Plain ''An unexpected issue occurred.'') a
         | Inr (Some list) \<Rightarrow> set_sessions env now newErrors (sort_sessions list) a)"

definition reconnect_failed :: "app_env \<Rightarrow> rejection \<Rightarrow> app \<Rightarrow> app \<times> effect list" where
  "reconnect_failed env e a =
     (let (a', os) = next_round a
      in (a', ConsoleError (if ae_isError env e then ''failed to reconnect; retrying''
                            else ''failed to reconnect; retrying:'') # os))"

definition on_connect :: "app_env \<Rightarrow> int \<Rightarrow> rejection option \<Rightarrow> app \<Rightarrow> app \<times> effect list" where
  "on_connect env now r a =
     (case r of
        Some e \<Rightarrow> reconnect_failed env e a
      | None \<Rightarrow> (a\<lparr>ap_phase := AwaitReconnectOps now\<rparr>, fetchCurrentOps))"

definition on_reconnect_ops ::
  "app_env \<Rightarrow> int \<Rightarrow> int \<Rightarrow> service_error + operation list option \<Rightarrow> app \<Rightarrow> app \<times> effect list" where
  "on_reconnect_ops env now sent answer a =
     (let a1 = ops_rtt now sent answer a
      in case ops_answer answer of
           Inl e \<Rightarrow> reconnect_failed env e a1
         | Inr list \<Rightarrow>
             (let (a', os) = next_round (a1\<lparr>ap_data := (ap_data a1)\<lparr>rd_lastStatusTS := Some now\<rparr>\<rparr>)
              in (a', ConsoleLog ''reconnected'' # os)))"

section \<open>The manager\<close>

datatype app_event =
    Start int
  | Tick
  | MetadataAnswer int "service_error + resource_name list option"
  | OpsAnswer int "service_error + operation list option"
  | SessionsAnswer int "service_error + session list option"
  | ConnectAnswer int "rejection option"
  | StatusData int "grpc_status list"
  | StreamClosed bool
  | StreamEnded
  | SensorsAnswer "service_error + resource_name list"

definition on_data :: "(robot_data \<Rightarrow> robot_data \<times> effect list) \<Rightarrow> app \<Rightarrow> app \<times> effect list" where
  "on_data f a = (let (d, os) = f (ap_data a) in (a\<lparr>ap_data := d\<rparr>, os))"

text \<open>An answer counts only in the phase that awaits it; the timer only when it is set.\<close>

fun app_handle :: "app_env \<Rightarrow> (app, app_event, effect) handler" where
  "app_handle env a (Start now) =
     (if ap_phase a = NotStarted
      then begin_round (a\<lparr>ap_data := (ap_data a)\<lparr>rd_lastStatusTS := Some now\<rparr>\<rparr>) else (a, []))"
| "app_handle env a Tick = (if ap_phase a = Waiting then begin_round a else (a, []))"
| "app_handle env a (MetadataAnswer now r) =
     (case ap_phase a of AwaitMetadata should \<Rightarrow> on_metadata env now should r a | _ \<Rightarrow> (a, []))"
| "app_handle env a (OpsAnswer now r) =
     (case ap_phase a of
        AwaitOps sent errs \<Rightarrow> on_ops env now sent errs r a
      | AwaitReconnectOps sent \<Rightarrow> on_reconnect_ops env now sent r a
      | _ \<Rightarrow> (a, []))"
| "app_handle env a (SessionsAnswer now r) =
     (case ap_phase a of AwaitSessions errs \<Rightarrow> on_sessions env now errs r a | _ \<Rightarrow> (a, []))"
| "app_handle env a (ConnectAnswer now r) =
     (case ap_phase a of AwaitConnect \<Rightarrow> on_connect env now r a | _ \<Rightarrow> (a, []))"
| "app_handle env a (StatusData now gs) = on_data (status_data gs now) a"
| "app_handle env a (StreamClosed c) = on_data (stream_status c) a"
| "app_handle env a StreamEnded = on_data stream_end a"
| "app_handle env a (SensorsAnswer r) = on_data (querySensors_done r) a"

section \<open>Progress\<close>

text \<open>How many answers the round may still need.\<close>

fun rank :: "phase \<Rightarrow> nat" where
  "rank (AwaitMetadata b) = 5"
| "rank (AwaitOps t es) = 4"
| "rank (AwaitSessions es) = 3"
| "rank AwaitConnect = 2"
| "rank (AwaitReconnectOps t) = 1"
| "rank _ = 0"

fun answers :: "phase \<Rightarrow> app_event \<Rightarrow> bool" where
  "answers (AwaitMetadata b) (MetadataAnswer t r) = True"
| "answers (AwaitOps t0 es) (OpsAnswer t r) = True"
| "answers (AwaitSessions es) (SessionsAnswer t r) = True"
| "answers AwaitConnect (ConnectAnswer t r) = True"
| "answers (AwaitReconnectOps t0) (OpsAnswer t r) = True"
| "answers _ _ = False"

text \<open>A step that leaves the round in a phase of rank below \<open>n\<close>, with the timer set when it is over.\<close>

definition advances :: "nat \<Rightarrow> app \<times> effect list \<Rightarrow> bool" where
  "advances n r \<longleftrightarrow> rank (ap_phase (fst r)) < n \<and> ap_phase (fst r) \<noteq> NotStarted \<and>
     (ap_phase (fst r) = Waiting \<longrightarrow> SetTimeout 500 \<in> set (snd r)) \<and> ap_phase (fst r) \<noteq> Stuck"

lemma next_round_advances: "0 < n \<Longrightarrow> advances n (next_round a)"
  by (simp add: advances_def next_round_def)

lemma advances_mono: "advances m r \<Longrightarrow> m \<le> n \<Longrightarrow> advances n r"
  by (auto simp: advances_def)

lemma end_round_advances: "advances 3 (end_round env now errs a)"
  by (simp add: advances_def end_round_def next_round_def split_def Let_def)

lemma set_sessions_advances: "advances 3 (set_sessions env now errs l a)"
  by (simp add: set_sessions_def end_round_advances)

lemma after_ops_advances: "advances 4 (after_ops env now errs a)"
  using advances_mono [OF end_round_advances, of 4] advances_mono [OF set_sessions_advances, of 4]
  by (simp add: after_ops_def) (simp add: advances_def)

lemma after_metadata_advances: "advances 5 (after_metadata env now errs a)"
  using advances_mono [OF after_ops_advances, of 5]
  by (simp add: after_metadata_def) (simp add: advances_def)

lemma on_ops_advances: "advances 4 (on_ops env now sent errs r a)"
  by (simp add: on_ops_def after_ops_advances Let_def split: sum.splits)

lemma on_sessions_advances: "advances 3 (on_sessions env now errs r a)"
  by (simp add: on_sessions_def end_round_advances set_sessions_advances Let_def split: sum.splits option.splits)

lemma reconnect_failed_advances: "advances 1 (reconnect_failed env e a)"
  by (simp add: advances_def reconnect_failed_def next_round_def)

lemma on_connect_advances: "advances 2 (on_connect env now r a)"
  using advances_mono [OF reconnect_failed_advances, of 2]
  by (cases r) (simp_all add: on_connect_def advances_def)

lemma on_reconnect_ops_advances: "advances 1 (on_reconnect_ops env now sent r a)"
  by (auto simp: on_reconnect_ops_def reconnect_failed_def next_round_def advances_def Let_def split: sum.splits)

lemma on_metadata_advances:
  assumes "\<And>e. snd (queryMetadata_done should r (ap_data a)) \<noteq> Raised e"
  shows "advances 5 (on_metadata env now should r a)"
proof -
  have ext: "advances 5 (fst r', os @ snd r')" if "advances 5 r'" for r' os
    using that by (simp add: advances_def)
  show ?thesis
  proof (cases "snd (queryMetadata_done should r (ap_data a))")
    case (Raised e)
    then show ?thesis using assms [of e] by simp
  qed (simp_all add: on_metadata_def split_def Let_def ext [OF after_metadata_advances])
qed

lemma metadata_raises:
  assumes "snd (queryMetadata_done should r d) = Raised e"
  shows "\<exists>rs. r = Inr (Some rs) \<and> any_relevant (differences (map (\<lambda>x. resourceNameToString (Some x)) (rd_resources d))
           (map (\<lambda>x. resourceNameToString (Some x)) rs)) = Inl e"
  using assms by (auto simp: queryMetadata_done_def split_def Let_def split: sum.splits option.splits)

section \<open>The report of failed calls\<close>

definition call_error_msg :: string where
  "call_error_msg = ''Error fetching the following: '' @ errors_html [''resources'', ''ops'', ''sessions'']"

definition reports :: "effect list \<Rightarrow> nat" where
  "reports os = length (filter (\<lambda>x. x = ToastError call_error_msg) os)"

definition reported :: "app \<Rightarrow> bool" where
  "reported a \<longleftrightarrow> map_of (ap_errors a) ''connection'' = Some True"

text \<open>A step reports at most once, only when it had not reported before, and remembers it.\<close>

definition keeps_count :: "app \<Rightarrow> app \<times> effect list \<Rightarrow> bool" where
  "keeps_count a r \<longleftrightarrow>
     reports (snd r) = of_bool (reported (fst r)) - of_bool (reported a) \<and> (reported a \<longrightarrow> reported (fst r))"

lemma reports_simps [simp]:
  "reports [] = 0" "reports (x # os) = of_bool (x = ToastError call_error_msg) + reports os"
  "reports (os @ ps) = reports os + reports ps"
  by (simp_all add: reports_def)

lemma keeps_count_quiet:
  "ap_errors (fst r) = ap_errors a \<Longrightarrow> reports (snd r) = 0 \<Longrightarrow> keeps_count a r"
  by (simp add: keeps_count_def reported_def)

lemma keeps_count_from:
  "keeps_count b r \<Longrightarrow> ap_errors b = ap_errors a \<Longrightarrow> keeps_count a r"
  by (simp add: keeps_count_def reported_def)

lemma keeps_count_after:
  "keeps_count a r \<Longrightarrow> reports os = 0 \<Longrightarrow> keeps_count a (fst r, os @ snd r)"
  by (simp add: keeps_count_def)

lemma reports_cancel [simp]: "reports (snd (cancel_stream d)) = 0"
  by (simp add: cancel_stream_def)

lemma end_round_count: "keeps_count a (end_round env now errs a)"
  by (auto simp: keeps_count_def end_round_def next_round_def handleCallErrors_def handleError_def reported_def
      call_error_msg_def connected_msg_def dict_simps split_def Let_def)

lemma set_sessions_count: "keeps_count a (set_sessions env now errs l a)"
  unfolding set_sessions_def by (rule keeps_count_from [OF end_round_count]) simp

lemma after_ops_count: "keeps_count a (after_ops env now errs a)"
  by (auto simp: after_ops_def set_sessions_count end_round_count intro: keeps_count_quiet)

lemma after_metadata_count: "keeps_count a (after_metadata env now errs a)"
  by (auto simp: after_metadata_def after_ops_count fetchCurrentOps_def intro: keeps_count_quiet)

lemma ops_rtt_errors [simp]: "ap_errors (ops_rtt now sent r a) = ap_errors a"
  by (simp add: ops_rtt_def split: sum.splits)

lemma on_ops_count: "keeps_count a (on_ops env now sent errs r a)"
  by (auto simp: on_ops_def Let_def split: sum.splits intro!: keeps_count_from [OF after_ops_count])

lemma on_sessions_count: "keeps_count a (on_sessions env now errs r a)"
  by (auto simp: on_sessions_def Let_def split: sum.splits option.splits
      intro!: keeps_count_from [OF end_round_count] keeps_count_from [OF set_sessions_count])

lemma reconnect_failed_count: "keeps_count a (reconnect_failed env e a)"
  by (auto simp: reconnect_failed_def next_round_def intro: keeps_count_quiet)

lemma on_reconnect_ops_count: "keeps_count a (on_reconnect_ops env now sent r a)"
  by (auto simp: on_reconnect_ops_def next_round_def Let_def split: sum.splits
      intro!: keeps_count_from [OF reconnect_failed_count] keeps_count_quiet)

lemma reports_calls: "(\<And>x. x \<in> set os \<Longrightarrow> x \<noteq> ToastError call_error_msg) \<Longrightarrow> reports os = 0"
  by (auto simp: reports_def filter_empty_conv)

lemma reports_metadata: "reports (snd (fst (queryMetadata_done should r d))) = 0"
  by (rule reports_calls)
    (auto simp: queryMetadata_done_def restart_names cancel_stream_def split_def Let_def
      split: sum.splits option.splits if_splits dest!: querySensors_only)

lemma on_metadata_count: "keeps_count a (on_metadata env now should r a)"
proof -
  have "keeps_count a (fst x, snd (fst (queryMetadata_done should r (ap_data a))) @ snd x)"
    if "keeps_count b x" "ap_errors b = ap_errors a" for b x
    using keeps_count_after [OF keeps_count_from [OF that] reports_metadata] .
  from this [OF after_metadata_count] reports_metadata [of should r "ap_data a"] show ?thesis
    by (auto simp: on_metadata_def split_def Let_def split: settled.splits intro: keeps_count_quiet)
qed

lemma reports_update: "reports (fst (snd (updateStatus gs d))) = 0"
proof (induction gs arbitrary: d)
  case (Cons g gs)
  have "ToastError (''Couldn'' @ x) \<noteq> ToastError call_error_msg" for x
    by (simp add: call_error_msg_def)
  then show ?case using Cons
    by (auto simp: updateStatus1_def split_def Let_def split: option.splits sum.splits)
qed simp

text \<open>The sensors' error messages are the service's own text; one that imitates the report is left out.\<close>

fun own_reports :: "app_event \<Rightarrow> bool" where
  "own_reports (SensorsAnswer (Inl e)) = (err_message e \<noteq> call_error_msg)"
| "own_reports _ = True"

lemma app_handle_count:
  assumes "own_reports e"
  shows "keeps_count a (app_handle env a e)"
proof (cases e)
  case (StatusData now gs)
  then show ?thesis using reports_update [of gs "ap_data a"]
    by (auto simp: on_data_def status_data_def split_def Let_def intro: keeps_count_quiet)
next
  case (SensorsAnswer r)
  then show ?thesis using assms
    by (cases r) (auto simp: on_data_def querySensors_done_def displayError_def intro: keeps_count_quiet)
qed (auto simp: begin_round_def queryMetadata_def on_metadata_count on_ops_count on_sessions_count
      on_reconnect_ops_count reconnect_failed_count on_connect_def fetchCurrentOps_def on_data_def
      stream_status_def stream_end_def split: phase.splits option.splits intro!: keeps_count_quiet)

interpretation report: history_system "app_handle env" "\<lambda>a. \<not> reported a" own_reports
    "\<lambda>a os. reports os = of_bool (reported a)" for env
proof unfold_locales
  fix a e and os :: "effect list"
  assume "reports os = of_bool (reported a)" "own_reports e"
  then show "reports (os @ snd (app_handle env a e)) = of_bool (reported (fst (app_handle env a e)))"
    using app_handle_count [of e a env] by (auto simp: keeps_count_def)
qed simp

section \<open>The status dictionaries\<close>

text \<open>Only the status stream writes the dictionaries; the rounds of the manager leave them alone.\<close>

definition dicts :: "app \<Rightarrow> (string \<times> jsval) list \<times> (string \<times> fixed_status) list" where
  "dicts a = (rd_rawStatus (ap_data a), rd_status (ap_data a))"

lemma cancel_stream_data [simp]:
  "rd_status (fst (cancel_stream d)) = rd_status d" "rd_rawStatus (fst (cancel_stream d)) = rd_rawStatus d"
  by (simp_all add: cancel_stream_def)

lemma end_round_dicts: "dicts (fst (end_round env now errs a)) = dicts a"
  by (simp add: end_round_def next_round_def split_def Let_def dicts_def)

lemma set_sessions_dicts: "dicts (fst (set_sessions env now errs l a)) = dicts a"
  by (simp add: set_sessions_def end_round_dicts) (simp add: dicts_def)

lemma after_ops_dicts: "dicts (fst (after_ops env now errs a)) = dicts a"
  by (simp add: after_ops_def end_round_dicts set_sessions_dicts) (simp add: dicts_def)

lemma after_metadata_dicts: "dicts (fst (after_metadata env now errs a)) = dicts a"
  by (simp add: after_metadata_def after_ops_dicts) (simp add: dicts_def)

lemma ops_rtt_data [simp]: "ap_data (ops_rtt now sent r a) = ap_data a"
  by (simp add: ops_rtt_def split: sum.splits)

lemma on_ops_dicts: "dicts (fst (on_ops env now sent errs r a)) = dicts a"
  by (simp add: on_ops_def Let_def after_ops_dicts split: sum.splits) (simp add: dicts_def)

lemma on_sessions_dicts: "dicts (fst (on_sessions env now errs r a)) = dicts a"
  by (simp add: on_sessions_def Let_def end_round_dicts set_sessions_dicts split: sum.splits option.splits)
    (simp add: dicts_def)

lemma on_reconnect_ops_dicts: "dicts (fst (on_reconnect_ops env now sent r a)) = dicts a"
  by (auto simp: on_reconnect_ops_def reconnect_failed_def next_round_def dicts_def Let_def split: sum.splits)

lemma on_connect_dicts: "dicts (fst (on_connect env now r a)) = dicts a"
  by (simp add: on_connect_def reconnect_failed_def next_round_def dicts_def split: option.splits)

lemma queryMetadata_done_dicts:
  "rd_rawStatus (fst (fst (queryMetadata_done sr r d))) = rd_rawStatus d"
  "rd_status (fst (fst (queryMetadata_done sr r d))) = rd_status d"
  by (auto simp: queryMetadata_done_def restart_data split_def Let_def split: sum.splits option.splits)

lemma on_metadata_dicts: "dicts (fst (on_metadata env now sr r a)) = dicts a"
  by (simp add: on_metadata_def after_metadata_dicts split_def Let_def split: settled.splits)
    (simp add: dicts_def queryMetadata_done_dicts)

fun status_messages :: "app_event \<Rightarrow> (resource_name \<times> jsval) list" where
  "status_messages (StatusData now gs) = complete gs"
| "status_messages _ = []"

lemma app_handle_dicts:
  "map_of (rd_rawStatus (ap_data (fst (app_handle env a e)))) k =
     (case last_fixable (status_messages e) k of None \<Rightarrow> map_of (rd_rawStatus (ap_data a)) k | Some (r, v) \<Rightarrow> Some v) \<and>
   map_of (rd_status (ap_data (fst (app_handle env a e)))) k =
     (case last_fixable (status_messages e) k of None \<Rightarrow> map_of (rd_status (ap_data a)) k
      | Some (r, v) \<Rightarrow> Some (projr (fixRawStatus r v)))"
proof (cases "\<exists>now gs. e = StatusData now gs")
  case True
  then obtain now gs where e: "e = StatusData now gs" by blast
  obtain d' os ok where u: "updateStatus gs (ap_data a) = (d', os, ok)" by (cases "updateStatus gs (ap_data a)")
  show ?thesis using updateStatus_effect [OF u, of k]
    by (simp add: e on_data_def status_data_def u)
next
  case False
  then have "status_messages e = []" by (cases e) auto
  moreover have "dicts (fst (app_handle env a e)) = dicts a"
  proof (cases e)
    case (Start now)
    then show ?thesis by (simp add: begin_round_def queryMetadata_def dicts_def)
  next
    case Tick
    then show ?thesis by (simp add: begin_round_def queryMetadata_def dicts_def)
  next
    case (SensorsAnswer r)
    then show ?thesis by (cases r) (simp_all add: on_data_def querySensors_done_def dicts_def)
  next
    case (StreamClosed c)
    then show ?thesis by (simp add: on_data_def stream_status_def dicts_def)
  next
    case StreamEnded
    then show ?thesis by (simp add: on_data_def stream_end_def dicts_def)
  qed (use False in \<open>simp_all add: on_metadata_dicts on_ops_dicts on_sessions_dicts on_connect_dicts
      on_reconnect_ops_dicts split: phase.splits\<close>)
  ultimately show ?thesis by (simp add: dicts_def)
qed

section \<open>Waiting for the resource list\<close>

text \<open>While the answer is awaited nothing else reads or writes the resources.\<close>

fun is_metadata :: "app_event \<Rightarrow> bool" where
  "is_metadata (MetadataAnswer now r) = True"
| "is_metadata _ = False"

lemma awaiting_step:
  assumes "ap_phase a = AwaitMetadata b" "\<not> is_metadata e"
  shows "ap_phase (fst (app_handle env a e)) = AwaitMetadata b \<and>
         rd_resources (ap_data (fst (app_handle env a e))) = rd_resources (ap_data a)"
proof (cases e)
  case (StatusData now gs)
  obtain d' os ok where u: "updateStatus gs (ap_data a) = (d', os, ok)" by (cases "updateStatus gs (ap_data a)")
  have "rd_resources d' = rd_resources (ap_data a)"
    using updateStatus_effect [OF u] by (metis robot_data.ext_inject robot_data.surjective robot_data.update_convs(1,2))
  then show ?thesis using assms StatusData by (simp add: on_data_def status_data_def u)
next
  case (SensorsAnswer r)
  then show ?thesis using assms by (cases r) (simp_all add: on_data_def querySensors_done_def)
qed (use assms in \<open>simp_all add: on_data_def stream_status_def stream_end_def\<close>)

lemma awaiting_run:
  "ap_phase a = AwaitMetadata b \<Longrightarrow> list_all (\<lambda>e. \<not> is_metadata e) es \<Longrightarrow>
   ap_phase (final (app_handle env) a es) = AwaitMetadata b \<and>
   rd_resources (ap_data (final (app_handle env) a es)) = rd_resources (ap_data a)"
  by (induction es arbitrary: a) (simp_all add: awaiting_step run_Cons del: run.simps(2))

text \<open>The events that begin a round.\<close>

definition asks :: "app \<Rightarrow> app_event \<Rightarrow> bool" where
  "asks a e \<longleftrightarrow> ap_phase a = Waiting \<and> e = Tick \<or> ap_phase a = NotStarted \<and> (\<exists>now. e = Start now)"

lemma asks_step:
  "asks a e \<Longrightarrow> ap_phase (fst (app_handle env a e)) =
       AwaitMetadata (\<not> (rd_resourcesOnce (ap_data a) \<and> rd_statusStream (ap_data a))) \<and>
     rd_resources (ap_data (fst (app_handle env a e))) = rd_resources (ap_data a) \<and>
     snd (app_handle env a e) = [Call (RobotReq ResourceNames)]"
  by (auto simp: asks_def begin_round_def queryMetadata_def)

lemma querySensors_iff:
  "(\<exists>n. Call (SensorsReq (GetSensors n)) \<in> set (querySensors d)) \<longleftrightarrow>
     filterNonRemoteResources (rd_resources d) ''rdk'' ''service'' ''sensors'' \<noteq> []"
  by (cases "filterNonRemoteResources (rd_resources d) ''rdk'' ''service'' ''sensors''") (simp_all add: querySensors_def)

lemma querySensors_no_stream: "Call (RobotReq x) \<notin> set (querySensors d)"
  by (auto dest: querySensors_only)

section \<open>Announcing the connection\<close>

definition established :: "app_env \<Rightarrow> int \<Rightarrow> app \<times> effect list \<Rightarrow> bool" where
  "established env now r \<longleftrightarrow> (ToastSuccess connected_msg \<in> set (snd r) \<longrightarrow>
     isConnected env now (fst r) \<and> ap_errorMessage (fst r) = [] \<and> \<not> ap_connectionRestablished (fst r)
     \<and> ap_phase (fst r) = Waiting)"

lemma established_quiet: "ToastSuccess connected_msg \<notin> set (snd r) \<Longrightarrow> established env now r"
  by (simp add: established_def)

lemma end_round_established: "established env now (end_round env now errs a)"
  by (auto simp: established_def end_round_def next_round_def isConnected_def handleCallErrors_def handleError_def
      cancel_stream_def split_def Let_def split: if_splits)

lemma set_sessions_established: "established env now (set_sessions env now errs l a)"
  by (simp add: set_sessions_def end_round_established)

lemma after_ops_established: "established env now (after_ops env now errs a)"
  by (auto simp: after_ops_def end_round_established set_sessions_established intro: established_quiet)

lemma after_metadata_established: "established env now (after_metadata env now errs a)"
  by (auto simp: after_metadata_def after_ops_established fetchCurrentOps_def intro: established_quiet)

lemma on_ops_established: "established env now (on_ops env now sent errs r a)"
  by (simp add: on_ops_def Let_def after_ops_established split: sum.splits)

lemma on_sessions_established: "established env now (on_sessions env now errs r a)"
  by (simp add: on_sessions_def Let_def end_round_established set_sessions_established split: sum.splits option.splits)

lemma metadata_no_success: "ToastSuccess m \<notin> set (snd (fst (queryMetadata_done sr r d)))"
  by (auto simp: queryMetadata_done_def restart_names cancel_stream_def split_def Let_def
      split: sum.splits option.splits if_splits dest!: querySensors_only)

lemma on_metadata_established: "established env now (on_metadata env now sr r a)"
proof -
  have "established env now (fst x, snd (fst (queryMetadata_done sr r (ap_data a))) @ snd x)"
    if "established env now x" for x
    using that metadata_no_success by (simp add: established_def)
  from this [OF after_metadata_established] metadata_no_success [of connected_msg sr r "ap_data a"] show ?thesis
    by (auto simp: on_metadata_def split_def Let_def split: settled.splits intro: established_quiet)
qed

text \<open>The time an event carries.\<close>

fun time_of :: "app_event \<Rightarrow> int" where
  "time_of (Start now) = now"
| "time_of (MetadataAnswer now r) = now"
| "time_of (OpsAnswer now r) = now"
| "time_of (SessionsAnswer now r) = now"
| "time_of (ConnectAnswer now r) = now"
| "time_of (StatusData now gs) = now"
| "time_of _ = 0"

lemma updateStatus_no_success: "ToastSuccess m \<notin> set (fst (snd (updateStatus gs d)))"
  by (induction gs arbitrary: d)
    (auto simp: updateStatus1_def split_def Let_def split: option.splits sum.splits)

lemma app_handle_established: "established env (time_of e) (app_handle env a e)"
proof (cases e)
  case (StatusData now gs)
  then show ?thesis using updateStatus_no_success
    by (simp add: on_data_def status_data_def split_def Let_def established_def)
next
  case (SensorsAnswer r)
  then show ?thesis by (cases r) (simp_all add: on_data_def querySensors_done_def displayError_def established_def)
qed (auto simp: begin_round_def queryMetadata_def on_data_def stream_status_def stream_end_def on_connect_def
      fetchCurrentOps_def reconnect_failed_def next_round_def on_reconnect_ops_def Let_def
      on_metadata_established on_ops_established on_sessions_established
      split: phase.splits option.splits sum.splits intro!: established_quiet)

section \<open>Signing in\<close>

text \<open>
  \<open>doConnect\<close>, \<open>doLogin\<close> and \<open>initConnect\<close>, with the mounted hook. Each call of \<open>client.connect\<close> that has not
  settled is kept with its caller, each retry timer is counted. The promise \<open>connectedFirstTime\<close> is part
  of the state: the hook stops at its await, and goes on, in a step of its own, once the promise is
  resolved.
\<close>

datatype connector = ByLogin | ByInit

datatype login_out =
    LEff effect
  | ConnectAs string string string            \<comment> \<open>entity, type and payload of the credentials\<close>
  | StartManager
  | AddResizeListeners
  | RetryInit nat                             \<comment> \<open>\<open>setTimeout(initConnect, ms)\<close>\<close>

record login =
  lg_password :: string
  lg_disableAuthElements :: bool
  lg_connectingShown :: bool
  lg_preAppShown :: bool
  lg_connectedOnce :: bool
  lg_connectedFirstTime :: bool               \<comment> \<open>the promise is resolved\<close>
  lg_waiting :: nat                           \<comment> \<open>hooks stopped at \<open>await connectedFirstTime\<close>\<close>
  lg_pending :: "connector list"
  lg_retries :: nat                           \<comment> \<open>timers of \<open>initConnect\<close> that have not fired\<close>

record login_env =
  le_supportedAuthTypes :: "string list"
  le_host :: string
  le_baked :: "string \<times> string \<times> string"

definition login_init :: login where
  "login_init = \<lparr>lg_password = [], lg_disableAuthElements = False, lg_connectingShown = False,
     lg_preAppShown = True, lg_connectedOnce = False, lg_connectedFirstTime = False, lg_waiting = 0,
     lg_pending = [], lg_retries = 0\<rparr>"

definition doConnect :: "string \<times> string \<times> string \<Rightarrow> connector \<Rightarrow> login \<Rightarrow> login \<times> login_out list" where
  "doConnect creds who s =
     (let (entity, ty, payload) = creds
      in (s\<lparr>lg_connectingShown := True, lg_pending := lg_pending s @ [who]\<rparr>, [ConnectAs entity ty payload]))"

definition doLogin :: "login_env \<Rightarrow> string \<Rightarrow> login \<Rightarrow> login \<times> login_out list" where
  "doLogin env authType s =
     doConnect (le_host env, authType, lg_password s) ByLogin (s\<lparr>lg_disableAuthElements := True\<rparr>)"

definition initConnect :: "login_env \<Rightarrow> login \<Rightarrow> login \<times> login_out list" where
  "initConnect env s =
     (if length (le_supportedAuthTypes env) = 0 then doConnect (le_baked env) ByInit s else (s, []))"

text \<open>The rest of \<open>doConnect\<close>: the error handler of its caller, or the first connection.\<close>

definition connect_failed :: "connector \<Rightarrow> string \<Rightarrow> login \<Rightarrow> login \<times> login_out list" where
  "connect_failed who error s =
     (case who of
        ByLogin \<Rightarrow>
          (s\<lparr>lg_connectingShown := False, lg_disableAuthElements := False\<rparr>,
           map LEff [ConsoleError ''failed to connect:'', ConsoleError error, ToastError (''failed to connect: '' @ error)])
      | ByInit \<Rightarrow>
          (s\<lparr>lg_retries := Suc (lg_retries s)\<rparr>,
           map LEff [ConsoleError ''failed to connect:'', ToastError ''failed to connect; retrying''] @ [RetryInit 1000]))"

definition connect_succeeded :: "login \<Rightarrow> login \<times> login_out list" where
  "connect_succeeded s =
     (s\<lparr>lg_preAppShown := False, lg_disableAuthElements := False, lg_connectedOnce := True,
        lg_connectedFirstTime := True\<rparr>, [])"

text \<open>The mounted hook up to its await, and from there on.\<close>

definition mounted_hook :: "login_env \<Rightarrow> login \<Rightarrow> login \<times> login_out list" where
  "mounted_hook env s = (let (s', os) = initConnect env s in (s'\<lparr>lg_waiting := Suc (lg_waiting s')\<rparr>, os))"

definition hook_resumes :: "login \<Rightarrow> login \<times> login_out list" where
  "hook_resumes s =
     (if lg_connectedFirstTime s \<and> lg_waiting s > 0
      then (s\<lparr>lg_waiting := lg_waiting s - 1\<rparr>, [StartManager, AddResizeListeners]) else (s, []))"

datatype login_event =
    AppMounted
  | HookResumes
  | TypePassword string
  | PressEnter string
  | ClickLogin string
  | RetryTimer
  | ConnectSettled nat "string option"

text \<open>The form has one input and one button per supported type of authentication.\<close>

fun login_handle :: "login_env \<Rightarrow> (login, login_event, login_out) handler" where
  "login_handle env s AppMounted = mounted_hook env s"
| "login_handle env s HookResumes = hook_resumes s"
| "login_handle env s (TypePassword p) = (if lg_disableAuthElements s then s else s\<lparr>lg_password := p\<rparr>, [])"
| "login_handle env s (PressEnter t) =
     (if lg_disableAuthElements s \<or> t \<notin> set (le_supportedAuthTypes env) then (s, []) else doLogin env t s)"
| "login_handle env s (ClickLogin t) =
     (if lg_disableAuthElements s \<or> t \<notin> set (le_supportedAuthTypes env) then (s, []) else doLogin env t s)"
| "login_handle env s RetryTimer =
     (if lg_retries s > 0 then initConnect env (s\<lparr>lg_retries := lg_retries s - 1\<rparr>) else (s, []))"
| "login_handle env s (ConnectSettled i r) =
     (if i < length (lg_pending s) then
        (let who = lg_pending s ! i; s' = s\<lparr>lg_pending := take i (lg_pending s) @ drop (Suc i) (lg_pending s)\<rparr>
         in case r of Some e \<Rightarrow> connect_failed who e s' | None \<Rightarrow> connect_succeeded s')
      else (s, []))"

text \<open>
  What the page is, from its history: how often it was mounted, whether a call of \<open>client.connect\<close> under
  way at the time succeeded, and how often the manager was started.
\<close>

definition mounts :: "login_event list \<Rightarrow> nat" where
  "mounts es = length (filter (\<lambda>e. e = AppMounted) es)"

definition starts :: "login_out list \<Rightarrow> nat" where
  "starts os = length (filter (\<lambda>x. x = StartManager) os)"

lemma starts_simps [simp]:
  "starts [] = 0" "starts (x # os) = of_bool (x = StartManager) + starts os" "starts (os @ ps) = starts os + starts ps"
  by (simp_all add: starts_def)

lemma mounts_snoc [simp]: "mounts (es @ [e]) = mounts es + of_bool (e = AppMounted)" "mounts [] = 0"
  by (simp_all add: mounts_def)

definition reached :: "login_env \<Rightarrow> login_event list \<Rightarrow> bool" where
  "reached env es \<longleftrightarrow> (\<exists>es1 i es2. es = es1 @ ConnectSettled i None # es2 \<and>
     i < length (lg_pending (final (login_handle env) login_init es1)))"

lemma reached_snoc:
  "reached env (es @ [e]) \<longleftrightarrow> reached env es \<or>
     (\<exists>i. e = ConnectSettled i None \<and> i < length (lg_pending (final (login_handle env) login_init es)))"
proof
  assume "reached env (es @ [e])"
  then obtain es1 i es2 where r: "es @ [e] = es1 @ ConnectSettled i None # es2"
    "i < length (lg_pending (final (login_handle env) login_init es1))" unfolding reached_def by blast
  then show "reached env es \<or>
     (\<exists>i. e = ConnectSettled i None \<and> i < length (lg_pending (final (login_handle env) login_init es)))"
    by (cases es2 rule: rev_cases) (auto simp: reached_def)
next
  assume "reached env es \<or>
     (\<exists>i. e = ConnectSettled i None \<and> i < length (lg_pending (final (login_handle env) login_init es)))"
  then show "reached env (es @ [e])" unfolding reached_def by fastforce
qed

definition login_ok :: "login_env \<Rightarrow> login_event list \<Rightarrow> login \<Rightarrow> login_out list \<Rightarrow> bool" where
  "login_ok env es s os \<longleftrightarrow> s = final (login_handle env) login_init es
     \<and> starts os + lg_waiting s = mounts es \<and> (starts os > 0 \<longrightarrow> lg_connectedOnce s)
     \<and> lg_connectedOnce s = reached env es \<and> lg_connectedFirstTime s = lg_connectedOnce s
     \<and> lg_preAppShown s = (\<not> lg_connectedOnce s)
     \<and> (le_supportedAuthTypes env = [] \<and> mounts es \<le> 1 \<longrightarrow>
          list_all (\<lambda>w. w = ByInit) (lg_pending s) \<and>
          length (lg_pending s) + lg_retries s + of_bool (lg_connectedOnce s) = mounts es)"

lemmas login_ops = mounted_hook_def hook_resumes_def initConnect_def doLogin_def doConnect_def connect_failed_def
  connect_succeeded_def

interpretation login: trace_system "login_handle env" login_init "login_ok env" for env
proof unfold_locales
  show "login_ok env [] login_init []"
    by (simp add: login_ok_def login_init_def reached_def)
next
  fix es s e and os :: "login_out list"
  assume ok: "login_ok env es s os"
  then have s: "s = final (login_handle env) login_init es" by (simp add: login_ok_def)
  have f: "fst (login_handle env s e) = final (login_handle env) login_init (es @ [e])"
    by (simp add: s run_append run_Cons del: run.simps(2) login_handle.simps)
  show "login_ok env (es @ [e]) (fst (login_handle env s e)) (os @ snd (login_handle env s e))"
    unfolding login_ok_def f [symmetric] reached_snoc s [symmetric]
    using ok
    by (cases e) (auto simp: login_ok_def login_ops list_all_iff split_def Let_def
        split: option.splits connector.splits dest: in_set_takeD in_set_dropD, metis connector.distinct(1) nth_mem)
qed

section \<open>Properties\<close>

text \<open>
  C3. The round always moves on: whatever the awaited answer is (success, a closed connection, another
  error or no response), the answer brings the round to a later phase, the last of which sets the
  timer of the next round; five answers at most end a round. Resource names are assumed printable.
\<close>

theorem manager_loop_progress:
  assumes "answers (ap_phase a) e"
    and "set (rd_resources (ap_data a)) \<subseteq> Collect printable"
    and "\<And>now rs. e = MetadataAnswer now (Inr (Some rs)) \<Longrightarrow> set rs \<subseteq> Collect printable"
  shows "let (a', os) = app_handle env a e
         in rank (ap_phase a') < rank (ap_phase a) \<and> rank (ap_phase a) \<le> 5 \<and>
            ap_phase a' \<notin> {NotStarted, Stuck} \<and> (ap_phase a' = Waiting \<longrightarrow> SetTimeout 500 \<in> set os)"
proof -
  have "advances (rank (ap_phase a)) (app_handle env a e)"
  proof (cases "ap_phase a")
    case (AwaitMetadata b)
    then obtain now r where e: "e = MetadataAnswer now r" using assms(1) by (cases e) auto
    have "snd (queryMetadata_done b r (ap_data a)) \<noteq> Raised x" for x
    proof
      assume "snd (queryMetadata_done b r (ap_data a)) = Raised x"
      from metadata_raises [OF this] obtain rs where rs: "r = Inr (Some rs)"
        and bad: "any_relevant (differences (map (\<lambda>x. resourceNameToString (Some x)) (rd_resources (ap_data a)))
           (map (\<lambda>x. resourceNameToString (Some x)) rs)) = Inl x" by blast
      have "set rs \<subseteq> Collect printable" using assms(3) e rs by blast
      from relevant_changes [OF assms(2) this] bad show False by simp
    qed
    from on_metadata_advances [OF this] show ?thesis using AwaitMetadata e by simp
  next
    case (AwaitOps t es)
    then show ?thesis using assms(1) by (cases e) (simp_all add: on_ops_advances)
  next
    case (AwaitSessions es)
    then show ?thesis using assms(1) by (cases e) (simp_all add: on_sessions_advances)
  next
    case AwaitConnect
    then show ?thesis using assms(1) by (cases e) (simp_all add: on_connect_advances)
  next
    case (AwaitReconnectOps t)
    then show ?thesis using assms(1) on_reconnect_ops_advances by (cases e) simp_all
  qed (use assms(1) in auto)
  moreover have "rank (ap_phase a) \<le> 5" by (cases "ap_phase a") auto
  ultimately show ?thesis by (auto simp: advances_def split_def Let_def)
qed

definition demo_env :: app_env where
  "demo_env = \<lparr>ae_webrtcEnabled = True, ae_isError = (\<lambda>e. False)\<rparr>"

theorem manager_loop_progress_witness:
  "rank (ap_phase (fst (app_handle demo_env (app_init\<lparr>ap_phase := AwaitConnect\<rparr>) (ConnectAnswer 7 None)))) < 2"
  using manager_loop_progress [of "app_init\<lparr>ap_phase := AwaitConnect\<rparr>" "ConnectAnswer 7 None" demo_env]
  by (simp add: app_init_def robot_init_def split_def Let_def)

text \<open>
  A resource whose printed name cannot be read back stops the loop for good: the exception leaves
  the promise of \<open>queryMetadata\<close> unsettled, and from then on no event brings the loop back.
\<close>

theorem malformed_name_stops_loop:
  "ap_phase (final (app_handle env) app_init
     ([Start 0, MetadataAnswer 1 (Inr (Some [\<lparr>rn_namespace = ''acme'', rn_type = ''component'',
        rn_subtype = ''a:b'', rn_name = ''x''\<rparr>]))] @ es)) = Stuck"
proof -
  have stuck: "ap_phase a = Stuck \<Longrightarrow> ap_phase (final (app_handle env) a es) = Stuck" for a es
  proof (induction es arbitrary: a)
    case (Cons e es)
    then have "ap_phase (fst (app_handle env a e)) = Stuck"
      by (cases e) (simp_all add: on_data_def split_def Let_def)
    then show ?case using Cons.IH by (simp only: run_Cons)
  qed simp
  let ?r = "\<lparr>rn_namespace = ''acme'', rn_type = ''component'', rn_subtype = ''a:b'', rn_name = ''x''\<rparr>"
  have "resourceNameToString (Some ?r) = ''acme:component:a:b/x''"
    by (simp add: resourceNameToString_def resourceNameToSubtypeString_def)
  moreover have "stringToResourceName ''acme:component:a:b/x'' = Inl (JsError ''more than 2 colons in resource name string'')"
    by code_simp
  ultimately have "any_relevant (differences [] [resourceNameToString (Some ?r)]) =
      Inl (JsError ''more than 2 colons in resource name string'')"
    by (simp add: differences_def new_Set_def set_add_def)
  then have "ap_phase (final (app_handle env) app_init [Start 0, MetadataAnswer 1 (Inr (Some [?r]))]) = Stuck"
    by (simp add: app_init_def robot_init_def begin_round_def queryMetadata_def on_metadata_def queryMetadata_done_def
        split_def Let_def)
  then show ?thesis by (simp only: run_append stuck)
qed

text \<open>
  C20. Failed calls are reported once in the life of the page: however often rounds fail afterwards,
  the report is never shown a second time, since its key is never reset.
\<close>

theorem call_errors_reported_once:
  assumes "list_all own_reports es"
  shows "reports (outputs (app_handle env) app_init es) \<le> 1"
proof -
  have "\<not> reported app_init" by (simp add: reported_def app_init_def)
  from report.run_P [OF this assms] show ?thesis by simp
qed

theorem call_errors_reported_once_witness:
  "reports (outputs (app_handle demo_env) app_init
     [Start 0, MetadataAnswer 1 (Inr None), ConnectAnswer 2 (Some (Plain ''x'')), Tick, MetadataAnswer 3 (Inr None)]) \<le> 1"
  using call_errors_reported_once [of "[Start 0, MetadataAnswer 1 (Inr None), ConnectAnswer 2 (Some (Plain ''x'')), Tick,
      MetadataAnswer 3 (Inr None)]" demo_env] by simp

text \<open>
  C4. A round of the manager, from the request for the resource list to its answer, whatever status data
  and stream events come in between: the list is stored, the round goes on to the operations, and the
  status stream is restarted exactly when there had been no complete list since the last loss of the
  connection or no stream at the time of the request, or when the old and the new list differ in an
  arm, gantry, board, servo, motor or input controller; a stream that is then still open is cancelled
  first. The sensors are queried again exactly when the lists differ and there is a local sensors service.
  The names in both lists are assumed printable (no colon or slash where the parser splits).
\<close>

theorem metadata_round_restarts:
  assumes "asks a0 e0" and "list_all (\<lambda>e. \<not> is_metadata e) es"
    and "set (rd_resources (ap_data a0)) \<subseteq> Collect printable" and "set rs \<subseteq> Collect printable"
  shows "let d0 = ap_data a0; a1 = final (app_handle env) a0 (e0 # es);
             (a2, os) = app_handle env a1 (MetadataAnswer now (Inr (Some rs)));
             \<Delta> = (set (rd_resources d0) - set rs) \<union> (set rs - set (rd_resources d0));
             restart = (\<not> rd_resourcesOnce d0 \<or> \<not> rd_statusStream d0 \<or>
               (\<exists>r \<in> \<Delta>. rn_namespace r = ''rdk'' \<and> rn_type r = ''component'' \<and>
                  rn_subtype r \<in> {''arm'', ''gantry'', ''board'', ''servo'', ''motor'', ''input_controller''}))
         in snd (app_handle env a0 e0) = [Call (RobotReq ResourceNames)]
            \<and> rd_resources (ap_data a2) = rs \<and> rd_resourcesOnce (ap_data a2) \<and> ap_phase a2 = AwaitOps now []
            \<and> ((\<exists>ns t. Call (RobotReq (StreamStatus ns t)) \<in> set os) \<longleftrightarrow> restart)
            \<and> (Call (RobotReq CancelStatusStream) \<in> set os \<longleftrightarrow> restart \<and> rd_statusStream (ap_data a1))
            \<and> rd_statusStream (ap_data a2) = (restart \<or> rd_statusStream (ap_data a1))
            \<and> ((\<exists>n. Call (SensorsReq (GetSensors n)) \<in> set os) \<longleftrightarrow>
                 \<Delta> \<noteq> {} \<and> filterNonRemoteResources rs ''rdk'' ''service'' ''sensors'' \<noteq> [])"
proof -
  define a1 where "a1 = final (app_handle env) a0 (e0 # es)"
  define sr where "sr = (\<not> (rd_resourcesOnce (ap_data a0) \<and> rd_statusStream (ap_data a0)))"
  have a1: "ap_phase a1 = AwaitMetadata sr" "rd_resources (ap_data a1) = rd_resources (ap_data a0)"
    using awaiting_run [OF conjunct1 [OF asks_step [OF assms(1), of env]] assms(2)] asks_step [OF assms(1), of env]
    unfolding a1_def sr_def by (simp_all add: run_Cons del: run.simps(2) app_handle.simps)
  define D where "D = (set (rd_resources (ap_data a0)) - set rs) \<union> (set rs - set (rd_resources (ap_data a0)))"
  define restart where "restart = (sr \<or> (\<exists>r \<in> D. relevant r))"
  have restart: "(\<not> rd_resourcesOnce (ap_data a0) \<or> \<not> rd_statusStream (ap_data a0) \<or>
      (\<exists>r \<in> D. rn_namespace r = ''rdk'' \<and> rn_type r = ''component'' \<and>
         rn_subtype r \<in> {''arm'', ''gantry'', ''board'', ''servo'', ''motor'', ''input_controller''})) = restart"
    unfolding restart_def sr_def relevant_def relevantSubtypesForStatus_def by auto
  note answered = queryMetadata_done_stored [of "ap_data a1" rs sr, unfolded Let_def a1(2), OF assms(3,4),
      folded D_def, folded restart_def]
  show ?thesis
    unfolding Let_def a1_def [symmetric] D_def [symmetric] restart
    using asks_step [OF assms(1), of env] a1 restart_def
      querySensors_iff [of "(ap_data a1)\<lparr>rd_resources := rs, rd_resourcesOnce := True\<rparr>"]
    by (simp add: on_metadata_def answered after_metadata_def fetchCurrentOps_def restart_names restart_data
        cancel_stream_def querySensors_no_stream del: app_handle.simps(1,2))
qed

text \<open>The round of a freshly started page, with a stream that is announced closed before the answer.\<close>

theorem metadata_round_restarts_witness:
  "let r = \<lparr>rn_namespace = ''rdk'', rn_type = ''component'', rn_subtype = ''arm'', rn_name = ''a''\<rparr>;
       (a, os) = app_handle demo_env (final (app_handle demo_env) app_init [Start 0, StreamClosed True])
         (MetadataAnswer 5 (Inr (Some [r])))
   in rd_resources (ap_data a) = [r] \<and> (\<exists>ns t. Call (RobotReq (StreamStatus ns t)) \<in> set os)"
proof -
  let ?r = "\<lparr>rn_namespace = ''rdk'', rn_type = ''component'', rn_subtype = ''arm'', rn_name = ''a''\<rparr>"
  have "asks app_init (Start 0)" by (simp add: asks_def app_init_def)
  from metadata_round_restarts [OF this, of "[StreamClosed True]" "[?r]" demo_env 5] show ?thesis
    by (simp add: app_init_def robot_init_def printable_def split_def Let_def del: run.simps app_handle.simps)
qed

text \<open>
  C19. The connection is announced only when it is there: in the step that shows the message the robot's
  resources and operations have been read, the status is recent (or the connection is WebRTC), the
  error banner is empty and the next round is scheduled.
\<close>

theorem connection_announced_when_connected:
  assumes "ToastSuccess connected_msg \<in> set (snd (app_handle env a e))"
  shows "isConnected env (time_of e) (fst (app_handle env a e)) \<and> ap_errorMessage (fst (app_handle env a e)) = []
           \<and> ap_phase (fst (app_handle env a e)) = Waiting"
  using app_handle_established [of env e a] assms by (simp add: established_def)

theorem connection_announced_when_connected_witness:
  "ap_errorMessage (fst (app_handle demo_env (app_init\<lparr>ap_phase := AwaitSessions [],
      ap_statuses := \<lparr>st_resources = True, st_ops = True, st_sessions = False\<rparr>\<rparr>) (SessionsAnswer 5 (Inr (Some []))))) = []"
proof -
  let ?a = "app_init\<lparr>ap_phase := AwaitSessions [],
      ap_statuses := \<lparr>st_resources = True, st_ops = True, st_sessions = False\<rparr>\<rparr>"
  have "ToastSuccess connected_msg \<in> set (snd (app_handle demo_env ?a (SessionsAnswer 5 (Inr (Some [])))))"
    by (simp add: on_sessions_def set_sessions_def end_round_def isConnected_def demo_env_def next_round_def app_init_def)
  from connection_announced_when_connected [OF this] show ?thesis by blast
qed

text \<open>
  C28. Signing in, with the page mounted once: however many logins and retries there are and in whatever
  order they settle, the connection manager is started only after a call of \<open>client.connect\<close> has succeeded
  and at most once; once one has succeeded, the mounted hook that waits for it starts the manager when it
  goes on. The form before the first connection is shown exactly until then. Without authentication
  exactly one attempt or one retry timer is under way until the robot is reached, and none afterwards.
\<close>

theorem manager_started_once:
  assumes "length (filter (\<lambda>e. e = AppMounted) es) = 1"
  shows "let s = final (login_handle env) login_init es;
             started = (\<lambda>os. length (filter (\<lambda>x. x = StartManager) os))
         in started (outputs (login_handle env) login_init es) \<le> of_bool (reached env es)
            \<and> started (outputs (login_handle env) login_init (es @ [HookResumes])) = of_bool (reached env es)
            \<and> lg_preAppShown s = (\<not> reached env es)
            \<and> (le_supportedAuthTypes env = [] \<longrightarrow>
                 length (lg_pending s) + lg_retries s = of_bool (\<not> reached env es))"
proof -
  define s where "s = final (login_handle env) login_init es"
  have ok: "login_ok env es s (outputs (login_handle env) login_init es)"
    unfolding s_def by (rule login.run_trace)
  have "mounts es = 1" using assms by (simp add: mounts_def)
  with ok show ?thesis
    unfolding Let_def run_append s_def [symmetric] starts_def [symmetric]
    by (auto simp: login_ok_def hook_resumes_def split: if_splits)
qed

theorem manager_started_once_witness:
  "let env = \<lparr>le_supportedAuthTypes = [], le_host = [], le_baked = ([], [], [])\<rparr>;
       es = [AppMounted, ConnectSettled 0 (Some ''x''), RetryTimer, ConnectSettled 0 None]
   in length (filter (\<lambda>x. x = StartManager) (outputs (login_handle env) login_init (es @ [HookResumes]))) =
        of_bool (reached env es)"
  using manager_started_once [of "[AppMounted, ConnectSettled 0 (Some ''x''), RetryTimer, ConnectSettled 0 None]"
      "\<lparr>le_supportedAuthTypes = [], le_host = [], le_baked = ([], [], [])\<rparr>"]
  by (simp add: Let_def del: run.simps)

end
