(* ===== verification/App_View.thy ===== *)
theory App_View
  imports App_Connection Streams
begin

text \<open>
  What the template of \<open>app.vue\<close> renders, as the list of its panels with the props they are given,
  and the camera frames that are refreshed on a timer. Rendering raises when an expression of the
  template raises.
\<close>

section \<open>The panels\<close>

datatype view =
    ErrorBanner string
  | VBase string
  | VGantry string "fixed_status option"
  | VMovementSensor string
  | VArm string "fixed_status option" "jsval option"
  | VGripper string
  | VServo string "fixed_status option" "jsval option"
  | VMotor string "fixed_status option"
  | VInputController string "fixed_status option"
  | VGamepad string
  | VBoard string "fixed_status option"
  | VCamera string
  | VNavigation string
  | VSensors string "resource_name list"
  | VAudioInput string
  | VSlam string
  | VDoCommand "resource_name list"
  | VOperationsSessions "current_op list" "session list" bool

definition nonEmpty :: "'a list \<Rightarrow> bool" where
  "nonEmpty object = (length object > 0)"

text \<open>The sensors panel reads the name of the first local sensors service.\<close>

definition sensors_view :: "robot_data \<Rightarrow> view list throws" where
  "sensors_view d =
     (if nonEmpty (rd_sensorNames d) then
        (case filterNonRemoteResources (rd_resources d) ''rdk'' ''service'' ''sensors'' of
           [] \<Rightarrow> Inl TypeError
         | r # rs \<Rightarrow> Inr [VSensors (rn_name r) (rd_sensorNames d)])
      else Inr [])"

definition components :: "robot_data \<Rightarrow> string \<Rightarrow> resource_name list" where
  "components d subtype = filterResources (rd_resources d) ''rdk'' ''component'' subtype"

definition services :: "robot_data \<Rightarrow> string \<Rightarrow> resource_name list" where
  "services d subtype = filterResources (rd_resources d) ''rdk'' ''service'' subtype"

definition with_status :: "robot_data \<Rightarrow> string \<Rightarrow> resource_name list" where
  "with_status d subtype = filterRdkComponentsWithStatus fixed_truthy (rd_resources d) (rd_status d) subtype"

definition app_view :: "app \<Rightarrow> bool \<Rightarrow> view list throws" where
  "app_view a connectedOnce =
     (let d = ap_data a; st = resourceStatusByName d; raw = rawResourceStatusByName d
      in bindE (sensors_view d) (\<lambda>sensors. Inr (
           (if ap_errorMessage a \<noteq> [] then [ErrorBanner (ap_errorMessage a)] else [])
         @ map (\<lambda>r. VBase (rn_name r)) (components d ''base'')
         @ map (\<lambda>r. VGantry (rn_name r) (st r)) (with_status d ''gantry'')
         @ map (\<lambda>r. VMovementSensor (rn_name r)) (components d ''movement_sensor'')
         @ map (\<lambda>r. VArm (rn_name r) (st r) (raw r)) (components d ''arm'')
         @ map (\<lambda>r. VGripper (rn_name r)) (components d ''gripper'')
         @ map (\<lambda>r. VServo (rn_name r) (st r) (raw r)) (with_status d ''servo'')
         @ map (\<lambda>r. VMotor (rn_name r) (st r)) (with_status d ''motor'')
         @ map (\<lambda>r. VInputController (rn_name r) (st r)) (filteredInputControllerList d)
         @ map (\<lambda>r. VGamepad (rn_name r)) (filteredWebGamepads d)
         @ map (\<lambda>r. VBoard (rn_name r) (st r)) (with_status d ''board'')
         @ map (\<lambda>r. VCamera (rn_name r)) (components d ''camera'')
         @ map (\<lambda>r. VNavigation (rn_name r)) (services d ''navigation'')
         @ sensors
         @ map (\<lambda>r. VAudioInput (rn_name r)) (components d ''audio_input'')
         @ map (\<lambda>r. VSlam (rn_name r)) (services d ''slam'')
         @ (if connectedOnce then [VDoCommand (filterComponentsWithNames (rd_resources d))] else [])
         @ (if connectedOnce
            then [VOperationsSessions (ap_currentOps a) (ap_currentSessions a) (ap_sessionsSupported a)] else []))))"

section \<open>The client\<close>

text \<open>What the client is constructed with: the address of the page itself and the window's settings.\<close>

record client_config =
  cc_impliedURL :: string
  cc_enabled :: bool                            \<comment> \<open>\<open>window.webrtcEnabled\<close>\<close>
  cc_host :: string
  cc_signalingAddress :: string
  cc_iceServers :: "string list"

definition impliedURL :: "string \<Rightarrow> string \<Rightarrow> string \<Rightarrow> string" where
  "impliedURL protocol hostname port = protocol @ ''//'' @ hostname @ (if port \<noteq> [] then '':'' @ port else [])"

text \<open>Additional servers come after the default one; an empty array counts as given.\<close>

definition iceServers :: "string list option \<Rightarrow> string list" where
  "iceServers additional =
     [''stun:global.stun.twilio.com:3478?transport=udp''] @ (case additional of None \<Rightarrow> [] | Some urls \<Rightarrow> urls)"

definition new_Client ::
  "string \<times> string \<times> string \<Rightarrow> bool \<Rightarrow> string \<Rightarrow> string \<Rightarrow> string list option \<Rightarrow> client_config" where
  "new_Client location webrtcEnabled host signalingAddress additional =
     (case location of (protocol, hostname, port) \<Rightarrow>
        \<lparr>cc_impliedURL = impliedURL protocol hostname port, cc_enabled = webrtcEnabled, cc_host = host,
         cc_signalingAddress = signalingAddress, cc_iceServers = iceServers additional\<rparr>)"

section \<open>Camera frames\<close>

text \<open>
  The browser's intervals are a list of an id, the camera and the period in milliseconds; a new one
  gets a fresh id.
\<close>

record frames =
  fr_intervalId :: int                          \<comment> \<open>\<open>cameraFrameIntervalId\<close>\<close>
  fr_active :: "(int \<times> string \<times> jsnum) list"
  fr_fresh :: int

definition frames_init :: frames where
  "frames_init = \<lparr>fr_intervalId = - 1, fr_active = [], fr_fresh = 1\<rparr>"

definition selectedMap :: "(string \<times> jsval) list" where
  "selectedMap = [(''Live'', Str ''live''), (''Manual Refresh'', Num (Fin 0)), (''Every 30 Seconds'', Num (Fin 30)),
     (''Every 10 Seconds'', Num (Fin 10)), (''Every Second'', Num (Fin 1))]"

definition viewFrame :: "string \<Rightarrow> effect list" where
  "viewFrame cameraName = [Call (CameraReq (RenderFrame cameraName ''image/jpeg''))]"

definition clearFrameInterval :: "frames \<Rightarrow> frames" where
  "clearFrameInterval s = s\<lparr>fr_active := AList.delete (fr_intervalId s) (fr_active s)\<rparr>"

definition viewCameraFrame :: "string \<Rightarrow> string \<Rightarrow> frames \<Rightarrow> frames \<times> effect list" where
  "viewCameraFrame cameraName time s =
     (let s1 = clearFrameInterval s; selectedInterval = ofield selectedMap time
      in if time = ''Live'' then (s1, [])
         else if time = ''Manual Refresh'' then (s1, viewFrame cameraName)
         else (s1\<lparr>fr_intervalId := fr_fresh s1, fr_fresh := fr_fresh s1 + 1,
                  fr_active := (fr_fresh s1, cameraName, num_mul (val_to_num selectedInterval) (Fin 1000)) # fr_active s1\<rparr>, []))"

text \<open>The events the camera panels emit, and the ticks of the active intervals.\<close>

datatype frame_event = SelectedCameraView string string | ClearInterval | FrameTick int

fun frame_handle :: "(frames, frame_event, effect) handler" where
  "frame_handle s (SelectedCameraView cam t) = viewCameraFrame cam t s"
| "frame_handle s ClearInterval = (clearFrameInterval s, [])"
| "frame_handle s (FrameTick i) =
     (case map_of (fr_active s) i of None \<Rightarrow> (s, []) | Some (cam, ms) \<Rightarrow> (s, viewFrame cam))"

text \<open>At most one interval is active, the one whose id is kept.\<close>

definition one_interval :: "frames \<Rightarrow> bool" where
  "one_interval s \<longleftrightarrow> fr_intervalId s < fr_fresh s \<and>
     (fr_active s = [] \<or> (\<exists>x. fr_active s = [(fr_intervalId s, x)]))"

lemma frame_handle_one_interval: "one_interval s \<Longrightarrow> one_interval (fst (frame_handle s e))"
  by (cases e)
    (auto simp: one_interval_def viewCameraFrame_def clearFrameInterval_def Let_def split: option.splits)

interpretation frame: invariant_system frame_handle one_interval
  by unfold_locales (rule frame_handle_one_interval)

text \<open>The robot has a resource of that kind and name.\<close>

definition has :: "robot_data \<Rightarrow> string \<Rightarrow> string \<Rightarrow> string \<Rightarrow> bool" where
  "has d ty sub n \<longleftrightarrow>
     \<lparr>rn_namespace = ''rdk'', rn_type = ty, rn_subtype = sub, rn_name = n\<rparr> \<in> set (rd_resources d)"

lemma has_filterResources:
  "has d ty sub n \<longleftrightarrow> (\<exists>r \<in> set (filterResources (rd_resources d) ''rdk'' ty sub). n = rn_name r)"
  unfolding has_def set_filterResources
  by (auto intro: rev_bexI) (metis (full_types) old.unit.exhaust resource_name.surjective)

lemma has_components: "has d ''component'' sub n \<longleftrightarrow> (\<exists>r \<in> set (components d sub). n = rn_name r)"
  by (simp add: has_filterResources components_def)

lemma has_services: "has d ''service'' sub n \<longleftrightarrow> (\<exists>r \<in> set (services d sub). n = rn_name r)"
  by (simp add: has_filterResources services_def)

section \<open>Properties\<close>

text \<open>
  One camera at a time is refreshed: after any sequence of selections on any number of camera
  panels at most one interval is active, since all panels share one interval id; a timed selection
  leaves exactly the selected camera's, with the period of the menu in milliseconds.
\<close>

theorem one_camera_refreshed:
  "length (fr_active (final frame_handle frames_init es)) \<le> 1
   \<and> (\<exists>i. fr_active (final frame_handle frames_init (es @ [SelectedCameraView cam ''Every 30 Seconds''])) =
        [(i, cam, Fin 30000)])"
proof -
  define s where "s = final frame_handle frames_init es"
  have "one_interval frames_init" by (simp add: one_interval_def frames_init_def)
  then have ok: "one_interval s" unfolding s_def by (rule frame.run_inv)
  have "num_mul (Fin 30) (Fin 1000) = Fin 30000"
    using num_mul_int [of 30 1000] by simp
  moreover have "ofield selectedMap ''Every 30 Seconds'' = Num (Fin 30)" by (simp add: ofield_def selectedMap_def)
  ultimately show ?thesis
    using ok unfolding run_append s_def [symmetric]
    by (auto simp: one_interval_def viewCameraFrame_def clearFrameInterval_def Let_def)
qed

text \<open>
  C40. Rendering raises exactly when sensors are known but the robot has no local sensors service any
  more: the names of the sensors are never cleared. Otherwise every base, arm, gripper, camera,
  movement sensor, audio input and every navigation or slam service of the robot has its panel.
\<close>

theorem app_view_total:
  "(app_view a c = Inl TypeError \<longleftrightarrow> rd_sensorNames (ap_data a) \<noteq> [] \<and>
      filterNonRemoteResources (rd_resources (ap_data a)) ''rdk'' ''service'' ''sensors'' = [])
   \<and> (case app_view a c of
        Inl e \<Rightarrow> e = TypeError
      | Inr vs \<Rightarrow>
          (VBase n \<in> set vs) = has (ap_data a) ''component'' ''base'' n
        \<and> (VMovementSensor n \<in> set vs) = has (ap_data a) ''component'' ''movement_sensor'' n
        \<and> (\<exists>st raw. VArm n st raw \<in> set vs) = has (ap_data a) ''component'' ''arm'' n
        \<and> (VGripper n \<in> set vs) = has (ap_data a) ''component'' ''gripper'' n
        \<and> (VCamera n \<in> set vs) = has (ap_data a) ''component'' ''camera'' n
        \<and> (VAudioInput n \<in> set vs) = has (ap_data a) ''component'' ''audio_input'' n
        \<and> (VNavigation n \<in> set vs) = has (ap_data a) ''service'' ''navigation'' n
        \<and> (VSlam n \<in> set vs) = has (ap_data a) ''service'' ''slam'' n)"
proof (cases "sensors_view (ap_data a)")
  case (Inl e)
  then show ?thesis by (auto simp: app_view_def sensors_view_def nonEmpty_def Let_def split: list.splits if_splits)
next
  case (Inr sv)
  have sv: "sv = [] \<or> (\<exists>m ns. sv = [VSensors m ns])"
    using Inr by (auto simp: sensors_view_def split: list.splits if_splits)
  have "\<not> (rd_sensorNames (ap_data a) \<noteq> [] \<and>
      filterNonRemoteResources (rd_resources (ap_data a)) ''rdk'' ''service'' ''sensors'' = [])"
    using Inr by (auto simp: sensors_view_def nonEmpty_def)
  then show ?thesis using sv Inr
    by (auto simp: app_view_def Let_def has_components has_services image_iff)
qed

end
