(* ===== verification/Readouts.thy ===== *)
theory Readouts
  imports Panel App_Status
begin

text \<open>
  The panels that show what the robot reports: \<open>input-controller.vue\<close>, \<open>sensors.vue\<close>,
  \<open>operations-sessions.vue\<close> and \<open>movement-sensor.vue\<close>. What a template shows is a function of the
  panel's state that raises when an expression of the template does.
\<close>

section \<open>input-controller.vue\<close>

definition controlOrder :: "string list" where
  "controlOrder = [''AbsoluteX'', ''AbsoluteY'', ''AbsoluteRX'', ''AbsoluteRY'', ''AbsoluteZ'', ''AbsoluteRZ'',
     ''AbsoluteHat0X'', ''AbsoluteHat0Y'', ''ButtonSouth'', ''ButtonEast'', ''ButtonWest'', ''ButtonNorth'',
     ''ButtonLT'', ''ButtonRT'', ''ButtonLThumb'', ''ButtonRThumb'', ''ButtonSelect'', ''ButtonStart'',
     ''ButtonMenu'', ''ButtonEStop'']"

definition ic_connected :: "input_status \<Rightarrow> bool" where
  "ic_connected st = list_ex (\<lambda>e. \<not> js_seq (ie_event e) (Str ''Disconnect'')) (is_eventsList st)"

text \<open>\<open>value.toFixed(d)\<close>: only numbers have the function.\<close>

definition val_toFixed :: "nat \<Rightarrow> jsval \<Rightarrow> string throws" where
  "val_toFixed d v = (case v of Num x \<Rightarrow> Inr (toFixed d x) | _ \<Rightarrow> Inl TypeError)"

fun getValue :: "string \<Rightarrow> input_event list \<Rightarrow> string throws" where
  "getValue controlMatch [] = Inr []"
| "getValue controlMatch (e # es) =
     (if js_seq (ie_control e) (Str controlMatch)
      then val_toFixed (if js_includes controlMatch ''Absolute'' then 4 else 0) (ie_value e)
      else getValue controlMatch es)"

fun ic_controls :: "input_event list \<Rightarrow> string list \<Rightarrow> (string \<times> string) list throws" where
  "ic_controls es [] = Inr []"
| "ic_controls es (ctrl # cs) =
     bindE (getValue ctrl es) (\<lambda>v.
     bindE (ic_controls es cs) (\<lambda>rows.
     Inr (if v \<noteq> [] then (js_remove (js_remove ctrl ''Absolute'') ''Button'', v) # rows else rows)))"

text \<open>The controls are listed once, when the panel is set up; the badge follows the status.\<close>

record ic_state =
  ic_rows :: "(string \<times> string) list"
  ic_status :: input_status

definition ic_setup :: "input_status \<Rightarrow> ic_state throws" where
  "ic_setup st = bindE (ic_controls (is_eventsList st) controlOrder) (\<lambda>rows. Inr \<lparr>ic_rows = rows, ic_status = st\<rparr>)"

fun ic_handle :: "(ic_state, input_status, effect) handler" where
  "ic_handle s st = (s\<lparr>ic_status := st\<rparr>, [])"

definition ic_view :: "ic_state \<Rightarrow> string \<times> (string \<times> string) list" where
  "ic_view s = (if ic_connected (ic_status s) then (''Connected'', ic_rows s) else (''Disconnected'', []))"

section \<open>sensors.vue\<close>

type_synonym readings = "(string \<times> jsval) list"

type_synonym sensors_state = "(string \<times> readings) list"

definition getReadings :: "string \<Rightarrow> resource_name list \<Rightarrow> effect list" where
  "getReadings name inputNames = [Call (SensorsReq (GetReadings name inputNames))]"

text \<open>The callback: each answered sensor's readings replace its old ones.\<close>

definition getReadings_done ::
  "service_error + (resource_name option \<times> readings) list \<Rightarrow> sensors_state \<Rightarrow> sensors_state \<times> effect list" where
  "getReadings_done r s =
     (case r of
        Inl e \<Rightarrow> (s, [ToastError (err_message e)])
      | Inr items \<Rightarrow>
          (let go = fold (\<lambda>(n, rd) (s, raised).
                 if raised then (s, raised)
                 else case n of None \<Rightarrow> (s, True) | Some nm \<Rightarrow> (AList.update (resourceNameToString (Some nm)) rd s, False))
                 items (s, False)
           in (fst go, if snd go then [Uncaught TypeError] else [])))"

definition getData :: "sensors_state \<Rightarrow> resource_name \<Rightarrow> readings" where
  "getData s r = (case map_of s (resourceNameToString (Some r)) of None \<Rightarrow> [] | Some rd \<Rightarrow> rd)"

text \<open>
  A row for each reading, with the map link of a geopoint. Reading \<open>_type\<close> of null or undefined
  raises, and the comparison \<open>==\<close> converts its operands.
\<close>

fun loose_eq_str :: "jsval \<Rightarrow> string \<Rightarrow> bool" where
  "loose_eq_str (Str s) k = (s = k)"
| "loose_eq_str (Num x) k = num_eq x (val_to_num (Str k))"
| "loose_eq_str (Bool b) k = num_eq (val_to_num (Bool b)) (val_to_num (Str k))"
| "loose_eq_str (Arr xs) k = (val_to_string (Arr xs) = k)"
| "loose_eq_str (Obj ps) k = (val_to_string (Obj ps) = k)"
| "loose_eq_str v k = False"

definition maps_link :: "jsval \<Rightarrow> string option throws" where
  "maps_link v =
     bindE (get_prop v ''_type'') (\<lambda>t.
     if loose_eq_str t ''geopoint'' then
       bindE (get_prop v ''lat'') (\<lambda>lat. bindE (get_prop v ''lng'') (\<lambda>lng.
         Inr (Some (''https://www.google.com/maps/search/'' @ val_to_string lat @ '','' @ val_to_string lng))))
     else Inr None)"

definition sensor_rows :: "sensors_state \<Rightarrow> resource_name \<Rightarrow> (string \<times> jsval \<times> string option) list throws" where
  "sensor_rows s r = mapE (\<lambda>(k, v). bindE (maps_link v) (\<lambda>l. Inr (k, v, l))) (getData s r)"

section \<open>operations-sessions.vue\<close>

definition killOperation :: "string \<Rightarrow> effect list" where
  "killOperation i = [Call (RobotReq (CancelOperation i))]"

definition killOperation_done :: "service_error option \<Rightarrow> effect list" where
  "killOperation_done err = displayError err"

definition peerConnectionType :: "peer_info option \<Rightarrow> string" where
  "peerConnectionType info =
     (case info of
        None \<Rightarrow> ''N/A''
      | Some i \<Rightarrow> (case pi_type i of PeerGRPC \<Rightarrow> ''gRPC'' | PeerWebRTC \<Rightarrow> ''WebRTC'' | PeerOther \<Rightarrow> ''Unknown''))"

definition rtt_variant :: "int \<Rightarrow> string" where
  "rtt_variant rtt = (if rtt < 50 then ''green'' else if rtt < 500 then ''orange'' else ''red'')"

definition or_na :: "string \<Rightarrow> string" where
  "or_na s = (if s = [] then ''N/A'' else s)"

record op_row =
  or_id :: string
  or_this :: bool
  or_session :: string
  or_method :: string
  or_elapsed :: int

definition op_view :: "string \<Rightarrow> current_op \<Rightarrow> op_row" where
  "op_view sessionId c =
     \<lparr>or_id = op_id (co_op c), or_this = (sessionId = op_sessionId (co_op c)), or_session = or_na (op_sessionId (co_op c)),
      or_method = op_method (co_op c), or_elapsed = co_elapsed c\<rparr>"

record session_row =
  sr_id :: string
  sr_ours :: bool
  sr_type :: string
  sr_remote :: string
  sr_local :: string

definition session_view :: "string \<Rightarrow> session \<Rightarrow> session_row" where
  "session_view sessionId se =
     \<lparr>sr_id = se_id se, sr_ours = (sessionId \<noteq> [] \<and> se_id se = sessionId),
      sr_type = peerConnectionType (se_peerConnectionInfo se),
      sr_remote = (case se_peerConnectionInfo se of None \<Rightarrow> ''N/A'' | Some i \<Rightarrow> or_na (pi_remoteAddress i)),
      sr_local = (case se_peerConnectionInfo se of None \<Rightarrow> ''N/A'' | Some i \<Rightarrow> or_na (pi_localAddress i))\<rparr>"

text \<open>The title, and below it the badge and the tables once there is a connection manager.\<close>

definition ops_sessions_view ::
  "string \<Rightarrow> int option \<Rightarrow> bool \<Rightarrow> current_op list \<Rightarrow> session list \<Rightarrow>
   string \<times> ((string \<times> string) \<times> op_row list \<times> session_row list option) option" where
  "ops_sessions_view sessionId manager supported ops ss =
     (if supported then ''Operations & Sessions'' else ''Operations'',
      case manager of
        None \<Rightarrow> None
      | Some rtt \<Rightarrow>
          Some ((rtt_variant rtt, num_to_string (Fin (of_int rtt)) @ '' ms''), map (op_view sessionId) ops,
            if supported then Some (map (session_view sessionId) ss) else None))"

section \<open>movement-sensor.vue\<close>

record ms_props =
  mp_linearVelocity :: bool
  mp_angularVelocity :: bool
  mp_orientation :: bool
  mp_position :: bool
  mp_compassHeading :: bool

record orientation =
  or_oX :: jsnum
  or_oY :: jsnum
  or_oZ :: jsnum
  or_theta :: jsnum

record ms_state =
  mo_orientation :: "orientation option"
  mo_angularVelocity :: "vec3 option"
  mo_linearVelocity :: "vec3 option"
  mo_compassHeading :: "jsnum option"
  mo_coordinate :: "(jsnum \<times> jsnum) option"
  mo_altitudeMm :: "jsnum option"
  mo_properties :: "ms_props option"
  mo_timer :: "nat option"                   \<comment> \<open>\<open>refreshId\<close>: the id of the last timer set\<close>
  mo_timers :: "nat list"                    \<comment> \<open>the timers pending in the browser\<close>
  mo_fresh :: nat
  mo_awaiting :: nat                         \<comment> \<open>\<open>getProperties\<close> calls not answered yet\<close>

definition ms_init :: ms_state where
  "ms_init = \<lparr>mo_orientation = None, mo_angularVelocity = None, mo_linearVelocity = None, mo_compassHeading = None,
     mo_coordinate = None, mo_altitudeMm = None, mo_properties = None, mo_timer = None, mo_timers = [],
     mo_fresh = 0, mo_awaiting = 0\<rparr>"

definition set_refresh :: "ms_state \<Rightarrow> ms_state \<times> effect list" where
  "set_refresh s =
     (s\<lparr>mo_timer := Some (mo_fresh s), mo_timers := mo_timers s @ [mo_fresh s], mo_fresh := mo_fresh s + 1\<rparr>,
      [SetTimeout 500])"

definition ms_refresh :: "string \<Rightarrow> ms_state \<Rightarrow> ms_state \<times> effect list" where
  "ms_refresh name s = (s\<lparr>mo_awaiting := mo_awaiting s + 1\<rparr>, [Call (MovementReq (GetMovementProperties name))])"

text \<open>
  The callback of \<open>getProperties\<close>. An error is displayed and the promise stays unsettled, so nothing
  follows. Otherwise the refresh continues: one request per supported property, then the next timer.
\<close>

definition ms_requests :: "string \<Rightarrow> ms_props \<Rightarrow> effect list" where
  "ms_requests name p =
     (if mp_orientation p then [Call (MovementReq (GetOrientation name))] else []) @
     (if mp_angularVelocity p then [Call (MovementReq (GetAngularVelocity name))] else []) @
     (if mp_linearVelocity p then [Call (MovementReq (GetLinearVelocity name))] else []) @
     (if mp_compassHeading p then [Call (MovementReq (GetCompassHeading name))] else []) @
     (if mp_position p then [Call (MovementReq (GetPosition name))] else [])"

definition ms_refresh_rest :: "string \<Rightarrow> service_error + ms_props \<Rightarrow> ms_state \<Rightarrow> ms_state \<times> effect list" where
  "ms_refresh_rest name r s =
     (case r of
        Inl e \<Rightarrow> (s\<lparr>mo_awaiting := mo_awaiting s - 1\<rparr>, displayError (Some e))
      | Inr p \<Rightarrow>
          (let (s', os) = set_refresh (s\<lparr>mo_properties := Some p, mo_awaiting := mo_awaiting s - 1\<rparr>)
           in (s', ms_requests name p @ os)))"

datatype ms_event =
    MsMounted
  | MsUnmounted
  | MsTimer nat
  | MsProperties "service_error + ms_props"
  | MsOrientation "service_error + orientation option"
  | MsAngularVelocity "service_error + vec3 option"
  | MsLinearVelocity "service_error + vec3 option"
  | MsCompassHeading "service_error + jsnum"
  | MsPosition "service_error + (jsnum \<times> jsnum) option \<times> jsnum"

definition store :: "(ms_state \<Rightarrow> 'a \<Rightarrow> ms_state) \<Rightarrow> service_error + 'a \<Rightarrow> ms_state \<Rightarrow> ms_state \<times> effect list" where
  "store f r s = (case r of Inl e \<Rightarrow> (s, displayError (Some e)) | Inr x \<Rightarrow> (f s x, []))"

fun ms_handle :: "string \<Rightarrow> (ms_state, ms_event, effect) handler" where
  "ms_handle n s MsMounted = set_refresh s"
| "ms_handle n s MsUnmounted =
     (case mo_timer s of None \<Rightarrow> (s, []) | Some i \<Rightarrow> (s\<lparr>mo_timers := filter (\<lambda>j. j \<noteq> i) (mo_timers s)\<rparr>, []))"
| "ms_handle n s (MsTimer i) =
     (if i \<in> set (mo_timers s) then ms_refresh n (s\<lparr>mo_timers := filter (\<lambda>j. j \<noteq> i) (mo_timers s)\<rparr>) else (s, []))"
| "ms_handle n s (MsProperties r) = (if mo_awaiting s > 0 then ms_refresh_rest n r s else (s, []))"
| "ms_handle n s (MsOrientation r) = store (\<lambda>s x. s\<lparr>mo_orientation := x\<rparr>) r s"
| "ms_handle n s (MsAngularVelocity r) = store (\<lambda>s x. s\<lparr>mo_angularVelocity := x\<rparr>) r s"
| "ms_handle n s (MsLinearVelocity r) = store (\<lambda>s x. s\<lparr>mo_linearVelocity := x\<rparr>) r s"
| "ms_handle n s (MsCompassHeading r) = store (\<lambda>s x. s\<lparr>mo_compassHeading := Some x\<rparr>) r s"
| "ms_handle n s (MsPosition r) = store (\<lambda>s x. s\<lparr>mo_coordinate := fst x, mo_altitudeMm := Some (snd x)\<rparr>) r s"

text \<open>The tables of the template: a title, rows of a label and the shown text, and the link if any.\<close>

definition shown :: "nat \<Rightarrow> jsnum option \<Rightarrow> string" where
  "shown d x = (case x of None \<Rightarrow> [] | Some v \<Rightarrow> toFixed d v)"

definition vec_rows :: "vec3 option \<Rightarrow> (string \<times> string) list" where
  "vec_rows v = [(''X'', shown 2 (map_option v_x v)), (''Y'', shown 2 (map_option v_y v)), (''Z'', shown 2 (map_option v_z v))]"

definition coordinate_text :: "jsnum option \<Rightarrow> string" where
  "coordinate_text x = (case x of None \<Rightarrow> ''undefined'' | Some v \<Rightarrow> num_to_string v)"

type_synonym ms_table = "string \<times> (string \<times> string) list \<times> string option"

definition ms_position_table :: "ms_state \<Rightarrow> ms_table" where
  "ms_position_table s =
     (''Position'',
      [(''Latitude'', shown 6 (map_option fst (mo_coordinate s))),
       (''Longitude'', shown 6 (map_option snd (mo_coordinate s))),
       (''Altitide'', shown 2 (mo_altitudeMm s))],
      Some (''https://www.google.com/maps/search/'' @ coordinate_text (map_option fst (mo_coordinate s)) @ '','' @
            coordinate_text (map_option snd (mo_coordinate s))))"

definition ms_orientation_table :: "ms_state \<Rightarrow> ms_table" where
  "ms_orientation_table s =
     (''Orientation (degrees)'',
      [(''OX'', shown 2 (map_option or_oX (mo_orientation s))), (''OY'', shown 2 (map_option or_oY (mo_orientation s))),
       (''OZ'', shown 2 (map_option or_oZ (mo_orientation s))), (''Theta'', shown 2 (map_option or_theta (mo_orientation s)))],
      None)"

definition ms_angular_table :: "ms_state \<Rightarrow> ms_table" where
  "ms_angular_table s = (''Angular Velocity (degrees/second)'', vec_rows (mo_angularVelocity s), None)"

definition ms_linear_table :: "ms_state \<Rightarrow> ms_table" where
  "ms_linear_table s = (''Linear Velocity'', vec_rows (mo_linearVelocity s), None)"

definition ms_compass_table :: "ms_state \<Rightarrow> ms_table" where
  "ms_compass_table s = (''Compass Heading'', [(''Compass'', shown 2 (mo_compassHeading s))], None)"

text \<open>A table per supported property.\<close>

definition ms_tables :: "ms_props \<Rightarrow> ms_state \<Rightarrow> ms_table list" where
  "ms_tables p s =
     (if mp_position p then [ms_position_table s] else []) @
     (if mp_orientation p then [ms_orientation_table s] else []) @
     (if mp_angularVelocity p then [ms_angular_table s] else []) @
     (if mp_linearVelocity p then [ms_linear_table s] else []) @
     (if mp_compassHeading p then [ms_compass_table s] else [])"

definition ms_view :: "ms_state \<Rightarrow> ms_table list" where
  "ms_view s = (case mo_properties s of None \<Rightarrow> [] | Some p \<Rightarrow> ms_tables p s)"


section \<open>The input controller's list\<close>

text \<open>The value shown for a control is that of its first event.\<close>

lemma getValue_find:
  "getValue c es =
     (case find (\<lambda>e. js_seq (ie_control e) (Str c)) es of
        None \<Rightarrow> Inr []
      | Some e \<Rightarrow> val_toFixed (if js_includes c ''Absolute'' then 4 else 0) (ie_value e))"
  by (induction es) auto

interpretation ic: effect_system ic_handle "\<lambda>s. ic_rows s = rows" "\<lambda>_. False" for rows
  by unfold_locales auto

lemma ic_status_last: "ic_status (final ic_handle s sts) = last (ic_status s # sts)"
  by (induction sts arbitrary: s) (auto simp: split_def Let_def)

text \<open>
  The badge follows the statuses, but the listed controls and their values stay those of the status
  the panel was set up with.
\<close>

theorem input_controls_frozen:
  assumes "ic_setup st = Inr s"
  shows "ic_controls (is_eventsList st) controlOrder = Inr (ic_rows s) \<and>
         ic_view (final ic_handle s sts) =
           (if ic_connected (last (st # sts)) then (''Connected'', ic_rows s) else (''Disconnected'', []))"
proof -
  have "ic_status s = st" "ic_controls (is_eventsList st) controlOrder = Inr (ic_rows s)"
    using assms by (auto simp: ic_setup_def)
  then show ?thesis
    using ic.run_inv [of s "ic_rows s" sts] by (simp add: ic_view_def ic_status_last)
qed

definition stick :: "string \<Rightarrow> input_status" where
  "stick ev = \<lparr>is_eventsList = [\<lparr>ie_time = Undefined, ie_event = Str ev, ie_control = Str ''ButtonEast'', ie_value = Num (Fin 1)\<rparr>]\<rparr>"

theorem input_controls_frozen_witness:
  "ic_view (final ic_handle \<lparr>ic_rows = [], ic_status = \<lparr>is_eventsList = []\<rparr>\<rparr> [stick ''ButtonPress'']) = (''Connected'', [])"
proof -
  have "ic_setup \<lparr>is_eventsList = []\<rparr> = Inr \<lparr>ic_rows = [], ic_status = \<lparr>is_eventsList = []\<rparr>\<rparr>"
    by (simp add: ic_setup_def controlOrder_def)
  from input_controls_frozen [OF this, of "[stick ''ButtonPress'']"] show ?thesis
    by (simp add: ic_connected_def stick_def)
qed

section \<open>The readings of the sensors\<close>

lemma fold_readings:
  "fold (\<lambda>(n, rd) (s, raised). if raised then (s, raised)
       else case n of None \<Rightarrow> (s, True) | Some nm \<Rightarrow> (AList.update (resourceNameToString (Some nm)) rd s, False))
     (map (\<lambda>(n, rd). (Some n, rd)) items) (s, False) =
   (fold (\<lambda>(n, rd). AList.update (resourceNameToString (Some n)) rd) items s, False)"
  by (induction items arbitrary: s) auto

lemma map_of_fold_update:
  "map_of (fold (\<lambda>(n, rd). AList.update (f n) rd) items s) k =
     (case find (\<lambda>(n, rd). f n = k) (rev items) of Some (n, rd) \<Rightarrow> Some rd | None \<Rightarrow> map_of s k)"
proof (induction items rule: rev_induct)
  case (snoc x xs)
  then show ?case by (cases x) (auto simp: update_conv')
qed simp

text \<open>
  After an answer in which every item has a name, each sensor shows the last readings the answer has
  for it, a sensor the answer does not name keeps its own, and nothing is reported.
\<close>

theorem sensors_latest_readings:
  assumes "getReadings_done (Inr (map (\<lambda>(n, rd). (Some n, rd)) items)) s = (s', os)"
  shows "os = [] \<and> getData s' r =
      (case find (\<lambda>(n, rd). resourceNameToString (Some n) = resourceNameToString (Some r)) (rev items) of
         Some (n, rd) \<Rightarrow> rd | None \<Rightarrow> getData s r)"
  using assms
  by (auto simp: getReadings_done_def fold_readings Let_def getData_def map_of_fold_update split: option.splits)

definition therm :: resource_name where
  "therm = \<lparr>rn_namespace = ''rdk'', rn_type = ''component'', rn_subtype = ''sensor'', rn_name = ''t''\<rparr>"

theorem sensors_latest_readings_witness:
  "getData (fst (getReadings_done (Inr (map (\<lambda>(n, rd). (Some n, rd)) [(therm, [(''a'', Null)]), (therm, [(''b'', Null)])])) []))
     therm = [(''b'', Null)]"
  using sensors_latest_readings [of "[(therm, [(''a'', Null)]), (therm, [(''b'', Null)])]" "[]", OF prod.collapse [symmetric], of therm]
  by simp

text \<open>A reading is shown unless it is null or undefined, and one such reading breaks the whole table.\<close>

lemma mapE_raises: "(\<exists>e. mapE f xs = Inl e) \<longleftrightarrow> (\<exists>x\<in>set xs. \<exists>e. f x = Inl e)"
proof (induction xs)
  case (Cons x xs)
  then show ?case by (cases "f x"; cases "mapE f xs") auto
qed simp

lemma maps_link_raises: "(\<exists>e. maps_link v = Inl e) \<longleftrightarrow> nullish v"
  by (auto simp: maps_link_def get_prop_cases)

lemma sensor_rows_raise: "(\<exists>e. sensor_rows s r = Inl e) \<longleftrightarrow> (\<exists>(k, v)\<in>set (getData s r). nullish v)"
  unfolding sensor_rows_def mapE_raises
  by (intro bex_cong refl) (auto simp: bindE_Inl_conv simp flip: maps_link_raises)


section \<open>The refresh loop of the movement sensor\<close>

lemmas ms_ops = set_refresh_def ms_refresh_def ms_refresh_rest_def ms_requests_def store_def

interpretation ms: panel ms_handle
proof
  fix o' n s e
  show "o' \<in> set (snd (ms_handle n s e)) \<Longrightarrow> addressed_to n o'"
    by (cases e) (auto simp: ms_ops Let_def split: option.splits sum.splits if_splits)
qed

text \<open>One refresh at most is under way: a pending timer, which is the last one set, or an awaited answer.\<close>

definition ms_one :: "ms_state \<Rightarrow> bool" where
  "ms_one s \<longleftrightarrow>
     mo_timers s = [] \<and> mo_awaiting s \<le> 1 \<or>
     (\<exists>i. mo_timers s = [i] \<and> mo_timer s = Some i) \<and> mo_awaiting s = 0"

abbreviation "asks n \<equiv> Call (MovementReq (GetMovementProperties n))"

definition ms_history :: "string \<Rightarrow> ms_state \<Rightarrow> effect list \<Rightarrow> bool" where
  "ms_history n s os \<longleftrightarrow> ms_one s \<and> count_list os (asks n) + length (mo_timers s) \<le> count_list os (SetTimeout 500)"

lemma displayError_counts [simp]:
  "count_list (displayError e) (asks n) = 0" "count_list (displayError e) (SetTimeout m) = 0"
  by (cases e; simp add: displayError_def)+

lemma ms_requests_counts [simp]:
  "count_list (ms_requests n p) (asks n) = 0" "count_list (ms_requests n p) (SetTimeout m) = 0"
  by (simp_all add: ms_requests_def)

lemma ms_history_step:
  assumes "ms_history n s os" "e \<noteq> MsMounted"
  shows "ms_history n (fst (ms_handle n s e)) (os @ snd (ms_handle n s e))"
  using assms
  by (cases e) (auto simp: ms_history_def ms_one_def set_refresh_def ms_refresh_def ms_refresh_rest_def store_def
      Let_def split: option.splits sum.splits if_splits)

interpretation ms_runs: history_system "ms_handle n" "\<lambda>s. s = ms_init" "\<lambda>e. e \<noteq> MsMounted" "ms_history n" for n
proof
  show "s = ms_init \<Longrightarrow> ms_history n s []" for s
    by (simp add: ms_history_def ms_one_def ms_init_def)
qed (rule ms_history_step)

lemma ms_history_mounted: "ms_history n (fst (ms_handle n ms_init MsMounted)) (snd (ms_handle n ms_init MsMounted))"
  by (simp add: ms_history_def ms_one_def set_refresh_def ms_init_def)

text \<open>
  C31. Once mounted, the movement sensor panel never has more than one refresh under way, asks for the
  properties at most once per timer it set, and sends requests for its own component only, in
  whatever order timers, answers and the removal of the panel come.
\<close>

theorem ms_one_refresh:
  assumes "list_all (\<lambda>e. e \<noteq> MsMounted) es"
  shows "length (mo_timers (final (ms_handle n) ms_init (MsMounted # es))) +
           mo_awaiting (final (ms_handle n) ms_init (MsMounted # es)) \<le> 1 \<and>
         count_list (outputs (ms_handle n) ms_init (MsMounted # es)) (asks n) \<le>
           count_list (outputs (ms_handle n) ms_init (MsMounted # es)) (SetTimeout 500) \<and>
         list_all (addressed_to n) (outputs (ms_handle n) ms_init (MsMounted # es))"
  using ms_runs.run_P_from [OF ms_history_mounted assms, of n] ms.run_addressed [of n ms_init "MsMounted # es"]
  unfolding run_Cons [symmetric] by (auto simp: ms_history_def ms_one_def)

theorem ms_one_refresh_witness:
  "count_list (outputs (ms_handle ''gps'') ms_init [MsMounted, MsTimer 0, MsUnmounted]) (asks ''gps'') \<le>
     count_list (outputs (ms_handle ''gps'') ms_init [MsMounted, MsTimer 0, MsUnmounted]) (SetTimeout 500)"
  using ms_one_refresh [of "[MsTimer 0, MsUnmounted]" "''gps''"] by simp

text \<open>A refresh that is answered goes on: the supported values are asked for and the next timer set.\<close>

lemma ms_refresh_continues:
  assumes "mo_awaiting s > 0"
  shows "snd (ms_handle n s (MsProperties (Inr p))) = ms_requests n p @ [SetTimeout 500]"
    and "outputs (ms_handle n) s [MsProperties (Inr p), MsTimer (mo_fresh s)] =
           ms_requests n p @ [SetTimeout 500, asks n]"
  using assms by (simp_all add: ms_refresh_rest_def set_refresh_def ms_refresh_def Let_def split_def)

definition ms_idle :: "ms_state \<Rightarrow> effect list \<Rightarrow> bool" where
  "ms_idle s os \<longleftrightarrow> mo_timers s = [] \<and> mo_awaiting s = 0 \<and> (\<forall>r. Call r \<notin> set os)"

interpretation ms_stopped: history_system "ms_handle n" "\<lambda>s. s = ms_init" "\<lambda>e. e \<noteq> MsMounted" ms_idle for n
proof
  fix s os e
  show "ms_idle s os \<Longrightarrow> e \<noteq> MsMounted \<Longrightarrow> ms_idle (fst (ms_handle n s e)) (os @ snd (ms_handle n s e))"
    by (cases e) (auto simp: ms_idle_def store_def split: option.splits sum.splits)
qed (simp add: ms_idle_def ms_init_def)

lemma ms_error_idle:
  assumes "ms_one s" "mo_awaiting s > 0"
  shows "ms_idle (fst (ms_handle n s (MsProperties (Inl e)))) (snd (ms_handle n s (MsProperties (Inl e))))"
  using assms by (auto simp: ms_one_def ms_idle_def ms_refresh_rest_def)

text \<open>
  C32. A successful answer to the request for the properties lets the refresh go on, and the timer it
  sets asks again; an error answer ends it for good: whatever follows, the panel never sends
  another request.
\<close>

theorem ms_refresh_ends_on_error:
  assumes "list_all (\<lambda>e. e \<noteq> MsMounted) es" "list_all (\<lambda>e. e \<noteq> MsMounted) fs"
    and "s = final (ms_handle n) ms_init (MsMounted # es)" "mo_awaiting s > 0"
  shows "outputs (ms_handle n) s [MsProperties (Inr p), MsTimer (mo_fresh s)] = ms_requests n p @ [SetTimeout 500, asks n] \<and>
         Call r \<notin> set (outputs (ms_handle n) s (MsProperties (Inl e) # fs))"
proof -
  have "ms_one s"
    using ms_runs.run_P_from [OF ms_history_mounted assms(1), of n] assms(3)
    unfolding run_Cons [symmetric] by (simp add: ms_history_def)
  from ms_stopped.run_P_from [OF ms_error_idle [OF this assms(4), of n e] assms(2), of n]
  have "Call r \<notin> set (outputs (ms_handle n) s (MsProperties (Inl e) # fs))"
    unfolding run_Cons [symmetric] ms_idle_def by blast
  with ms_refresh_continues(2) [OF assms(4)] show ?thesis by blast
qed

theorem ms_refresh_ends_on_error_witness:
  "Call (MovementReq (GetPosition ''gps'')) \<notin>
     set (outputs (ms_handle ''gps'') (final (ms_handle ''gps'') ms_init [MsMounted, MsTimer 0])
       [MsProperties (Inl \<lparr>err_code = 14, err_message = ''unavailable''\<rparr>), MsTimer 0, MsUnmounted])"
  using ms_refresh_ends_on_error [of "[MsTimer 0]" "[MsTimer 0, MsUnmounted]" _ "''gps''" _
      "MovementReq (GetPosition ''gps'')" "\<lparr>err_code = 14, err_message = ''unavailable''\<rparr>", OF _ _ refl]
  by (simp add: ms_init_def set_refresh_def ms_refresh_def)

text \<open>A panel that is removed while it awaits the properties keeps refreshing.\<close>

theorem ms_refreshes_after_unmount:
  assumes "mo_awaiting s > 0"
  shows "asks n \<in> set (outputs (ms_handle n) s [MsUnmounted, MsProperties (Inr p), MsTimer (mo_fresh s)])"
  using assms
  by (cases "mo_timer s") (auto simp: ms_refresh_rest_def set_refresh_def ms_refresh_def Let_def split_def)

section \<open>Operations\<close>

text \<open>
  With no session of its own the page marks every operation that belongs to no session as one of
  this session, while no session is marked as ours.
\<close>

theorem sessionless_ops_marked:
  "op_sessionId (co_op c) = [] \<Longrightarrow> or_this (op_view [] c)" "\<not> sr_ours (session_view [] se)"
  by (simp_all add: op_view_def session_view_def)

section \<open>The tables of the movement sensor\<close>

text \<open>What the last accepted answer of each kind was.\<close>

fun last_answer :: "(ms_event \<Rightarrow> 'a option) \<Rightarrow> ms_event list \<Rightarrow> 'a option" where
  "last_answer f [] = None"
| "last_answer f (e # es) = (case last_answer f es of None \<Rightarrow> f e | Some x \<Rightarrow> Some x)"

fun heading_answer :: "ms_event \<Rightarrow> jsnum option" where
  "heading_answer (MsCompassHeading (Inr x)) = Some x"
| "heading_answer _ = None"

fun position_answer :: "ms_event \<Rightarrow> ((jsnum \<times> jsnum) option \<times> jsnum) option" where
  "position_answer (MsPosition (Inr x)) = Some x"
| "position_answer _ = None"

lemma last_answer_snoc: "last_answer f (es @ [e]) = (case f e of None \<Rightarrow> last_answer f es | Some x \<Rightarrow> Some x)"
  by (induction es) (auto split: option.splits)

lemma ms_numbers_latest:
  "mo_compassHeading (final (ms_handle n) ms_init es) = last_answer heading_answer es
   \<and> mo_coordinate (final (ms_handle n) ms_init es) = Option.bind (last_answer position_answer es) fst
   \<and> mo_altitudeMm (final (ms_handle n) ms_init es) = map_option snd (last_answer position_answer es)"
proof (induction es rule: rev_induct)
  case (snoc e es)
  then show ?case
    by (cases e)
      (auto simp: run_append last_answer_snoc ms_ops displayError_def split_def Let_def split: option.splits sum.splits)
qed (simp add: ms_init_def)

text \<open>
  The heading and the position on the page are those of the last answers, whatever came in between:
  printed with two and six decimals, they are off by at most half a unit of the last decimal.
\<close>

theorem ms_shown_close:
  assumes "s = final (ms_handle n) ms_init es"
    and "last_answer heading_answer es = Some (Fin h)" "\<bar>h\<bar> < 10 ^ 21"
    and "last_answer position_answer es = Some (Some (Fin la, Fin lo), Fin al)"
      "\<bar>la\<bar> < 10 ^ 21" "\<bar>lo\<bar> < 10 ^ 21" "\<bar>al\<bar> < 10 ^ 21"
  shows "\<exists>th tla tlo tal. fst (snd (ms_compass_table s)) = [(''Compass'', th)]
    \<and> fst (snd (ms_position_table s)) = [(''Latitude'', tla), (''Longitude'', tlo), (''Altitide'', tal)]
    \<and> (\<exists>v. decimal_value th = Some v \<and> \<bar>v - h\<bar> \<le> 1 / 200)
    \<and> (\<exists>v. decimal_value tla = Some v \<and> \<bar>v - la\<bar> \<le> 1 / 2000000)
    \<and> (\<exists>v. decimal_value tlo = Some v \<and> \<bar>v - lo\<bar> \<le> 1 / 2000000)
    \<and> (\<exists>v. decimal_value tal = Some v \<and> \<bar>v - al\<bar> \<le> 1 / 200)"
  using ms_numbers_latest [of n es] assms(2,4) toFixed_close [OF assms(3), of 2] toFixed_close [OF assms(5), of 6]
    toFixed_close [OF assms(6), of 6] toFixed_close [OF assms(7), of 2]
  by (simp add: ms_compass_table_def ms_position_table_def shown_def assms(1) del: toFixed.simps)

theorem ms_shown_close_witness:
  "\<exists>th v. fst (snd (ms_compass_table (final (ms_handle ''m'') ms_init [MsCompassHeading (Inr (Fin 90)),
       MsPosition (Inr (Some (Fin 1, Fin 2), Fin 3))]))) = [(''Compass'', th)] \<and> decimal_value th = Some v \<and> \<bar>v - 90\<bar> \<le> 1 / 200"
  using ms_shown_close [OF refl, of "[MsCompassHeading (Inr (Fin 90)), MsPosition (Inr (Some (Fin 1, Fin 2), Fin 3))]" 90 1 2 3 "''m''"]
  by (simp del: run.simps(2)) blast

end
