(* ===== verification/Js_Json.thy ===== *)
theory Js_Json
  imports Js_Format
begin

text \<open>
  \<open>JSON.stringify(v, null, gap)\<close> and \<open>JSON.parse(text)\<close> on plain values. The writer follows the
  standard: undefined members are left out, undefined elements and non-finite numbers become null,
  control characters are escaped. The reader is a recursive descent with fuel, and the fuel that
  \<open>JSON_parse\<close> gives it is enough for every text. What is written reads back as the same value.
  Strings hold code units below 256; an escape for another code unit is outside the model and reads
  as an error.
\<close>

section \<open>Writing\<close>

definition hex_digit :: "nat \<Rightarrow> char" where
  "hex_digit n = (if n < 10 then char_of (48 + n) else char_of (87 + n))"

definition quote_char :: "char \<Rightarrow> string" where
  "quote_char c =
     (let n = (of_char c :: nat)
      in if n = 8 then [CHR 0x5C, CHR ''b''] else if n = 9 then [CHR 0x5C, CHR ''t'']
         else if n = 10 then [CHR 0x5C, CHR ''n''] else if n = 12 then [CHR 0x5C, CHR ''f'']
         else if n = 13 then [CHR 0x5C, CHR ''r''] else if n = 34 then [CHR 0x5C, CHR 0x22]
         else if n = 92 then [CHR 0x5C, CHR 0x5C]
         else if n < 32 then [CHR 0x5C, CHR ''u'', CHR ''0'', CHR ''0'', hex_digit (n div 16), hex_digit (n mod 16)]
         else [c])"

definition json_quote :: "string \<Rightarrow> string" where
  "json_quote s = [CHR 0x22] @ concat (map quote_char s) @ [CHR 0x22]"

fun json_num :: "jsnum \<Rightarrow> string" where
  "json_num NaN = ''null''"
| "json_num (Inf s) = ''null''"
| "json_num x = num_to_string x"

text \<open>The parts of an array or object between its brackets, on lines of their own when there is a gap.\<close>

definition json_wrap :: "string \<Rightarrow> string \<Rightarrow> char \<Rightarrow> char \<Rightarrow> string list \<Rightarrow> string" where
  "json_wrap gap indent l r parts =
     (if parts = [] then [l, r]
      else if gap = [] then [l] @ js_join '','' parts @ [r]
      else [l, CHR 0x0A] @ indent @ gap @ js_join ([CHR '','', CHR 0x0A] @ indent @ gap) parts @ [CHR 0x0A] @ indent @ [r])"

fun json_text :: "string \<Rightarrow> string \<Rightarrow> jsval \<Rightarrow> string"
and json_elems :: "string \<Rightarrow> string \<Rightarrow> jsval list \<Rightarrow> string list"
and json_members :: "string \<Rightarrow> string \<Rightarrow> (string \<times> jsval) list \<Rightarrow> string list" where
  "json_text gap indent Undefined = ''null''"
| "json_text gap indent Null = ''null''"
| "json_text gap indent (Bool b) = (if b then ''true'' else ''false'')"
| "json_text gap indent (Num x) = json_num x"
| "json_text gap indent (Str s) = json_quote s"
| "json_text gap indent (Arr xs) = json_wrap gap indent (CHR ''['') (CHR '']'') (json_elems gap (indent @ gap) xs)"
| "json_text gap indent (Obj ps) = json_wrap gap indent (CHR ''{'') (CHR ''}'') (json_members gap (indent @ gap) ps)"
| "json_elems gap indent [] = []"
| "json_elems gap indent (x # xs) = json_text gap indent x # json_elems gap indent xs"
| "json_members gap indent [] = []"
| "json_members gap indent ((k, v) # ps) =
     (if v = Undefined then json_members gap indent ps
      else (json_quote k @ (if gap = [] then '':'' else '': '') @ json_text gap indent v) # json_members gap indent ps)"

definition JSON_stringify :: "string \<Rightarrow> jsval \<Rightarrow> jsval" where
  "JSON_stringify gap v = (if v = Undefined then Undefined else Str (json_text gap [] v))"

section \<open>Reading\<close>

definition is_json_space :: "char \<Rightarrow> bool" where
  "is_json_space c \<longleftrightarrow> c \<in> {CHR 0x09, CHR 0x0A, CHR 0x0D, CHR 0x20}"

abbreviation skip :: "string \<Rightarrow> string" where
  "skip \<equiv> dropWhile is_json_space"

definition hex_val :: "char \<Rightarrow> nat option" where
  "hex_val c = (if radix_val c < 16 then Some (radix_val c) else None)"

definition simple_escape :: "char \<Rightarrow> char option" where
  "simple_escape d =
     map_of [(CHR 0x22, CHR 0x22), (CHR 0x5C, CHR 0x5C), (CHR ''/'', CHR ''/''), (CHR ''b'', CHR 0x08),
             (CHR ''f'', CHR 0x0C), (CHR ''n'', CHR 0x0A), (CHR ''r'', CHR 0x0D), (CHR ''t'', CHR 0x09)] d"

text \<open>The character an escape stands for, after the backslash, and the rest.\<close>

definition json_escape :: "string \<Rightarrow> (char \<times> string) option" where
  "json_escape s =
     (case s of
        [] \<Rightarrow> None
      | d # r \<Rightarrow>
          if d = CHR ''u'' then
            (case map hex_val (take 4 r) of
               [Some a, Some b, Some x, Some y] \<Rightarrow> if a = 0 \<and> b = 0 then Some (char_of (16 * x + y), drop 4 r) else None
             | _ \<Rightarrow> None)
          else map_option (\<lambda>e. (e, r)) (simple_escape d))"

lemma json_escape_shorter: "json_escape s = Some (e, r) \<Longrightarrow> length r < length s"
  by (auto simp: json_escape_def split: list.splits if_splits option.splits)

text \<open>The characters up to the closing quote, and the rest.\<close>

function json_chars :: "string \<Rightarrow> (string \<times> string) option" where
  "json_chars [] = None"
| "json_chars (c # r) =
     (if c = CHR 0x22 then Some ([], r)
      else if c = CHR 0x5C then
        (case json_escape r of
           None \<Rightarrow> None
         | Some (e, r') \<Rightarrow> map_option (apfst ((#) e)) (json_chars r'))
      else if (of_char c :: nat) < 32 then None
      else map_option (apfst ((#) c)) (json_chars r))"
  by pat_completeness auto
termination by (relation "measure length") (auto dest: json_escape_shorter)

text \<open>An unsigned number literal: no leading zeros, and digits after the point.\<close>

definition json_unsigned :: "string \<Rightarrow> (jsnum \<times> string) option" where
  "json_unsigned u =
     (let ip = takeWhile is_digit u; r = dropWhile is_digit u
      in if ip = [] \<or> hd ip = CHR ''0'' \<and> tl ip \<noteq> [] \<or> r \<noteq> [] \<and> hd r = CHR ''.'' \<and> takeWhile is_digit (tl r) = [] then None
         else map_option (apfst (\<lambda>v. num_of v)) (parse_decimal u))"

definition json_number :: "string \<Rightarrow> (jsnum \<times> string) option" where
  "json_number s =
     (case s of
        [] \<Rightarrow> None
      | c # r \<Rightarrow> if c = CHR ''-'' then map_option (apfst num_neg) (json_unsigned r) else json_unsigned s)"

definition json_literal :: "string \<Rightarrow> jsval \<Rightarrow> string \<Rightarrow> (jsval \<times> string) option" where
  "json_literal w v s = (if take (length w) s = w then Some (v, drop (length w) s) else None)"

definition json_object :: "(string \<times> jsval) list \<Rightarrow> jsval" where
  "json_object ps = Obj (fold (\<lambda>(k, v). AList.update k v) ps [])"

fun json_value :: "nat \<Rightarrow> string \<Rightarrow> (jsval \<times> string) option"
and json_array :: "nat \<Rightarrow> string \<Rightarrow> (jsval list \<times> string) option"
and json_pairs :: "nat \<Rightarrow> string \<Rightarrow> ((string \<times> jsval) list \<times> string) option" where
  "json_value 0 s = None"
| "json_value (Suc n) s =
     (case skip s of
        [] \<Rightarrow> None
      | c # r \<Rightarrow>
          if c = CHR ''{'' then
            (case skip r of
               [] \<Rightarrow> None
             | d # r' \<Rightarrow> if d = CHR ''}'' then Some (Obj [], r') else map_option (apfst json_object) (json_pairs n (d # r')))
          else if c = CHR ''['' then
            (case skip r of
               [] \<Rightarrow> None
             | d # r' \<Rightarrow> if d = CHR '']'' then Some (Arr [], r') else map_option (apfst Arr) (json_array n (d # r')))
          else if c = CHR 0x22 then map_option (apfst Str) (json_chars r)
          else if c = CHR ''t'' then json_literal ''true'' (Bool True) (c # r)
          else if c = CHR ''f'' then json_literal ''false'' (Bool False) (c # r)
          else if c = CHR ''n'' then json_literal ''null'' Null (c # r)
          else map_option (apfst Num) (json_number (c # r)))"
| "json_array 0 s = None"
| "json_array (Suc n) s =
     (case json_value n s of
        None \<Rightarrow> None
      | Some (v, r) \<Rightarrow>
          (case skip r of
             [] \<Rightarrow> None
           | c # r' \<Rightarrow>
               if c = CHR '','' then map_option (apfst ((#) v)) (json_array n r')
               else if c = CHR '']'' then Some ([v], r') else None))"
| "json_pairs 0 s = None"
| "json_pairs (Suc n) s =
     (case skip s of
        [] \<Rightarrow> None
      | c # r \<Rightarrow>
          if c \<noteq> CHR 0x22 then None
          else (case json_chars r of
             None \<Rightarrow> None
           | Some (k, r1) \<Rightarrow>
               (case skip r1 of
                  [] \<Rightarrow> None
                | d # r2 \<Rightarrow>
                    if d \<noteq> CHR '':'' then None
                    else (case json_value n r2 of
                       None \<Rightarrow> None
                     | Some (v, r3) \<Rightarrow>
                         (case skip r3 of
                            [] \<Rightarrow> None
                          | e # r4 \<Rightarrow>
                              if e = CHR '','' then map_option (apfst ((#) (k, v))) (json_pairs n r4)
                              else if e = CHR ''}'' then Some ([(k, v)], r4) else None)))))"

text \<open>\<open>None\<close> stands for the \<open>SyntaxError\<close>.\<close>

definition JSON_parse :: "string \<Rightarrow> jsval option" where
  "JSON_parse s =
     (case json_value (2 * length s + 1) s of
        Some (v, r) \<Rightarrow> if skip r = [] then Some v else None
      | None \<Rightarrow> None)"


section \<open>Reading consumes\<close>

lemma skip_shorter: "length (skip s) \<le> length s"
  by (rule length_dropWhile_le)

lemma skip_Cons_shorter: "skip s = c # r \<Longrightarrow> length r < length s"
  using skip_shorter [of s] by simp

lemma json_chars_shorter: "json_chars s = Some (t, r) \<Longrightarrow> length r < length s"
proof (induction s arbitrary: t r rule: json_chars.induct)
  case (2 c s)
  show ?case
  proof (cases "c = CHR 0x5C")
    case True
    with "2.prems" obtain e s' t' where e: "json_escape s = Some (e, s')" "json_chars s' = Some (t', r)"
      by (auto split: option.splits)
    from "2.IH"(1) [OF _ True e(1) refl e(2)] json_escape_shorter [OF e(1)] True show ?thesis by simp
  qed (use 2 in \<open>auto split: if_splits dest: less_SucI\<close>)
qed simp

lemma parse_exponent_shorter: "length (snd (parse_exponent s)) \<le> length s"
proof (cases s)
  case (Cons c r)
  then show ?thesis
    using length_dropWhile_le [of is_digit "tl r"] length_dropWhile_le [of is_digit r]
    by (auto simp: parse_exponent.simps Let_def split: list.splits if_splits)
qed simp

lemma parse_decimal_shorter:
  assumes "parse_decimal s = Some (v, r)"
  shows "length r < length s"
proof -
  let ?ip = "takeWhile is_digit s" and ?r1 = "dropWhile is_digit s"
  have s: "length s = length ?ip + length ?r1" by (metis length_append takeWhile_dropWhile_id)
  have tl: "length (tl ?r1) = length (takeWhile is_digit (tl ?r1)) + length (dropWhile is_digit (tl ?r1))"
    by (metis length_append takeWhile_dropWhile_id)
  show ?thesis
    using assms s tl parse_exponent_shorter [of ?r1] parse_exponent_shorter [of "dropWhile is_digit (tl ?r1)"]
    by (cases ?r1) (auto simp: parse_decimal_def Let_def simp flip: length_greater_0_conv split: if_splits prod.splits)
qed

lemma json_number_shorter: "json_number s = Some (x, r) \<Longrightarrow> length r < length s"
  by (auto simp: json_number_def json_unsigned_def Let_def dest!: parse_decimal_shorter split: list.splits if_splits)

lemma json_literal_shorter: "json_literal w v s = Some (u, r) \<Longrightarrow> w \<noteq> [] \<Longrightarrow> length r < length s"
  by (cases w; cases s) (auto simp: json_literal_def split: if_splits)

lemma json_shorter:
  "json_value n s = Some (v, r) \<Longrightarrow> length r < length s"
  "json_array n s = Some (vs, r) \<Longrightarrow> length r < length s"
  "json_pairs n s = Some (ps, r) \<Longrightarrow> length r < length s"
proof (induction n arbitrary: s v vs ps r)
  case (Suc n)
  {
    case 1
    then show ?case
      by (auto split: list.splits if_splits dest!: Suc.IH json_chars_shorter json_literal_shorter json_number_shorter
          skip_Cons_shorter)
  next
    case 2
    then show ?case
      by (auto split: list.splits if_splits option.splits dest!: Suc.IH skip_Cons_shorter)
  next
    case 3
    then show ?case
      by (auto split: list.splits if_splits option.splits dest!: Suc.IH json_chars_shorter skip_Cons_shorter)
  }
qed simp_all

section \<open>The fuel is enough\<close>

text \<open>One more unit of fuel does not change a result, given the same of the calls it makes.\<close>

lemma json_value_step:
  assumes ih: "\<And>s. 2 * length s + 2 \<le> n \<Longrightarrow> json_array (Suc n) s = json_array n s"
    "\<And>s. 2 * length s + 2 \<le> n \<Longrightarrow> json_pairs (Suc n) s = json_pairs n s" and n: "2 * length s + 1 \<le> Suc n"
  shows "json_value (Suc (Suc n)) s = json_value (Suc n) s"
proof (cases "skip s")
  case (Cons c r)
  note s = Cons
  show ?thesis
  proof (cases "skip r")
    case (Cons d r')
    have "2 * length (d # r') + 2 \<le> n" using n skip_shorter [of s] skip_shorter [of r] Cons s by simp
    note eq = ih [OF this]
    show ?thesis unfolding json_value.simps(2) [of "Suc n"] json_value.simps(2) [of n] Cons s list.case eq ..
  qed (simp only: json_value.simps(2) s list.case)
qed (simp only: json_value.simps(2) list.case)

lemma json_array_step:
  assumes ih: "\<And>s. 2 * length s + 1 \<le> n \<Longrightarrow> json_value (Suc n) s = json_value n s"
    "\<And>s. 2 * length s + 2 \<le> n \<Longrightarrow> json_array (Suc n) s = json_array n s" and n: "2 * length s + 2 \<le> Suc n"
  shows "json_array (Suc (Suc n)) s = json_array (Suc n) s"
proof -
  have v: "json_value (Suc n) s = json_value n s" using n by (intro ih) simp
  note eqs = json_array.simps(2) [of "Suc n" s] json_array.simps(2) [of n s]
  show ?thesis
  proof (cases "json_value n s")
    case (Some p)
    obtain x r where p: "p = (x, r)" by fastforce
    show ?thesis
    proof (cases "skip r")
      case (Cons c r')
      have "2 * length r' + 2 \<le> n" using n skip_Cons_shorter [OF Cons] json_shorter(1) [of n s x r] Some p by simp
      note eq = ih(2) [OF this]
      show ?thesis unfolding eqs v Some p option.case prod.case Cons list.case eq ..
    qed (simp only: eqs v Some p option.case prod.case list.case)
  qed (simp only: eqs v option.case)
qed

lemma json_pairs_step:
  assumes ih: "\<And>s. 2 * length s + 1 \<le> n \<Longrightarrow> json_value (Suc n) s = json_value n s"
    "\<And>s. 2 * length s + 2 \<le> n \<Longrightarrow> json_pairs (Suc n) s = json_pairs n s" and n: "2 * length s + 2 \<le> Suc n"
  shows "json_pairs (Suc (Suc n)) s = json_pairs (Suc n) s"
proof (cases "skip s")
  case (Cons c r)
  note s = Cons and eqs = json_pairs.simps(2) [of "Suc n" s] json_pairs.simps(2) [of n s]
  show ?thesis
  proof (cases "json_chars r")
    case (Some p)
    obtain k r1 where p: "p = (k, r1)" by fastforce
    show ?thesis
    proof (cases "skip r1")
      case (Cons d r2)
      have len: "2 * length r2 + 5 \<le> n + 1"
        using n skip_Cons_shorter [OF s] json_chars_shorter [of r k r1] skip_Cons_shorter [OF Cons] Some p by simp
      then have v: "json_value (Suc n) r2 = json_value n r2" by (intro ih) simp
      have w: "json_value n r2 = Some (x, r3) \<Longrightarrow> skip r3 = e # r4 \<Longrightarrow> json_pairs (Suc n) r4 = json_pairs n r4" for x r3 e r4
        using len json_shorter(1) [of n r2 x r3] skip_Cons_shorter [of r3 e r4] by (intro ih) simp
      show ?thesis unfolding eqs s list.case Some p option.case prod.case Cons v
        by (auto intro!: option.case_cong list.case_cong if_cong [OF refl _ refl] arg_cong [where f = "map_option _"]
            dest: w simp del: json_pairs.simps json_value.simps)
    qed (simp only: eqs s list.case Some p option.case prod.case)
  qed (simp only: eqs s list.case option.case)
qed (simp only: json_pairs.simps(2) list.case)

lemma json_fuel_step:
  "2 * length s + 1 \<le> n \<Longrightarrow> json_value (Suc n) s = json_value n s"
  "2 * length s + 2 \<le> n \<Longrightarrow> json_array (Suc n) s = json_array n s"
  "2 * length s + 2 \<le> n \<Longrightarrow> json_pairs (Suc n) s = json_pairs n s"
proof (induction n arbitrary: s)
  case (Suc n)
  { case 1 then show ?case by (intro json_value_step Suc.IH) }
  { case 2 then show ?case by (intro json_array_step Suc.IH) }
  { case 3 then show ?case by (intro json_pairs_step Suc.IH) }
qed simp_all

lemma json_fuel: "2 * length s + 1 \<le> n \<Longrightarrow> json_value n s = json_value (2 * length s + 1) s"
proof (induction n rule: dec_induct)
  case (step n)
  then show ?case using json_fuel_step(1) by simp
qed simp

lemma JSON_parse_fuel:
  assumes "2 * length s + 1 \<le> n"
  shows "JSON_parse s = (case json_value n s of Some (v, r) \<Rightarrow> if skip r = [] then Some v else None | None \<Rightarrow> None)"
  unfolding JSON_parse_def json_fuel [OF assms] ..

text \<open>A value read with little fuel is read with more, so it is the one \<open>JSON_parse\<close> reads.\<close>

lemma json_value_mono:
  assumes ih: "\<And>s y. json_array n s = Some y \<Longrightarrow> json_array (Suc n) s = Some y"
    "\<And>s z. json_pairs n s = Some z \<Longrightarrow> json_pairs (Suc n) s = Some z" and x: "json_value (Suc n) s = Some x"
  shows "json_value (Suc (Suc n)) s = Some x"
proof (cases "skip s")
  case (Cons c r)
  note eqs = json_value.simps(2) [of "Suc n" s] json_value.simps(2) [of n s] and s = Cons
  show ?thesis
  proof (cases "skip r")
    case (Cons d r')
    have "map_option f (json_pairs n (d # r')) = Some x \<Longrightarrow> map_option f (json_pairs (Suc n) (d # r')) = Some x"
      "map_option g (json_array n (d # r')) = Some x \<Longrightarrow> map_option g (json_array (Suc n) (d # r')) = Some x" for f g
      using ih by blast+
    then show ?thesis using x unfolding eqs s Cons list.case by presburger
  qed (use x in \<open>simp only: eqs s list.case\<close>)
qed (use x in \<open>simp only: json_value.simps(2) list.case\<close>)

lemma json_array_mono:
  assumes ih: "\<And>s x. json_value n s = Some x \<Longrightarrow> json_value (Suc n) s = Some x"
    "\<And>s y. json_array n s = Some y \<Longrightarrow> json_array (Suc n) s = Some y" and y: "json_array (Suc n) s = Some y"
  shows "json_array (Suc (Suc n)) s = Some y"
proof -
  note eqs = json_array.simps(2) [of "Suc n" s] json_array.simps(2) [of n s]
  obtain v r where v: "json_value n s = Some (v, r)" using y by (auto split: option.splits)
  show ?thesis
  proof (cases "skip r")
    case (Cons c r')
    have "map_option f (json_array n r') = Some y \<Longrightarrow> map_option f (json_array (Suc n) r') = Some y" for f using ih by blast
    then show ?thesis using y unfolding eqs v ih(1) [OF v] Cons option.case prod.case list.case by presburger
  qed (use y in \<open>simp only: eqs v ih(1) [OF v] option.case prod.case list.case\<close>)
qed

lemma json_pairs_mono:
  assumes ih: "\<And>s x. json_value n s = Some x \<Longrightarrow> json_value (Suc n) s = Some x"
    "\<And>s z. json_pairs n s = Some z \<Longrightarrow> json_pairs (Suc n) s = Some z" and z: "json_pairs (Suc n) s = Some z"
  shows "json_pairs (Suc (Suc n)) s = Some z"
proof -
  note eqs = json_pairs.simps(2) [of "Suc n" s] json_pairs.simps(2) [of n s]
  obtain c r k r1 d r2 v r3 where p: "skip s = c # r" "json_chars r = Some (k, r1)" "skip r1 = d # r2" "json_value n r2 = Some (v, r3)"
    using z by (auto split: option.splits list.splits if_splits)
  show ?thesis
  proof (cases "skip r3")
    case (Cons e r4)
    have "map_option f (json_pairs n r4) = Some z \<Longrightarrow> map_option f (json_pairs (Suc n) r4) = Some z" for f using ih by blast
    then show ?thesis using z unfolding eqs p ih(1) [OF p(4)] Cons option.case prod.case list.case by presburger
  qed (use z in \<open>simp only: eqs p ih(1) [OF p(4)] option.case prod.case list.case\<close>)
qed

lemma json_mono:
  "json_value n s = Some x \<Longrightarrow> json_value (Suc n) s = Some x"
  "json_array n s = Some y \<Longrightarrow> json_array (Suc n) s = Some y"
  "json_pairs n s = Some z \<Longrightarrow> json_pairs (Suc n) s = Some z"
proof (induction n arbitrary: s x y z)
  case (Suc n)
  { case 1 then show ?case using json_value_mono [of n s x] Suc.IH(2,3) by blast }
  { case 2 then show ?case using json_array_mono [of n s y] Suc.IH(1,2) by blast }
  { case 3 then show ?case using json_pairs_mono [of n s z] Suc.IH(1,3) by blast }
qed simp_all

lemma JSON_parse_any_fuel:
  assumes "json_value n s = Some (v, r)"
  shows "JSON_parse s = (if skip r = [] then Some v else None)"
proof -
  have "json_value (n + k) s = Some (v, r)" for k using assms by (induction k) (auto dest: json_mono(1) simp del: json_value.simps)
  from this [of "2 * length s + 1"] show ?thesis by (subst JSON_parse_fuel [of s "n + (2 * length s + 1)"]) simp_all
qed

section \<open>Reading what was written\<close>

text \<open>What can follow a value in a written text.\<close>

definition delim :: "string \<Rightarrow> bool" where
  "delim t \<longleftrightarrow> t = [] \<or> hd t \<in> {CHR '','', CHR '']'', CHR ''}'', CHR 0x0A}"

lemma delim_simps [simp]:
  "delim []" "delim (CHR '','' # t)" "delim (CHR '']'' # t)" "delim (CHR ''}'' # t)" "delim (CHR 0x0A # t)"
  by (simp_all add: delim_def)

lemma delim_not_digit: "delim t \<Longrightarrow> t \<noteq> [] \<Longrightarrow> \<not> is_digit (hd t) \<and> hd t \<notin> {CHR ''.'', CHR ''e'', CHR ''E''}"
  by (auto simp: delim_def is_digit_def)

lemma span_delim:
  assumes "delim t"
  shows "takeWhile is_digit (s @ t) = takeWhile is_digit s" "dropWhile is_digit (s @ t) = dropWhile is_digit s @ t"
  using delim_not_digit [OF assms]
  by (induction s; cases t; simp)+

lemma parse_exponent_delim:
  assumes "delim t" "snd (parse_exponent s) = []"
  shows "parse_exponent (s @ t) = (fst (parse_exponent s), t)"
proof (cases s)
  case Nil
  then show ?thesis using delim_not_digit [OF assms(1)] by (cases t) (auto simp: parse_exponent.simps)
next
  case (Cons c r)
  show ?thesis
  proof (cases r)
    case (Cons d r')
    then show ?thesis using assms(2) \<open>s = c # r\<close> span_delim [OF assms(1), of r'] span_delim [OF assms(1), of r]
      by (auto simp: parse_exponent.simps Let_def split: if_splits)
  qed (use assms(2) Cons in \<open>auto simp: parse_exponent.simps split: if_splits\<close>)
qed

lemma parse_decimal_delim:
  assumes "delim t" "parse_decimal s = Some (v, [])"
  shows "parse_decimal (s @ t) = Some (v, t)"
proof (cases "dropWhile is_digit s")
  case Nil
  have "parse_exponent t = (0, t)" using parse_exponent_delim [OF assms(1), of "[]"] by simp
  moreover have "t \<noteq> [] \<Longrightarrow> hd t \<noteq> CHR ''.''" using delim_not_digit [OF assms(1)] by simp
  ultimately show ?thesis using assms(2) unfolding parse_decimal_def Let_def span_delim [OF assms(1)] Nil
    by (cases t) (auto split: if_splits)
next
  case (Cons c r)
  have e: "parse_exponent r' = (x, []) \<Longrightarrow> parse_exponent (r' @ t) = (x, t)" for r' x
    using parse_exponent_delim [OF assms(1), of r'] by simp
  show ?thesis
  proof (cases "c = CHR ''.'' \<and> (takeWhile is_digit s \<noteq> [] \<or> takeWhile is_digit r \<noteq> [])")
    case True
    then show ?thesis using assms(2) e [of "dropWhile is_digit r"]
      unfolding parse_decimal_def Let_def span_delim [OF assms(1)] Cons append_Cons
      by (auto simp: span_delim [OF assms(1)] split: if_splits prod.splits)
  next
    case False
    then show ?thesis using assms(2) e [of "c # r"]
      unfolding parse_decimal_def Let_def span_delim [OF assms(1)] Cons append_Cons
      by (auto simp: span_delim [OF assms(1)] split: if_splits prod.splits)
  qed
qed

text \<open>Numbers.\<close>

lemma layout_shape:
  assumes dig: "\<forall>c \<in> set ds. is_digit c" and ne: "ds \<noteq> []" and nz: "hd ds \<noteq> CHR ''0''"
  obtains ip r where "layout ds p = ip @ r" "\<forall>c \<in> set ip. is_digit c" "ip \<noteq> []" "hd ip \<noteq> CHR ''0'' \<or> tl ip = []"
    "r = [] \<or> hd r = CHR ''e'' \<or> hd r = CHR ''.'' \<and> tl r \<noteq> [] \<and> is_digit (hd (tl r))"
proof -
  let ?k = "int (length ds)"
  obtain d es where ds: "ds = d # es" using ne by (cases ds) auto
  consider "?k \<le> p \<and> p \<le> 21" | "\<not> (?k \<le> p \<and> p \<le> 21)" "0 < p \<and> p \<le> 21"
    | "\<not> (?k \<le> p \<and> p \<le> 21)" "\<not> (0 < p \<and> p \<le> 21)" "- 6 < p \<and> p \<le> 0"
    | "\<not> (?k \<le> p \<and> p \<le> 21)" "\<not> (0 < p \<and> p \<le> 21)" "\<not> (- 6 < p \<and> p \<le> 0)" by blast
  then show thesis
  proof cases
    case 1
    then show thesis using dig nz ds by (intro that [of "ds @ replicate (nat (p - ?k)) (CHR ''0'')" "[]"]) (auto simp: layout_def)
  next
    case 2
    then have "drop (nat p) ds \<noteq> []" by auto
    then have "is_digit (hd (drop (nat p) ds))" using dig by (meson hd_in_set in_set_dropD)
    moreover have "hd (take (nat p) ds) \<noteq> CHR ''0''" using 2 nz ds by (simp add: take_Cons')
    ultimately show thesis using 2 dig ne \<open>drop (nat p) ds \<noteq> []\<close>
      by (intro that [of "take (nat p) ds" "CHR ''.'' # drop (nat p) ds"]) (auto simp: layout_def dest: in_set_takeD)
  next
    case 3
    have "is_digit (hd (replicate (nat (- p)) (CHR ''0'') @ ds))" using dig ds by (cases "nat (- p)") auto
    then show thesis using 3 ne
      by (intro that [of "''0''" "CHR ''.'' # replicate (nat (- p)) (CHR ''0'') @ ds"]) (auto simp: layout_def)
  next
    case 4
    let ?e = "CHR ''e'' # (if 0 \<le> p - 1 then CHR ''+'' else CHR ''-'') # show_nat (nat \<bar>p - 1\<bar>)"
    show thesis
    proof (cases "es = []")
      case True
      then have "layout ds p = ds @ ?e" using 4 ds by (auto simp: layout_def)
      then show thesis by (rule that) (use dig ds nz True in auto)
    next
      case False
      then have "layout ds p = [d] @ CHR ''.'' # es @ ?e" using 4 ds by (auto simp: layout_def)
      moreover have "is_digit (hd es)" using False dig ds by simp
      ultimately show thesis by (intro that [of "[d]" "CHR ''.'' # es @ ?e"]) (use dig ds False in simp_all)
    qed
  qed
qed

lemma json_unsigned_show:
  assumes q: "is_double q" "0 < q" and t: "delim t"
  shows "json_unsigned (show_pos q @ t) = Some (Fin q, t)"
proof -
  obtain ds p where l: "show_pos q = layout ds p" "\<forall>c \<in> set ds. is_digit c" "ds \<noteq> []" "hd ds \<noteq> CHR ''0''"
    by (rule show_pos_layout [OF q])
  obtain ip r where ip: "layout ds p = ip @ r" "\<forall>c \<in> set ip. is_digit c" "ip \<noteq> []" "hd ip \<noteq> CHR ''0'' \<or> tl ip = []"
    "r = [] \<or> hd r = CHR ''e'' \<or> hd r = CHR ''.'' \<and> tl r \<noteq> [] \<and> is_digit (hd (tl r))"
    by (rule layout_shape [OF l(2-4), of p])
  have nd: "t \<noteq> [] \<Longrightarrow> \<not> is_digit (hd t) \<and> hd t \<noteq> CHR ''.''" using delim_not_digit [OF t] by simp
  have "r @ t = [] \<or> \<not> is_digit (hd (r @ t))" using ip(5) nd by (cases r) auto
  note sp = span_digits [OF ip(2) this]
  have "r @ t = [] \<or> hd (r @ t) \<noteq> CHR ''.'' \<or> takeWhile is_digit (tl (r @ t)) \<noteq> []"
    using ip(5) nd by (cases r; cases "tl r") auto
  moreover obtain v where v: "parse_decimal (show_pos q) = Some (v, [])" "rnd v = q" using show_pos_parse(1) [OF q] by blast
  moreover have "num_of v = Fin q" using num_of_double [OF q(1) v(2)] q(2) by simp
  ultimately show ?thesis using parse_decimal_delim [OF t v(1)] ip(3,4)
    by (auto simp: json_unsigned_def sp l(1) ip(1) Let_def)
qed

fun json_plain_num :: "jsnum \<Rightarrow> bool" where
  "json_plain_num (Fin q) = is_double q"
| "json_plain_num _ = False"

lemma json_number_show:
  assumes "json_plain_num x" and t: "delim t"
  shows "json_number (json_num x @ t) = Some (x, t)"
    and "json_num x \<noteq> [] \<and> (is_digit (hd (json_num x)) \<or> hd (json_num x) = CHR ''-'')"
proof -
  obtain q where x: "x = Fin q" and q: "is_double q" using assms(1) by (cases x) auto
  consider "q = 0" | "0 < q" | "q < 0" by linarith
  then have "json_number (json_num x @ t) = Some (x, t) \<and>
    json_num x \<noteq> [] \<and> (is_digit (hd (json_num x)) \<or> hd (json_num x) = CHR ''-'')"
  proof cases
    case 1
    have "parse_decimal ''0'' = Some (0, [])" using parse_decimal_int [of "''0''" "[]" 0] by simp
    from parse_decimal_delim [OF t this] have "json_unsigned (''0'' @ t) = Some (Fin 0, t)"
      using span_delim [OF t, of "''0''"] delim_not_digit [OF t] by (auto simp: json_unsigned_def mk_num_def)
    then show ?thesis using 1 x by (simp add: json_number_def)
  next
    case 2
    obtain c s where "show_pos q = c # s" "is_digit c" using show_pos_parse(2) [OF q 2] by (cases "show_pos q") auto
    then show ?thesis using 2 x json_unsigned_show [OF q 2 t] digit_not_special(2) [of c] by (auto simp: json_number_def)
  next
    case 3
    then have "json_unsigned (show_pos (- q) @ t) = Some (Fin (- q), t)" using q by (intro json_unsigned_show t) auto
    then show ?thesis using 3 x by (simp add: json_number_def)
  qed
  then show "json_number (json_num x @ t) = Some (x, t)"
    "json_num x \<noteq> [] \<and> (is_digit (hd (json_num x)) \<or> hd (json_num x) = CHR ''-'')" by auto
qed

text \<open>Strings.\<close>

lemma hex_digit_val: "k < 16 \<Longrightarrow> hex_val (hex_digit k) = Some k"
  by (simp add: hex_val_def hex_digit_def radix_val_def lower_char_def Let_def)

lemma json_chars_quote_char: "json_chars (quote_char c @ t) = map_option (apfst ((#) c)) (json_chars t)"
proof -
  define n where "n = (of_char c :: nat)"
  have c: "c = char_of n" by (simp add: n_def)
  have small: "c = CHR 0x22 \<longleftrightarrow> n = 34" "c = CHR 0x5C \<longleftrightarrow> n = 92"
    unfolding n_def of_char_eq_iff [where 'a = nat, symmetric] by simp_all
  consider "n \<in> {8, 9, 10, 12, 13, 34, 92}" | "n \<notin> {8, 9, 10, 12, 13, 34, 92}" "n < 32" | "n \<notin> {8, 9, 10, 12, 13, 34, 92}" "32 \<le> n"
    by linarith
  then show ?thesis
  proof cases
    case 1
    have "char_of (8::nat) = CHR 0x08" "char_of (9::nat) = CHR 0x09" "char_of (10::nat) = CHR 0x0A" "char_of (12::nat) = CHR 0x0C"
      "char_of (13::nat) = CHR 0x0D" "char_of (34::nat) = CHR 0x22" "char_of (92::nat) = CHR 0x5C"
      unfolding of_char_eq_iff [where 'a = nat, symmetric] by simp_all
    then show ?thesis using 1 unfolding c
      by (elim insertE emptyE) (simp_all add: quote_char_def json_escape_def simple_escape_def)
  next
    case 2
    have "hex_val (CHR ''0'') = Some 0" by (simp add: hex_val_def radix_val_def lower_char_def)
    then have "json_escape (CHR ''u'' # CHR ''0'' # CHR ''0'' # hex_digit (n div 16) # hex_digit (n mod 16) # t) = Some (c, t)"
      using 2 c by (simp add: json_escape_def hex_digit_val)
    then show ?thesis using 2 by (simp add: quote_char_def n_def [symmetric] Let_def)
  next
    case 3
    then show ?thesis using small by (simp add: quote_char_def n_def [symmetric] Let_def)
  qed
qed

lemma json_chars_quote: "json_chars (concat (map quote_char s) @ CHR 0x22 # t) = Some (s, t)"
  by (induction s) (simp_all add: json_chars_quote_char)

lemma json_quote_read: "json_quote s @ t = CHR 0x22 # concat (map quote_char s) @ CHR 0x22 # t"
  by (simp add: json_quote_def)

text \<open>White space before a value does not matter.\<close>

abbreviation blank :: "string \<Rightarrow> bool" where
  "blank w \<equiv> \<forall>c \<in> set w. is_json_space c"

lemma skip_blank [simp]: "blank w \<Longrightarrow> skip (w @ s) = skip s"
  by (simp add: dropWhile_append2)

lemma json_value_blank: "blank w \<Longrightarrow> json_value n (w @ s) = json_value n s"
  by (cases n) simp_all

lemma json_array_blank: "blank w \<Longrightarrow> json_array n (w @ s) = json_array n s"
  by (cases n) (simp_all add: json_value_blank)

lemma json_pairs_blank: "blank w \<Longrightarrow> json_pairs n (w @ s) = json_pairs n s"
  by (cases n) simp_all

lemma not_space [simp]:
  "\<not> is_json_space (CHR 0x22)" "\<not> is_json_space (CHR ''['')" "\<not> is_json_space (CHR ''{'')" "\<not> is_json_space (CHR '']'')"
  "\<not> is_json_space (CHR ''}'')" "\<not> is_json_space (CHR '','')" "\<not> is_json_space (CHR '':'')" "\<not> is_json_space (CHR ''t'')"
  "\<not> is_json_space (CHR ''f'')" "\<not> is_json_space (CHR ''n'')" "\<not> is_json_space (CHR ''-'')" "is_json_space (CHR 0x0A)"
  "is_json_space (CHR '' '')"
  by (simp_all add: is_json_space_def)

lemma digit_not_json [simp]: "is_digit c \<Longrightarrow> \<not> is_json_space c"
  by (auto simp: is_json_space_def is_digit_def)

section \<open>The round trip\<close>

text \<open>Plain values: what JSON can express without loss.\<close>

fun json_plain :: "jsval \<Rightarrow> bool" where
  "json_plain Undefined = False"
| "json_plain Null = True"
| "json_plain (Bool b) = True"
| "json_plain (Num x) = json_plain_num x"
| "json_plain (Str s) = True"
| "json_plain (Arr xs) = list_all json_plain xs"
| "json_plain (Obj ps) = (distinct (map fst ps) \<and> list_all (\<lambda>p. json_plain (snd p)) ps)"

definition json_reads :: "string \<Rightarrow> jsval \<Rightarrow> bool" where
  "json_reads gap v \<longleftrightarrow>
     (\<forall>indent t n. blank indent \<longrightarrow> delim t \<longrightarrow> 2 * length (json_text gap indent v @ t) + 1 \<le> n \<longrightarrow>
        json_value n (json_text gap indent v @ t) = Some (v, t))"

text \<open>The head of a written value is no white space and no closing bracket.\<close>

lemma json_wrap_head: "\<exists>s. json_wrap gap indent l r parts = l # s"
  by (simp add: json_wrap_def)

lemma json_text_head:
  assumes "json_plain v"
  shows "\<exists>c s. json_text gap indent v = c # s \<and> \<not> is_json_space c \<and> c \<noteq> CHR '']'' \<and> c \<noteq> CHR ''}''"
proof (cases v)
  case (Num x)
  then have "json_num x \<noteq> [] \<and> (is_digit (hd (json_num x)) \<or> hd (json_num x) = CHR ''-'')"
    using assms json_number_show(2) [of x "[]"] by simp
  then obtain c s where "json_num x = c # s" "is_digit c \<or> c = CHR ''-''" by (cases "json_num x") auto
  then show ?thesis using Num by (auto simp: is_digit_def)
next
  case (Arr xs)
  obtain s where "json_text gap indent v = CHR ''['' # s" using Arr json_wrap_head by fastforce
  then show ?thesis by simp
next
  case (Obj ps)
  obtain s where "json_text gap indent v = CHR ''{'' # s" using Obj json_wrap_head by fastforce
  then show ?thesis by simp
qed (use assms in \<open>auto simp: json_quote_def\<close>)

text \<open>The white space of a bracket: after it and after each comma, and before the closing one.\<close>

definition gap_in :: "string \<Rightarrow> string \<Rightarrow> string" where
  "gap_in gap indent = (if gap = [] then [] else CHR 0x0A # indent @ gap)"

definition gap_out :: "string \<Rightarrow> string \<Rightarrow> string" where
  "gap_out gap indent = (if gap = [] then [] else CHR 0x0A # indent)"

lemma json_wrap_gaps:
  "parts \<noteq> [] \<Longrightarrow>
     json_wrap gap indent l r parts = l # gap_in gap indent @ js_join (CHR '','' # gap_in gap indent) parts @ gap_out gap indent @ [r]"
  by (simp add: json_wrap_def gap_in_def gap_out_def)

lemma gaps_blank:
  assumes "blank gap" "blank indent"
  shows "blank (gap_in gap indent)" "blank (gap_out gap indent)" "blank (indent @ gap)"
  using assms by (auto simp: gap_in_def gap_out_def)

lemma delim_gap_out: "delim (CHR '','' # t)" "delim (gap_out gap indent @ CHR '']'' # t)" "delim (gap_out gap indent @ CHR ''}'' # t)"
  by (simp_all add: gap_out_def)

lemma json_readsD:
  "json_reads gap v \<Longrightarrow> blank indent \<Longrightarrow> delim t \<Longrightarrow> 2 * length (json_text gap indent v @ t) + 1 \<le> n \<Longrightarrow>
     json_value n (json_text gap indent v @ t) = Some (v, t)"
  by (simp add: json_reads_def)

lemma json_array_written:
  assumes "\<forall>x \<in> set xs. json_reads gap x" "xs \<noteq> []" "blank indent" and w: "blank w"
    and out: "blank out" "delim (out @ CHR '']'' # t)"
    and n: "2 * length (js_join (CHR '','' # w) (json_elems gap indent xs) @ out @ CHR '']'' # t) + 2 \<le> n"
  shows "json_array n (js_join (CHR '','' # w) (json_elems gap indent xs) @ out @ CHR '']'' # t) = Some (xs, t)"
  using assms(1,2) n
proof (induction xs arbitrary: n rule: induct_list012)
  case (2 x)
  obtain m where m: "n = Suc m" using 2 by (cases n) auto
  have "json_value m (json_text gap indent x @ out @ CHR '']'' # t) = Some (x, out @ CHR '']'' # t)"
    using 2 m assms(3) out by (intro json_readsD) auto
  then show ?case using m out(1) by simp
next
  case (3 x y xs)
  obtain m where m: "n = Suc m" using 3 by (cases n) auto
  let ?r = "js_join (CHR '','' # w) (json_elems gap indent (y # xs)) @ out @ CHR '']'' # t"
  have len: "2 * length (json_text gap indent x @ CHR '','' # w @ ?r) + 2 \<le> n" using "3.prems"(3) by simp
  have "json_value m (json_text gap indent x @ CHR '','' # w @ ?r) = Some (x, CHR '','' # w @ ?r)"
    using 3 len m assms(3) by (intro json_readsD) auto
  moreover have "json_array m ?r = Some (y # xs, t)" using 3 len m by (intro "3.IH"(2)) auto
  ultimately show ?case using m json_array_blank [OF w, of m ?r] by simp
qed simp

lemma json_members_Cons:
  "v \<noteq> Undefined \<Longrightarrow> json_members gap indent ((k, v) # ps) =
     (json_quote k @ (if gap = [] then '':'' else '': '') @ json_text gap indent v) # json_members gap indent ps"
  by simp

text \<open>A key, its colon and a value, up to what follows.\<close>

lemma json_pairs_member:
  assumes "json_reads gap v" "blank indent" "delim r" and n: "2 * length (json_text gap indent v @ r) + 1 \<le> n"
  shows "json_pairs (Suc n) (json_quote k @ (if gap = [] then '':'' else '': '') @ json_text gap indent v @ r) =
    (case skip r of [] \<Rightarrow> None
     | e # r' \<Rightarrow> if e = CHR '','' then map_option (apfst ((#) (k, v))) (json_pairs n r')
                else if e = CHR ''}'' then Some ([(k, v)], r') else None)"
proof -
  have v: "json_value n (json_text gap indent v @ r) = Some (v, r)" using assms by (intro json_readsD)
  have b: "json_value n ('' '' @ json_text gap indent v @ r) = Some (v, r)" using v json_value_blank [of "'' ''"] by simp
  show ?thesis
  proof (cases "gap = []")
    case True
    then show ?thesis unfolding json_quote_read using v by (simp add: json_chars_quote del: json_chars.simps)
  next
    case False
    then show ?thesis unfolding json_quote_read using b by (simp add: json_chars_quote del: json_chars.simps)
  qed
qed

lemma json_pairs_written:
  assumes "\<forall>p \<in> set ps. json_reads gap (snd p) \<and> snd p \<noteq> Undefined" "ps \<noteq> []" "blank indent" and w: "blank w"
    and out: "blank out" "delim (out @ CHR ''}'' # t)"
    and n: "2 * length (js_join (CHR '','' # w) (json_members gap indent ps) @ out @ CHR ''}'' # t) + 2 \<le> n"
  shows "json_pairs n (js_join (CHR '','' # w) (json_members gap indent ps) @ out @ CHR ''}'' # t) = Some (ps, t)"
  using assms(1,2) n
proof (induction ps arbitrary: n rule: induct_list012)
  case (2 p)
  obtain m k v where m: "n = Suc m" "p = (k, v)" using 2 by (cases n; cases p) auto
  have "2 * length (json_text gap indent v @ out @ CHR ''}'' # t) + 1 \<le> m" using 2 m by auto
  from json_pairs_member [OF _ assms(3) out(2) this, of k] show ?case using 2 m out(1) by simp
next
  case (3 p q ps)
  obtain m k v where m: "n = Suc m" "p = (k, v)" using 3 by (cases n; cases p) auto
  let ?r = "js_join (CHR '','' # w) (json_members gap indent (q # ps)) @ out @ CHR ''}'' # t"
  have ne: "json_members gap indent (q # ps) \<noteq> []" using 3 by (cases q) simp
  have eq: "js_join (CHR '','' # w) (json_members gap indent (p # q # ps)) @ out @ CHR ''}'' # t =
      json_quote k @ (if gap = [] then '':'' else '': '') @ json_text gap indent v @ CHR '','' # w @ ?r"
    using 3 m ne by (cases "json_members gap indent (q # ps)") auto
  have len: "2 * length (json_quote k @ (if gap = [] then '':'' else '': '') @ json_text gap indent v @ CHR '','' # w @ ?r) + 2 \<le> n"
    using "3.prems"(3) unfolding eq .
  have l: "2 * length (json_text gap indent v @ CHR '','' # w @ ?r) + 1 \<le> m" using len m by simp
  have "json_pairs m ?r = Some (q # ps, t)" using 3 len m by (intro "3.IH"(2)) auto
  then have "json_pairs m (w @ ?r) = Some (q # ps, t)" using json_pairs_blank [OF w] by simp
  with json_pairs_member [OF _ assms(3) delim_gap_out(1) l, of k] show ?case using 3 m unfolding eq by simp
qed simp

text \<open>Storing distinct keys one by one keeps the list.\<close>

lemma update_new: "k \<notin> fst ` set al \<Longrightarrow> AList.update k v al = al @ [(k, v)]"
  by (induction al) auto

lemma fold_update_append:
  "distinct (map fst (qs @ ps)) \<Longrightarrow> fold (\<lambda>(k, v). AList.update k v) ps qs = qs @ ps"
proof (induction ps arbitrary: qs)
  case (Cons p ps)
  obtain k v where p: "p = (k, v)" by fastforce
  have "AList.update k v qs = qs @ [(k, v)]" using Cons.prems p by (intro update_new) auto
  then show ?case using Cons.IH [of "qs @ [(k, v)]"] Cons.prems p by simp
qed simp

lemma fold_update_distinct: "distinct (map fst ps) \<Longrightarrow> fold (\<lambda>(k, v). AList.update k v) ps [] = ps"
  using fold_update_append [of "[]" ps] by simp

lemma json_plain_defined: "json_plain v \<Longrightarrow> v \<noteq> Undefined"
  by auto

lemma js_join_head: "\<exists>u. js_join sep (s # ss) = s @ u"
  by (cases ss) auto

lemma json_reads_array:
  assumes xs: "\<forall>x \<in> set xs. json_plain x \<and> json_reads gap x" and gap: "blank gap"
  shows "json_reads gap (Arr xs)"
  unfolding json_reads_def
proof (intro allI impI)
  fix indent t n
  assume ind: "blank indent" and "delim t" and n: "2 * length (json_text gap indent (Arr xs) @ t) + 1 \<le> n"
  then obtain m where m: "n = Suc m" by (cases n) auto
  show "json_value n (json_text gap indent (Arr xs) @ t) = Some (Arr xs, t)"
  proof (cases xs)
    case Nil
    then show ?thesis using m by (simp add: json_wrap_def)
  next
    case (Cons x ys)
    let ?w = "gap_in gap indent" and ?out = "gap_out gap indent"
    let ?r = "js_join (CHR '','' # ?w) (json_elems gap (indent @ gap) xs) @ ?out @ CHR '']'' # t"
    have tx: "json_text gap indent (Arr xs) @ t = CHR ''['' # ?w @ ?r" using Cons by (simp add: json_wrap_gaps)
    note blanks = gaps_blank [OF gap ind]
    have "json_array m ?r = Some (xs, t)"
      using xs Cons n m tx blanks by (intro json_array_written delim_gap_out(2)) auto
    moreover obtain c s where c: "?r = c # s" "\<not> is_json_space c" "c \<noteq> CHR '']''"
      using Cons xs json_text_head [of x gap "indent @ gap"]
        js_join_head [of "CHR '','' # ?w" "json_text gap (indent @ gap) x" "json_elems gap (indent @ gap) ys"]
      by auto
    ultimately show ?thesis unfolding tx m using blanks by simp
  qed
qed

lemma json_reads_object:
  assumes ps: "\<forall>p \<in> set ps. json_plain (snd p) \<and> json_reads gap (snd p)" and dist: "distinct (map fst ps)" and gap: "blank gap"
  shows "json_reads gap (Obj ps)"
  unfolding json_reads_def
proof (intro allI impI)
  fix indent t n
  assume ind: "blank indent" and "delim t" and n: "2 * length (json_text gap indent (Obj ps) @ t) + 1 \<le> n"
  then obtain m where m: "n = Suc m" by (cases n) auto
  show "json_value n (json_text gap indent (Obj ps) @ t) = Some (Obj ps, t)"
  proof (cases ps)
    case Nil
    then show ?thesis using m by (simp add: json_wrap_def)
  next
    case (Cons p qs)
    let ?w = "gap_in gap indent" and ?out = "gap_out gap indent"
    let ?r = "js_join (CHR '','' # ?w) (json_members gap (indent @ gap) ps) @ ?out @ CHR ''}'' # t"
    obtain k v where p: "p = (k, v)" "v \<noteq> Undefined" using ps Cons by (cases p) (auto dest: json_plain_defined)
    then have parts: "json_members gap (indent @ gap) ps =
      (json_quote k @ (if gap = [] then '':'' else '': '') @ json_text gap (indent @ gap) v) # json_members gap (indent @ gap) qs"
      using Cons by simp
    then have tx: "json_text gap indent (Obj ps) @ t = CHR ''{'' # ?w @ ?r" by (simp add: json_wrap_gaps)
    note blanks = gaps_blank [OF gap ind]
    have "json_pairs m ?r = Some (ps, t)"
      using ps Cons n m tx blanks by (intro json_pairs_written delim_gap_out(3)) (auto dest: json_plain_defined)
    moreover obtain s where "?r = CHR 0x22 # s"
      using js_join_head [of "CHR '','' # ?w" "hd (json_members gap (indent @ gap) ps)" "json_members gap (indent @ gap) qs"]
      unfolding parts by (auto simp: json_quote_def)
    moreover have "json_object ps = Obj ps" using dist by (simp add: json_object_def fold_update_distinct)
    ultimately show ?thesis unfolding tx m using blanks by simp
  qed
qed

lemma json_reads_plain: "json_plain v \<Longrightarrow> blank gap \<Longrightarrow> json_reads gap v"
proof (induction v)
  case (Num x)
  show ?case unfolding json_reads_def
  proof (intro allI impI)
    fix indent t n
    assume t: "delim t" and n: "2 * length (json_text gap indent (Num x) @ t) + 1 \<le> n"
    then obtain m where m: "n = Suc m" by (cases n) auto
    obtain c s where c: "json_num x = c # s" "is_digit c \<or> c = CHR ''-''"
      using Num json_number_show(2) [of x "[]"] by (cases "json_num x") auto
    then have "c \<noteq> CHR ''{''" "c \<noteq> CHR ''[''" "c \<noteq> CHR 0x22" "c \<noteq> CHR ''t''" "c \<noteq> CHR ''f''" "c \<noteq> CHR ''n''"
      "\<not> is_json_space c" by (auto simp: is_digit_def)
    then show "json_value n (json_text gap indent (Num x) @ t) = Some (Num x, t)"
      using json_number_show(1) [of x t] t Num m c by simp
  qed
next
  case (Arr xs)
  then show ?case by (intro json_reads_array) (auto simp: list_all_iff)
next
  case (Obj ps)
  then show ?case by (intro json_reads_object) (auto simp: list_all_iff; fastforce)+
next
  case (Str s)
  show ?case unfolding json_reads_def
  proof (intro allI impI)
    fix indent t n
    assume "2 * length (json_text gap indent (Str s) @ t) + 1 \<le> n"
    then obtain m where "n = Suc m" by (cases n) auto
    then show "json_value n (json_text gap indent (Str s) @ t) = Some (Str s, t)"
      by (simp add: json_quote_read json_chars_quote del: json_chars.simps append_Cons)
  qed
next
  case (Bool b)
  show ?case unfolding json_reads_def
  proof (intro allI impI)
    fix indent t n
    assume "2 * length (json_text gap indent (Bool b) @ t) + 1 \<le> n"
    then obtain m where "n = Suc m" by (cases n) auto
    then show "json_value n (json_text gap indent (Bool b) @ t) = Some (Bool b, t)" by (simp add: json_literal_def)
  qed
next
  case Null
  show ?case unfolding json_reads_def
  proof (intro allI impI)
    fix indent t n
    assume "2 * length (json_text gap indent Null @ t) + 1 \<le> n"
    then obtain m where "n = Suc m" by (cases n) auto
    then show "json_value n (json_text gap indent Null @ t) = Some (Null, t)" by (simp add: json_literal_def)
  qed
qed simp

lemma JSON_parse_text: "json_plain v \<Longrightarrow> blank gap \<Longrightarrow> JSON_parse (json_text gap [] v) = Some v"
  using json_readsD [OF json_reads_plain, of v gap "[]" "[]" "2 * length (json_text gap [] v) + 1"]
  by (simp add: JSON_parse_def del: json_value.simps)

end
