(* ===== verification/Do_Command.thy ===== *)
theory Do_Command
  imports Client Event_System Js_Json
begin

text \<open>
  \<open>do-command.vue\<close>: a command typed as JSON is sent to a component and the answer is shown as JSON.
  \<open>Struct.fromJavaScript\<close> and the printed form of an error belong to libraries and are arguments.
  A disabled button or select does not send its event.
\<close>

section \<open>The panel\<close>

record do_state =
  dc_selectedComponent :: "string option"
  dc_input :: "string option"
  dc_output :: jsval
  dc_executing :: bool
  dc_calls :: "string list"                  \<comment> \<open>the names of the calls not answered yet\<close>

definition do_init :: do_state where
  "do_init = \<lparr>dc_selectedComponent = None, dc_input = None, dc_output = Undefined, dc_executing = False, dc_calls = []\<rparr>"

text \<open>\<open>!x\<close> for a string that may be undefined.\<close>

definition falsy_text :: "string option \<Rightarrow> bool" where
  "falsy_text x \<longleftrightarrow> x = None \<or> x = Some []"

definition doCommand ::
  "(jsval \<Rightarrow> jsval throws) \<Rightarrow> string option \<Rightarrow> string option \<Rightarrow> do_state \<Rightarrow> do_state \<times> effect list" where
  "doCommand fromJavaScript name command s =
     (if falsy_text name \<or> falsy_text command then (s, [])
      else case JSON_parse (the command) of
        None \<Rightarrow> (s, [Uncaught SyntaxError])
      | Some v \<Rightarrow>
          (case fromJavaScript v of
             Inl e \<Rightarrow> (s, [Uncaught e])
           | Inr st \<Rightarrow>
               (s\<lparr>dc_executing := True, dc_calls := dc_calls s @ [the name]\<rparr>,
                [Call (GenericReq (DoCommand (the name) st))])))"

text \<open>
  The callback: an error, no response, or a response with what \<open>getResult()?.toObject()\<close> gives.
\<close>

definition doCommand_done ::
  "(service_error \<Rightarrow> string) \<Rightarrow> string \<Rightarrow> service_error + jsval option \<Rightarrow> do_state \<Rightarrow> do_state \<times> effect list" where
  "doCommand_done errText name r s =
     (case r of
        Inl e \<Rightarrow> (s\<lparr>dc_executing := False\<rparr>, [ToastError (''Error executing command on '' @ name @ '': '' @ errText e)])
      | Inr None \<Rightarrow> (s\<lparr>dc_executing := False\<rparr>, [ToastError (''Invalid response when executing command on '' @ name)])
      | Inr (Some v) \<Rightarrow> (s\<lparr>dc_output := JSON_stringify [CHR 0x09] v, dc_executing := False\<rparr>, []))"

text \<open>The select's options: a name that only one resource has, or the full name.\<close>

definition count_name :: "resource_name \<Rightarrow> (string \<times> nat) list \<Rightarrow> (string \<times> nat) list" where
  "count_name r simple =
     (let simple' = (if map_of simple (rn_name r) = None then AList.update (rn_name r) 0 simple else simple)
      in AList.update (rn_name r) (the (map_of simple' (rn_name r)) + 1) simple')"

definition pretty_names :: "resource_name list \<Rightarrow> string list" where
  "pretty_names rs =
     (let simple = fold count_name rs []
      in map (\<lambda>r. if map_of simple (rn_name r) = Some 1 then rn_name r else resourceNameToString (Some r)) rs)"

definition namesToPrettySelect :: "resource_name list \<Rightarrow> string" where
  "namesToPrettySelect rs = js_join '','' (pretty_names rs)"

definition do_disabled :: "do_state \<Rightarrow> bool" where
  "do_disabled s \<longleftrightarrow> falsy_text (dc_selectedComponent s) \<or> falsy_text (dc_input s) \<or> dc_executing s"

datatype do_event =
    DcSelect string
  | DcInput string
  | DcClick
  | DcAnswer "service_error + jsval option"

fun do_handle :: "(jsval \<Rightarrow> jsval throws) \<Rightarrow> (service_error \<Rightarrow> string) \<Rightarrow> (do_state, do_event, effect) handler" where
  "do_handle fj et s (DcSelect n) = (if dc_executing s then (s, []) else (s\<lparr>dc_selectedComponent := Some n\<rparr>, []))"
| "do_handle fj et s (DcInput i) = (s\<lparr>dc_input := Some i\<rparr>, [])"
| "do_handle fj et s DcClick = (if do_disabled s then (s, []) else doCommand fj (dc_selectedComponent s) (dc_input s) s)"
| "do_handle fj et s (DcAnswer r) =
     (case dc_calls s of [] \<Rightarrow> (s, []) | n # ns \<Rightarrow> doCommand_done et n r (s\<lparr>dc_calls := ns\<rparr>))"

text \<open>What the button shows, whether it and the select are disabled, and the options.\<close>

definition do_view :: "resource_name list \<Rightarrow> do_state \<Rightarrow> string \<times> bool \<times> bool \<times> string \<times> jsval" where
  "do_view rs s =
     (if dc_executing s then ''RUNNING...'' else ''DO'', do_disabled s, dc_executing s, namesToPrettySelect rs, dc_output s)"

section \<open>One command at a time\<close>

text \<open>
  The panel is executing exactly while one call is unanswered: the last one sent, for the component that
  is still selected.
\<close>

definition do_inv :: "do_state \<Rightarrow> effect list \<Rightarrow> bool" where
  "do_inv s os \<longleftrightarrow> dc_calls s = (if dc_executing s then [the (dc_selectedComponent s)] else []) \<and>
     (dc_executing s \<longrightarrow> dc_selectedComponent s \<noteq> None \<and> calls os \<noteq> [] \<and>
        (\<exists>st. last (calls os) = GenericReq (DoCommand (the (dc_selectedComponent s)) st)))"

interpretation dc: history_system "do_handle fj et" "\<lambda>s. s = do_init" "\<lambda>_. True" do_inv for fj et
proof
  show "do_inv s []" if "s = do_init" for s using that by (simp add: do_inv_def do_init_def)
next
  fix s os e
  assume inv: "do_inv s os"
  have quiet: "calls (os @ snd r) = calls os" if "\<forall>x \<in> set (snd r). \<forall>q. x \<noteq> Call q" for r :: "do_state \<times> effect list"
    using that by (auto simp: calls_def map_filter_def filter_empty_conv split: effect.splits)
  show "do_inv (fst (do_handle fj et s e)) (os @ snd (do_handle fj et s e))"
  proof (cases e)
    case DcClick
    then show ?thesis using inv quiet [of "doCommand fj (dc_selectedComponent s) (dc_input s) s"]
      by (auto simp: do_inv_def do_disabled_def falsy_text_def doCommand_def split: option.splits sum.splits)
  next
    case (DcAnswer r)
    then show ?thesis using inv
      by (auto simp: do_inv_def doCommand_done_def split: list.splits option.splits sum.splits if_splits)
  qed (use inv in \<open>auto simp: do_inv_def\<close>)
qed

text \<open>
  C10. One command at a time: whatever is typed, selected and clicked and however the calls are answered,
  while the panel is executing the last request sent is for the component that is still selected, and
  neither the button nor the select reacts; an answer, whatever it is, ends it, an error or a missing
  response is reported under the name of that component, and then the button is back. While the panel is
  not executing no call is unanswered.
\<close>

theorem do_command_exclusive:
  assumes "s = final (do_handle fj et) do_init es" and "os = outputs (do_handle fj et) do_init es"
  shows "if dc_executing s then
           \<exists>n st. dc_selectedComponent s = Some n \<and> calls os \<noteq> [] \<and> last (calls os) = GenericReq (DoCommand n st) \<and>
             do_handle fj et s DcClick = (s, []) \<and> do_handle fj et s (DcSelect m) = (s, []) \<and>
             \<not> dc_executing (fst (do_handle fj et s (DcAnswer r))) \<and>
             dc_selectedComponent (fst (do_handle fj et s (DcAnswer r))) = Some n \<and>
             snd (do_handle fj et s (DcAnswer r)) =
               (case r of
                  Inl e \<Rightarrow> [ToastError (''Error executing command on '' @ n @ '': '' @ et e)]
                | Inr None \<Rightarrow> [ToastError (''Invalid response when executing command on '' @ n)]
                | Inr (Some v) \<Rightarrow> [])
         else do_handle fj et s (DcAnswer r) = (s, [])"
proof -
  have inv: "do_inv s os" unfolding assms by (rule dc.run_P) (simp_all add: list_all_iff)
  show ?thesis
  proof (cases "dc_executing s")
    case False
    then show ?thesis using inv by (simp add: do_inv_def)
  next
    case True
    with inv obtain n st where "dc_selectedComponent s = Some n" "calls os \<noteq> []" "dc_calls s = [n]"
      "last (calls os) = GenericReq (DoCommand n st)" by (auto simp: do_inv_def)
    with True show ?thesis
      by (auto simp: do_disabled_def doCommand_done_def split: sum.splits option.splits)
  qed
qed

theorem do_command_exclusive_witness:
  "\<exists>st. last (calls (outputs (do_handle Inr err_message) do_init [DcSelect ''arm1'', DcInput ''null'', DcClick, DcSelect ''arm2''])) =
     GenericReq (DoCommand ''arm1'' st)"
proof -
  let ?es = "[DcSelect ''arm1'', DcInput ''null'', DcClick, DcSelect ''arm2'']"
  have "JSON_parse ''null'' = Some Null" by code_simp
  then have "dc_executing (final (do_handle Inr err_message) do_init ?es)"
    "dc_selectedComponent (final (do_handle Inr err_message) do_init ?es) = Some ''arm1''"
    by (simp_all add: do_init_def do_disabled_def doCommand_def falsy_text_def)
  with do_command_exclusive [OF refl refl, of Inr err_message ?es] show ?thesis by fastforce
qed

section \<open>The options\<close>

lemma count_name_map:
  "map_of (count_name r m) n = (if n = rn_name r then Some (case map_of m n of None \<Rightarrow> 1 | Some c \<Rightarrow> c + 1) else map_of m n)"
  by (auto simp: count_name_def Let_def dict_simps split: option.splits)

lemma fold_count_name:
  "map_of (fold count_name rs m) n =
     (let c = count_list (map rn_name rs) n
      in if c = 0 then map_of m n else Some (c + (case map_of m n of None \<Rightarrow> 0 | Some k \<Rightarrow> k)))"
  by (induction rs arbitrary: m) (auto simp: count_name_map Let_def split: option.splits)

lemma pretty_names_eq:
  "pretty_names rs =
     map (\<lambda>r. if count_list (map rn_name rs) (rn_name r) = 1 then rn_name r else resourceNameToString (Some r)) rs"
  by (auto simp: pretty_names_def fold_count_name Let_def)

text \<open>
  C27. The options of the select are the names that no other listed resource has, and the full names of
  the others, in the order of the resources: the counting with a map does what counting the names
  in the list does.
\<close>

theorem namesToPrettySelect_eq:
  "namesToPrettySelect rs =
     js_join '','' (map (\<lambda>r. if count_list (map rn_name rs) (rn_name r) = 1 then rn_name r
                            else resourceNameToString (Some r)) rs)"
  by (simp add: namesToPrettySelect_def pretty_names_eq)

text \<open>Resources whose printed forms the select can list.\<close>

definition listable :: "resource_name \<Rightarrow> bool" where
  "listable r \<longleftrightarrow> printable r \<and> rn_name r \<noteq> [] \<and> CHR '','' \<notin> set (resourceNameToString (Some r))"

lemma listable_full:
  assumes "listable r"
  shows "CHR ''/'' \<in> set (resourceNameToString (Some r))" "CHR '','' \<notin> set (rn_name r)" "CHR ''/'' \<notin> set (rn_name r)"
  using assms by (auto simp: listable_def printable_def resourceNameToString_def Let_def)


lemma inj_on_full_names: "inj_on (\<lambda>r. resourceNameToString (Some r)) {r. listable r}"
proof (rule inj_onI)
  fix r s assume a: "r \<in> {r. listable r}" "s \<in> {r. listable r}" "resourceNameToString (Some r) = resourceNameToString (Some s)"
  have p: "stringToResourceName (resourceNameToString (Some x)) = Inr x" if "x \<in> {r. listable r}" for x
    using that by (intro printed_name_parses) (simp add: listable_def)
  show "r = s" using p [OF a(1)] p [OF a(2)] unfolding a(3) by simp
qed

lemma count_list_once:
  "count_list (map f xs) (f x) = 1 \<Longrightarrow> x \<in> set xs \<Longrightarrow> y \<in> set xs \<Longrightarrow> f y = f x \<Longrightarrow> y = x"
proof (induction xs)
  case (Cons z zs)
  have nz: "w \<in> set zs \<Longrightarrow> count_list (map f zs) (f w) \<noteq> 0" for w by (simp add: count_list_0_iff)
  show ?case
  proof (cases "f z = f x")
    case True
    then have "count_list (map f zs) (f x) = 0" using Cons.prems(1) by simp
    then have "x \<notin> set zs" "y \<notin> set zs" using nz [of x] nz [of y] Cons.prems(4) by auto
    then show ?thesis using Cons.prems(2,3) by simp
  qed (use Cons in auto)
qed simp

text \<open>
  The select identifies the resource: when all listed resources differ, so do the options, and the
  select, which splits its options at commas, shows exactly one per resource.
\<close>

theorem select_options_distinct:
  assumes "distinct rs" "rs \<noteq> []" and l: "\<forall>r \<in> set rs. listable r"
  shows "js_split (CHR '','') (namesToPrettySelect rs) = pretty_names rs \<and> distinct (pretty_names rs)"
proof
  let ?f = "\<lambda>r. if count_list (map rn_name rs) (rn_name r) = 1 then rn_name r else resourceNameToString (Some r)"
  have "CHR '','' \<notin> set p" if "p \<in> set (pretty_names rs)" for p
    using that l listable_full by (auto simp: pretty_names_eq listable_def split: if_splits)
  then show "js_split (CHR '','') (namesToPrettySelect rs) = pretty_names rs"
    using assms(2) unfolding namesToPrettySelect_def by (intro js_split_join) (auto simp: pretty_names_eq)
  have "inj_on ?f (set rs)"
  proof (rule inj_onI)
    fix r s assume r: "r \<in> set rs" and s: "s \<in> set rs" and eq: "?f r = ?f s"
    have sep: "rn_name x \<noteq> resourceNameToString (Some y)" if "x \<in> set rs" "y \<in> set rs" for x y
      using l that listable_full(1) [of y] listable_full(3) [of x] by metis
    consider "rn_name r = rn_name s" "count_list (map rn_name rs) (rn_name r) = 1"
      | "resourceNameToString (Some r) = resourceNameToString (Some s)"
      using eq sep [OF r s] sep [OF s r] by metis
    then show "r = s"
    proof cases
      case 1
      show ?thesis by (rule sym) (rule count_list_once [OF 1(2) r s 1(1) [symmetric]])
    next
      case 2
      show ?thesis by (rule inj_onD [OF inj_on_full_names 2]) (use r s l in auto)
    qed
  qed
  then show "distinct (pretty_names rs)" unfolding pretty_names_eq using assms(1) by (simp add: distinct_map)
qed


theorem select_options_distinct_witness:
  "distinct (pretty_names
     [\<lparr>rn_namespace = ''rdk'', rn_type = ''component'', rn_subtype = ''arm'', rn_name = ''a''\<rparr>,
      \<lparr>rn_namespace = ''rdk'', rn_type = ''component'', rn_subtype = ''base'', rn_name = ''a''\<rparr>])"
  by (rule select_options_distinct [THEN conjunct2])
    (auto simp: listable_def printable_def resourceNameToString_def resourceNameToSubtypeString_def Let_def)

end
