(* ===== verification/Navigation.thy ===== *)
theory Navigation
  imports Panel Js_Json
begin

text \<open>
  \<open>navigation.vue\<close>: the map panel with its waypoints and the robot's location. Every run of
  \<open>initNavigation\<close> has variables of its own, a \<open>nav_run\<close>, and makes a map object; the variable \<open>map\<close> is
  shared by all runs and names the object made last, so every run draws on that one from then on. A
  marker knows the map object it is on. A waypoint is identified by the JSON text of its position.
  Timers and unanswered calls name the loop they belong to.
\<close>

type_synonym position = "jsnum \<times> jsnum"     \<comment> \<open>latitude, longitude\<close>

record waypoint =
  wp_id :: string
  wp_location :: "position option"

record marker =
  mk_pos :: position
  mk_label :: nat
  mk_id :: string                            \<comment> \<open>the waypoint the double click removes\<close>
  mk_map :: "nat option"                     \<comment> \<open>the map object it is on\<close>

abbreviation mk_shown :: "marker \<Rightarrow> bool" where
  "mk_shown mk \<equiv> mk_map mk \<noteq> None"

record nav_run =
  nr_centered :: bool
  nr_known :: "(string \<times> nat) list"         \<comment> \<open>\<open>knownWaypoints\<close>, by index of the marker\<close>
  nr_counter :: nat
  nr_markers :: "marker list"
  nr_robot :: "(position \<times> nat option) option"   \<comment> \<open>\<open>locationMarker\<close>: its position and its map\<close>

datatype nav_job = UpdateWaypoints nat | UpdateLocation nat

record nav_state =
  nv_mapInit :: bool
  nv_googleApiKey :: string
  nv_location :: string
  nv_res :: jsval
  nv_ready :: bool                           \<comment> \<open>\<open>mapReady\<close> is resolved\<close>
  nv_awaiting :: nat                         \<comment> \<open>runs of \<open>initNavigation\<close> that await it\<close>
  nv_runs :: "nav_run list"
  nv_maps :: "position option list"          \<comment> \<open>the map objects made so far, each with its centre\<close>
  nv_map :: "nat option"                     \<comment> \<open>the variable \<open>map\<close>\<close>
  nv_updateTimerId :: "nat option"
  nv_timers :: "(nat \<times> nav_job) list"
  nv_fresh :: nat
  nv_calls :: "nav_job list"

text \<open>The props, and what comes from libraries: the text of an error, the struct of a value, and whether the SDK has the request class.\<close>

record nav_env =
  ne_name :: string
  ne_resources :: "resource_name list option"
  ne_errText :: "service_error \<Rightarrow> string"
  ne_fromJavaScript :: "jsval \<Rightarrow> jsval throws"
  ne_runCommand :: bool

definition nav_init :: nav_state where
  "nav_init = \<lparr>nv_mapInit = False, nv_googleApiKey = [], nv_location = [], nv_res = Undefined, nv_ready = False,
     nv_awaiting = 0, nv_runs = [], nv_maps = [], nv_map = None, nv_updateTimerId = None, nv_timers = [], nv_fresh = 0, nv_calls = []\<rparr>"

section \<open>Requests\<close>

definition grpcCallback ::
  "nav_env \<Rightarrow> service_error + jsval option \<Rightarrow> bool \<Rightarrow> nav_state \<Rightarrow> nav_state \<times> effect list" where
  "grpcCallback env r stringify s =
     (case r of
        Inl e \<Rightarrow> (s, [ToastError (ne_errText env e)])
      | Inr resp \<Rightarrow>
          if stringify
          then (s\<lparr>nv_res := (case resp of None \<Rightarrow> Null | Some v \<Rightarrow> JSON_stringify [] v)\<rparr>, [])
          else (s, []))"

definition setNavigationMode :: "nav_env \<Rightarrow> string \<Rightarrow> effect list" where
  "setNavigationMode env mode =
     [Call (NavigationReq (SetMode (ne_name env)
        (if mode = ''manual'' then ModeManual else if mode = ''waypoint'' then ModeWaypoint else ModeUnspecified)))]"

definition setNavigationLocation :: "nav_env \<Rightarrow> nav_state \<Rightarrow> effect list" where
  "setNavigationLocation env s =
     (case js_split (CHR '','') (nv_location s) of
        latStr # lngStr # _ \<Rightarrow>
          (let lat = parseFloat latStr; lng = parseFloat lngStr
           in if \<not> ne_runCommand env then [Uncaught TypeError]
              else case filterResources (case ne_resources env of None \<Rightarrow> [] | Some rs \<Rightarrow> rs) ''rdk'' ''component'' ''gps'' of
                [] \<Rightarrow> [ToastError ''no gps device found'']
              | gps # _ \<Rightarrow>
                  (case ne_fromJavaScript env (Obj [(''latitude'', Num lat), (''longitude'', Num lng)]) of
                     Inl e \<Rightarrow> [Uncaught e]
                   | Inr args \<Rightarrow> [Call (GenericReq (RunCommand (ne_name env) (rn_name gps) ''set_location'' args))]))
      | _ \<Rightarrow> [])"

text \<open>A click on the map; the event may lack a position.\<close>

definition mapClick :: "nav_env \<Rightarrow> position option \<Rightarrow> effect list" where
  "mapClick env latLng =
     (case latLng of
        None \<Rightarrow> []
      | Some (lat, lng) \<Rightarrow> [Call (NavigationReq (AddWaypoint (ne_name env) lat lng))])"

section \<open>The waypoints of a map\<close>

definition waypoint_pos :: "waypoint \<Rightarrow> position" where
  "waypoint_pos w = (case wp_location w of None \<Rightarrow> (Fin 0, Fin 0) | Some p \<Rightarrow> p)"

definition posStr :: "position \<Rightarrow> string" where
  "posStr p = json_text [] [] (Obj [(''lat'', Num (fst p)), (''lng'', Num (snd p))])"

text \<open>The body of the loop over the answered waypoints; \<open>mp\<close> is what \<open>map\<close> holds and \<open>current\<close> is \<open>currentWaypoints\<close>.\<close>

definition place_waypoint :: "nat option \<Rightarrow> waypoint \<Rightarrow> nav_run \<times> (string \<times> nat) list \<Rightarrow> nav_run \<times> (string \<times> nat) list" where
  "place_waypoint mp w st =
     (case st of (m, current) \<Rightarrow>
        (let p = waypoint_pos w; k = posStr p
         in case map_of (nr_known m) k of
              Some i \<Rightarrow> (m, AList.update k i current)
            | None \<Rightarrow>
                (let c = nr_counter m + 1; i = length (nr_markers m)
                 in (m\<lparr>nr_counter := c,
                       nr_markers := nr_markers m @ [\<lparr>mk_pos = p, mk_label = c, mk_id = wp_id w, mk_map = mp\<rparr>],
                       nr_known := AList.update k i (nr_known m)\<rparr>, AList.update k i current))))"

definition drop_waypoint :: "string \<Rightarrow> nav_run \<Rightarrow> nav_run" where
  "drop_waypoint k m =
     (case map_of (nr_known m) k of
        None \<Rightarrow> m
      | Some i \<Rightarrow> m\<lparr>nr_markers := (nr_markers m)[i := (nr_markers m ! i)\<lparr>mk_map := None\<rparr>],
                    nr_known := AList.delete k (nr_known m)\<rparr>)"

definition show_waypoints :: "nat option \<Rightarrow> waypoint list \<Rightarrow> nav_run \<Rightarrow> nav_run" where
  "show_waypoints mp ws m =
     (let (m', current) = fold (place_waypoint mp) ws (m, []);
          waypointsToDelete = filter (\<lambda>k. map_of current k = None) (map fst (nr_known m'))
      in fold drop_waypoint waypointsToDelete m')"

section \<open>The loops\<close>

fun nav_request :: "nav_env \<Rightarrow> nav_job \<Rightarrow> request" where
  "nav_request env (UpdateWaypoints i) = NavigationReq (GetWaypoints (ne_name env))"
| "nav_request env (UpdateLocation i) = NavigationReq (GetLocation (ne_name env))"

definition nav_call :: "nav_env \<Rightarrow> nav_job \<Rightarrow> nav_state \<Rightarrow> nav_state \<times> effect list" where
  "nav_call env job s = (s\<lparr>nv_calls := nv_calls s @ [job]\<rparr>, [Call (nav_request env job)])"

text \<open>\<open>setTimeout\<close>; only the loop over the waypoints keeps the id.\<close>

fun keeps_timer :: "nav_job \<Rightarrow> bool" where
  "keeps_timer (UpdateWaypoints i) = True"
| "keeps_timer (UpdateLocation i) = False"

definition nav_later :: "nav_job \<Rightarrow> nav_state \<Rightarrow> nav_state \<times> effect list" where
  "nav_later job s =
     (s\<lparr>nv_timers := nv_timers s @ [(nv_fresh s, job)], nv_fresh := nv_fresh s + 1,
       nv_updateTimerId := (if keeps_timer job then Some (nv_fresh s) else nv_updateTimerId s)\<rparr>, [SetTimeout 1000])"

definition new_run :: nav_run where
  "new_run = \<lparr>nr_centered = False, nr_known = [], nr_counter = 0, nr_markers = [], nr_robot = None\<rparr>"

definition on_run :: "nat \<Rightarrow> (nav_run \<Rightarrow> nav_run) \<Rightarrow> nav_state \<Rightarrow> nav_state" where
  "on_run i f s = s\<lparr>nv_runs := (nv_runs s)[i := f (nv_runs s ! i)]\<rparr>"

text \<open>
  The answer to \<open>getLocation\<close>: the run centres the map \<open>map\<close> holds, once, and puts its own marker of
  the robot on it. A run exists only after \<open>map\<close> was assigned.
\<close>

definition setCenter :: "position \<Rightarrow> nav_state \<Rightarrow> nav_state" where
  "setCenter p s = (case nv_map s of None \<Rightarrow> s | Some m \<Rightarrow> s\<lparr>nv_maps := (nv_maps s)[m := Some p]\<rparr>)"

definition show_location :: "nat \<Rightarrow> position option \<Rightarrow> nav_state \<Rightarrow> nav_state" where
  "show_location i loc s =
     (let p = (case loc of None \<Rightarrow> (Fin 0, Fin 0) | Some p \<Rightarrow> p);
          s1 = (if nr_centered (nv_runs s ! i) then s
                else setCenter p (on_run i (\<lambda>r. r\<lparr>nr_centered := True\<rparr>) s))
      in on_run i (\<lambda>r. r\<lparr>nr_robot := Some (p, nv_map s1)\<rparr>) s1)"

definition updateWaypoints_done ::
  "nav_env \<Rightarrow> nat \<Rightarrow> service_error + waypoint list option \<Rightarrow> nav_state \<Rightarrow> nav_state \<times> effect list" where
  "updateWaypoints_done env i r s =
     (let (s1, os) = grpcCallback env (map_sum id (\<lambda>_. None) r) False s;
          s2 = (case r of
              Inl e \<Rightarrow> s1
            | Inr resp \<Rightarrow> on_run i (show_waypoints (nv_map s1) (case resp of None \<Rightarrow> [] | Some ws \<Rightarrow> ws)) s1);
          (s3, ps) = nav_later (UpdateWaypoints i) s2
      in (s3, os @ ps))"

definition updateLocation_done ::
  "nav_env \<Rightarrow> nat \<Rightarrow> service_error + position option \<Rightarrow> nav_state \<Rightarrow> nav_state \<times> effect list" where
  "updateLocation_done env i r s =
     (let (s1, os) = grpcCallback env (map_sum id (\<lambda>_. None) r) False s;
          s2 = (case r of Inl e \<Rightarrow> s1 | Inr loc \<Rightarrow> show_location i loc s1);
          (s3, ps) = nav_later (UpdateLocation i) s2
      in (s3, os @ ps))"

definition initNavigation :: "nav_state \<Rightarrow> nav_state" where
  "initNavigation s = s\<lparr>nv_awaiting := nv_awaiting s + 1\<rparr>"

text \<open>What follows the await: a new map object, which \<open>map\<close> holds from now on, and the start of both loops.\<close>

definition initNavigation_rest :: "nav_env \<Rightarrow> nav_state \<Rightarrow> nav_state \<times> effect list" where
  "initNavigation_rest env s =
     (let i = length (nv_runs s);
          s0 = s\<lparr>nv_awaiting := nv_awaiting s - 1, nv_maps := nv_maps s @ [None], nv_map := Some (length (nv_maps s)),
                 nv_runs := nv_runs s @ [new_run]\<rparr>;
          (s1, os) = nav_call env (UpdateWaypoints i) s0;
          (s2, ps) = nav_call env (UpdateLocation i) s1
      in (s2, os @ ps))"

text \<open>\<open>present\<close> says whether the page has the script element already.\<close>

definition loadMaps :: "bool \<Rightarrow> nav_state \<Rightarrow> nav_state \<times> effect list" where
  "loadMaps present s =
     (if present then (initNavigation s, [])
      else (s, [LoadScript (''https://maps.googleapis.com/maps/api/js?key='' @ nv_googleApiKey s @
                            ''&callback=googleMapsInit&libraries=&v=weekly'')]))"

definition initNavigationView :: "bool \<Rightarrow> nav_state \<Rightarrow> nav_state \<times> effect list" where
  "initNavigationView present s =
     (let (s', os) = loadMaps present (s\<lparr>nv_mapInit := True\<rparr>) in (initNavigation s', os))"

definition clear_timer :: "nat option \<Rightarrow> nav_state \<Rightarrow> nav_state" where
  "clear_timer i s = s\<lparr>nv_timers := filter (\<lambda>t. Some (fst t) \<noteq> i) (nv_timers s)\<rparr>"

section \<open>Events\<close>

datatype nav_event =
    NvKey string
  | NvGo bool
  | NvReady                                  \<comment> \<open>Google Maps calls \<open>googleMapsInit\<close>\<close>
  | NvResume                                 \<comment> \<open>a run of \<open>initNavigation\<close> goes on\<close>
  | NvMode string
  | NvLocation string
  | NvSetLocation
  | NvMapClick "position option"
  | NvMarkerClick nat nat
  | NvMarkerDblclick nat nat
  | NvAnswer "service_error + jsval option"  \<comment> \<open>to a request that passes \<open>grpcCallback\<close>\<close>
  | NvTimer nat
  | NvWaypoints nat "service_error + waypoint list option"
  | NvLocated nat "service_error + position option"
  | NvUnmounted

definition marker_at :: "nat \<Rightarrow> nat \<Rightarrow> nav_state \<Rightarrow> marker option" where
  "marker_at i j s =
     (if i < length (nv_runs s) \<and> j < length (nr_markers (nv_runs s ! i)) \<and> mk_shown (nr_markers (nv_runs s ! i) ! j)
      then Some (nr_markers (nv_runs s ! i) ! j) else None)"

fun nav_handle :: "nav_env \<Rightarrow> (nav_state, nav_event, effect) handler" where
  "nav_handle env s (NvKey k) = (s\<lparr>nv_googleApiKey := k\<rparr>, [])"
| "nav_handle env s (NvGo present) = initNavigationView present s"
| "nav_handle env s NvReady = (s\<lparr>nv_ready := True\<rparr>, [ConsoleLog ''google maps is ready''])"
| "nav_handle env s NvResume = (if nv_ready s \<and> nv_awaiting s > 0 then initNavigation_rest env s else (s, []))"
| "nav_handle env s (NvMode m) = (s, setNavigationMode env (toLowerCase m))"
| "nav_handle env s (NvLocation l) = (s\<lparr>nv_location := l\<rparr>, [])"
| "nav_handle env s NvSetLocation = (s, setNavigationLocation env s)"
| "nav_handle env s (NvMapClick p) = (s, if nv_maps s = [] then [] else mapClick env p)"
| "nav_handle env s (NvMarkerClick i j) =
     (s, case marker_at i j s of None \<Rightarrow> [] | Some mk \<Rightarrow> [ConsoleLog (''clicked on marker '' @ posStr (mk_pos mk))])"
| "nav_handle env s (NvMarkerDblclick i j) =
     (s, case marker_at i j s of None \<Rightarrow> [] | Some mk \<Rightarrow> [Call (NavigationReq (RemoveWaypoint (ne_name env) (mk_id mk)))])"
| "nav_handle env s (NvAnswer r) = grpcCallback env r True s"
| "nav_handle env s (NvTimer t) =
     (case map_of (nv_timers s) t of
        None \<Rightarrow> (s, [])
      | Some job \<Rightarrow> nav_call env job (clear_timer (Some t) s))"
| "nav_handle env s (NvWaypoints i r) =
     (if UpdateWaypoints i \<in> set (nv_calls s)
      then updateWaypoints_done env i r (s\<lparr>nv_calls := remove1 (UpdateWaypoints i) (nv_calls s)\<rparr>) else (s, []))"
| "nav_handle env s (NvLocated i r) =
     (if UpdateLocation i \<in> set (nv_calls s)
      then updateLocation_done env i r (s\<lparr>nv_calls := remove1 (UpdateLocation i) (nv_calls s)\<rparr>) else (s, []))"
| "nav_handle env s NvUnmounted = (clear_timer (nv_updateTimerId s) s, [])"


section \<open>Markers and waypoints\<close>

text \<open>
  The markers on the map are exactly the known waypoints, one per position text, and the labels
  count the markers ever made.
\<close>

definition run_ok :: "nav_run \<Rightarrow> bool" where
  "run_ok m \<longleftrightarrow>
     nr_counter m = length (nr_markers m) \<and>
     (\<forall>i < length (nr_markers m). mk_label (nr_markers m ! i) = Suc i) \<and>
     (\<forall>k i. map_of (nr_known m) k = Some i \<longrightarrow>
        i < length (nr_markers m) \<and> mk_shown (nr_markers m ! i) \<and> posStr (mk_pos (nr_markers m ! i)) = k) \<and>
     (\<forall>i < length (nr_markers m). mk_shown (nr_markers m ! i) \<longrightarrow> map_of (nr_known m) (posStr (mk_pos (nr_markers m ! i))) = Some i)"

lemma run_okI:
  assumes "nr_counter m = length (nr_markers m)" "\<And>i. i < length (nr_markers m) \<Longrightarrow> mk_label (nr_markers m ! i) = Suc i"
    "\<And>k i. map_of (nr_known m) k = Some i \<Longrightarrow> i < length (nr_markers m) \<and> mk_shown (nr_markers m ! i) \<and> posStr (mk_pos (nr_markers m ! i)) = k"
    "\<And>i. i < length (nr_markers m) \<Longrightarrow> mk_shown (nr_markers m ! i) \<Longrightarrow> map_of (nr_known m) (posStr (mk_pos (nr_markers m ! i))) = Some i"
  shows "run_ok m"
  using assms by (simp add: run_ok_def)

lemma run_okD:
  assumes "run_ok m"
  shows "nr_counter m = length (nr_markers m)" "i < length (nr_markers m) \<Longrightarrow> mk_label (nr_markers m ! i) = Suc i"
    "map_of (nr_known m) k = Some i \<Longrightarrow> i < length (nr_markers m) \<and> mk_shown (nr_markers m ! i) \<and> posStr (mk_pos (nr_markers m ! i)) = k"
    "i < length (nr_markers m) \<Longrightarrow> mk_shown (nr_markers m ! i) \<Longrightarrow> map_of (nr_known m) (posStr (mk_pos (nr_markers m ! i))) = Some i"
  using assms by (simp_all add: run_ok_def)

lemma run_ok_new [simp]: "run_ok new_run"
  by (simp add: run_ok_def new_run_def)

abbreviation known_at :: "nav_run \<Rightarrow> string \<Rightarrow> nat option" where
  "known_at m \<equiv> map_of (nr_known m)"

lemma place_waypoint_ok:
  assumes "run_ok m"
  shows "run_ok (fst (place_waypoint (Some mp) w (m, current)))"
proof (cases "known_at m (posStr (waypoint_pos w))")
  case None
  let ?m = "fst (place_waypoint (Some mp) w (m, current))"
  have new: "nr_markers ?m = nr_markers m @ [\<lparr>mk_pos = waypoint_pos w, mk_label = nr_counter m + 1, mk_id = wp_id w, mk_map = Some mp\<rparr>]"
    "nr_counter ?m = nr_counter m + 1" "known_at ?m = (known_at m)(posStr (waypoint_pos w) \<mapsto> length (nr_markers m))"
    using None by (simp_all add: place_waypoint_def Let_def dict_simps)
  note ok = run_okD [OF assms]
  show ?thesis
  proof (rule run_okI)
    fix i assume "i < length (nr_markers ?m)" "mk_shown (nr_markers ?m ! i)"
    then show "known_at ?m (posStr (mk_pos (nr_markers ?m ! i))) = Some i"
      using ok(4) [of i] None by (auto simp: new nth_append less_Suc_eq)
  qed (use ok in \<open>auto simp: new nth_append less_Suc_eq split: if_splits\<close>)
qed (use assms in \<open>simp add: place_waypoint_def Let_def\<close>)

text \<open>Placing keeps what is known and records the position as current.\<close>

lemma place_waypoint_known:
  assumes "place_waypoint (Some mp) w (m, current) = (m', current')" "\<And>k i. map_of current k = Some i \<Longrightarrow> known_at m k = Some i"
  shows "known_at m k = Some i \<Longrightarrow> known_at m' k = Some i"
    and "map_of current' k = Some i \<Longrightarrow> known_at m' k = Some i"
    and "dom (map_of current') = insert (posStr (waypoint_pos w)) (dom (map_of current))"
    and "dom (known_at m') = insert (posStr (waypoint_pos w)) (dom (known_at m))"
  using assms by (auto simp: place_waypoint_def Let_def dict_simps split: option.splits if_splits)

lemma place_waypoints:
  assumes "fold (place_waypoint (Some mp)) ws (m, current) = (m', current')" "run_ok m"
    "\<And>k i. map_of current k = Some i \<Longrightarrow> known_at m k = Some i"
  shows "run_ok m' \<and> (\<forall>k i. known_at m k = Some i \<longrightarrow> known_at m' k = Some i) \<and>
    dom (map_of current') = dom (map_of current) \<union> (posStr \<circ> waypoint_pos) ` set ws \<and>
    dom (known_at m') = dom (known_at m) \<union> (posStr \<circ> waypoint_pos) ` set ws"
  using assms
proof (induction ws arbitrary: m current)
  case (Cons w ws)
  obtain m1 c1 where st: "place_waypoint (Some mp) w (m, current) = (m1, c1)" by fastforce
  note step = place_waypoint_known [OF st Cons.prems(3)]
  have "run_ok m1" using place_waypoint_ok [OF Cons.prems(2), of mp w current] st by simp
  from Cons.IH [OF _ this step(2)] Cons.prems(1) st
  have ih: "run_ok m' \<and> (\<forall>k i. known_at m1 k = Some i \<longrightarrow> known_at m' k = Some i) \<and>
    dom (map_of current') = dom (map_of c1) \<union> (posStr \<circ> waypoint_pos) ` set ws \<and>
    dom (known_at m') = dom (known_at m1) \<union> (posStr \<circ> waypoint_pos) ` set ws" by simp
  then show ?case using step(1) by (simp add: step(3,4))
qed simp

lemma drop_waypoint_known: "known_at (drop_waypoint k m) = (known_at m)(k := None)"
  by (auto simp: drop_waypoint_def dict_simps split: option.splits)

lemma drop_waypoint_ok:
  assumes "run_ok m"
  shows "run_ok (drop_waypoint k m)"
proof (cases "known_at m k")
  case (Some i)
  let ?m = "drop_waypoint k m"
  note ok = run_okD [OF assms]
  have new: "nr_markers ?m = (nr_markers m)[i := (nr_markers m ! i)\<lparr>mk_map := None\<rparr>]" "nr_counter ?m = nr_counter m"
    using Some by (simp_all add: drop_waypoint_def)
  have i: "i < length (nr_markers m)" "posStr (mk_pos (nr_markers m ! i)) = k" using ok(3) [OF Some] by auto
  show ?thesis
  proof (rule run_okI)
    fix j assume "j < length (nr_markers ?m)" "mk_shown (nr_markers ?m ! j)"
    then have "j < length (nr_markers m)" "j \<noteq> i" "mk_shown (nr_markers m ! j)"
      by (cases "j = i"; simp add: new i(1))+
    with ok(4) [of j] have "j \<noteq> i" "known_at m (posStr (mk_pos (nr_markers m ! j))) = Some j" by simp_all
    then show "known_at ?m (posStr (mk_pos (nr_markers ?m ! j))) = Some j" using Some by (auto simp: drop_waypoint_known new)
  next
    fix k' j assume "known_at ?m k' = Some j"
    then have "k' \<noteq> k" "known_at m k' = Some j" by (auto simp: drop_waypoint_known split: if_splits)
    then show "j < length (nr_markers ?m) \<and> mk_shown (nr_markers ?m ! j) \<and> posStr (mk_pos (nr_markers ?m ! j)) = k'"
      using ok(3) [of k' j] i by (auto simp: new nth_list_update)
  qed (use ok i in \<open>auto simp: new nth_list_update\<close>)
qed (use assms in \<open>simp add: drop_waypoint_def\<close>)

lemma drop_waypoints:
  "run_ok m \<Longrightarrow> run_ok (fold drop_waypoint ks m) \<and> known_at (fold drop_waypoint ks m) = (\<lambda>k. if k \<in> set ks then None else known_at m k)"
  by (induction ks arbitrary: m) (auto simp: drop_waypoint_ok drop_waypoint_known)

text \<open>The abstract view of a map: the position texts it shows.\<close>

definition shown_at :: "nav_run \<Rightarrow> string set" where
  "shown_at m = {posStr (mk_pos mk) | mk. mk \<in> set (nr_markers m) \<and> mk_shown mk}"

lemma shown_at_known: "run_ok m \<Longrightarrow> shown_at m = dom (known_at m)"
  unfolding shown_at_def using run_okD(3,4) [of m] by (fastforce simp: in_set_conv_nth)

lemma show_waypoints_correct:
  assumes "run_ok m"
  shows "run_ok (show_waypoints (Some mp) ws m)" "shown_at (show_waypoints (Some mp) ws m) = (posStr \<circ> waypoint_pos) ` set ws"
    "known_at m k = Some i \<Longrightarrow> k \<in> (posStr \<circ> waypoint_pos) ` set ws \<Longrightarrow> known_at (show_waypoints (Some mp) ws m) k = Some i"
proof -
  obtain m' cur where st: "fold (place_waypoint (Some mp)) ws (m, []) = (m', cur)" by fastforce
  define ks where "ks = filter (\<lambda>k. map_of cur k = None) (map fst (nr_known m'))"
  have sw: "show_waypoints (Some mp) ws m = fold drop_waypoint ks m'" by (simp add: show_waypoints_def st ks_def)
  have p: "run_ok m'" "\<And>k i. known_at m k = Some i \<Longrightarrow> known_at m' k = Some i"
    "dom (map_of cur) = (posStr \<circ> waypoint_pos) ` set ws" "dom (known_at m') = dom (known_at m) \<union> (posStr \<circ> waypoint_pos) ` set ws"
    using place_waypoints [OF st assms] by auto
  note d = drop_waypoints [OF p(1), of ks]
  have ks: "k \<in> set ks \<longleftrightarrow> k \<in> dom (known_at m') \<and> k \<notin> (posStr \<circ> waypoint_pos) ` set ws" for k
    unfolding ks_def p(3) [symmetric] by (simp add: dom_map_of_conv_image_fst map_of_eq_None_iff conj_commute)
  show "run_ok (show_waypoints (Some mp) ws m)" using d sw by simp
  from shown_at_known [OF this] have "shown_at (show_waypoints (Some mp) ws m) = dom (known_at m') - set ks"
    using d unfolding sw by (auto split: if_splits)
  then show "shown_at (show_waypoints (Some mp) ws m) = (posStr \<circ> waypoint_pos) ` set ws" using ks p(4) by blast
  show "known_at m k = Some i \<Longrightarrow> k \<in> (posStr \<circ> waypoint_pos) ` set ws \<Longrightarrow> known_at (show_waypoints (Some mp) ws m) k = Some i"
    using d ks p(2) sw by auto
qed

text \<open>New markers are put on the map given, and a marker that stays is left as it is.\<close>

lemma place_markers:
  assumes "fold (place_waypoint mp) ws (m, current) = (m', current')"
  shows "\<exists>new. nr_markers m' = nr_markers m @ new \<and> (\<forall>mk \<in> set new. mk_map mk = mp \<and> posStr (mk_pos mk) \<in> (posStr \<circ> waypoint_pos) ` set ws)"
  using assms
proof (induction ws arbitrary: m current)
  case (Cons w ws)
  obtain m1 c1 where st: "place_waypoint mp w (m, current) = (m1, c1)" by fastforce
  obtain new where new: "nr_markers m' = nr_markers m1 @ new"
    "\<forall>mk \<in> set new. mk_map mk = mp \<and> posStr (mk_pos mk) \<in> (posStr \<circ> waypoint_pos) ` set ws"
    using Cons.IH [of m1 c1] Cons.prems st by auto
  have "nr_markers m1 = nr_markers m \<or> nr_markers m1 = nr_markers m @ [\<lparr>mk_pos = waypoint_pos w, mk_label = nr_counter m + 1, mk_id = wp_id w, mk_map = mp\<rparr>]"
    using st by (auto simp: place_waypoint_def Let_def split: option.splits)
  then show ?case using new by (elim disjE) auto
qed simp

lemma drop_marker_kept:
  assumes "run_ok m" "known_at m k = Some j" "k \<notin> set ks"
  shows "nr_markers (fold drop_waypoint ks m) ! j = nr_markers m ! j"
  using assms
proof (induction ks arbitrary: m)
  case (Cons k' ks)
  have "known_at (drop_waypoint k' m) k = Some j" using Cons.prems by (simp add: drop_waypoint_known)
  moreover have "nr_markers (drop_waypoint k' m) ! j = nr_markers m ! j"
  proof (cases "known_at m k'")
    case (Some i)
    then have "i \<noteq> j" using run_okD(3) [OF Cons.prems(1) Some] run_okD(3) [OF Cons.prems(1,2)] Cons.prems(3) by auto
    then show ?thesis using Some by (simp add: drop_waypoint_def)
  qed (simp add: drop_waypoint_def)
  ultimately show ?case using Cons.IH [of "drop_waypoint k' m"] Cons.prems by (simp add: drop_waypoint_ok)
qed simp

lemma drop_markers_maps:
  "mk \<in> set (nr_markers (fold drop_waypoint ks m)) \<Longrightarrow> mk_map mk = Some x \<Longrightarrow> mk \<in> set (nr_markers m)"
proof (induction ks arbitrary: m)
  case (Cons k ks)
  then have "mk \<in> set (nr_markers (drop_waypoint k m))" by simp
  then show ?case using Cons.prems(2) set_update_subset_insert
    by (fastforce simp: drop_waypoint_def split: option.splits dest!: subsetD [OF set_update_subset_insert])
qed simp

lemma show_waypoints_maps:
  assumes "mk \<in> set (nr_markers (show_waypoints mp ws m))" "mk_map mk = Some x"
  shows "mk \<in> set (nr_markers m) \<or> mk_map mk = mp"
proof -
  obtain m' cur where st: "fold (place_waypoint mp) ws (m, []) = (m', cur)" by fastforce
  have "mk \<in> set (nr_markers m')" using assms drop_markers_maps by (auto simp: show_waypoints_def st)
  then show ?thesis using place_markers [OF st] by auto
qed

lemma length_drop_waypoint [simp]: "length (nr_markers (fold drop_waypoint ks m)) = length (nr_markers m)"
  by (induction ks arbitrary: m) (simp_all add: drop_waypoint_def split: option.splits)

lemma show_waypoints_markers:
  assumes ok: "run_ok m"
  shows "known_at m k = Some j \<Longrightarrow> k \<in> (posStr \<circ> waypoint_pos) ` set ws \<Longrightarrow>
      nr_markers (show_waypoints (Some mp) ws m) ! j = nr_markers m ! j"
    and "length (nr_markers m) \<le> j \<Longrightarrow> j < length (nr_markers (show_waypoints (Some mp) ws m)) \<Longrightarrow>
      mk_map (nr_markers (show_waypoints (Some mp) ws m) ! j) = Some mp"
proof -
  obtain m' cur where st: "fold (place_waypoint (Some mp)) ws (m, []) = (m', cur)" by fastforce
  define ks where "ks = filter (\<lambda>k. map_of cur k = None) (map fst (nr_known m'))"
  have sw: "show_waypoints (Some mp) ws m = fold drop_waypoint ks m'" by (simp add: show_waypoints_def st ks_def)
  have p: "run_ok m'" "\<And>k i. known_at m k = Some i \<Longrightarrow> known_at m' k = Some i"
    "dom (map_of cur) = (posStr \<circ> waypoint_pos) ` set ws"
    using place_waypoints [OF st ok] by auto
  have ks: "k \<in> (posStr \<circ> waypoint_pos) ` set ws \<Longrightarrow> k \<notin> set ks" for k
    unfolding ks_def p(3) [symmetric] by auto
  obtain new where new: "nr_markers m' = nr_markers m @ new"
    "\<forall>mk \<in> set new. mk_map mk = Some mp \<and> posStr (mk_pos mk) \<in> (posStr \<circ> waypoint_pos) ` set ws"
    using place_markers [OF st] by blast
  show "nr_markers (show_waypoints (Some mp) ws m) ! j = nr_markers m ! j"
    if "known_at m k = Some j" "k \<in> (posStr \<circ> waypoint_pos) ` set ws"
    using drop_marker_kept [OF p(1) p(2) [OF that(1)] ks [OF that(2)]] run_okD(3) [OF ok that(1)]
    by (simp add: sw new(1) nth_append)
  assume j: "length (nr_markers m) \<le> j" "j < length (nr_markers (show_waypoints (Some mp) ws m))"
  then have "nr_markers m' ! j \<in> set new" by (simp add: sw new(1) nth_append)
  then have mk: "mk_map (nr_markers m' ! j) = Some mp" "posStr (mk_pos (nr_markers m' ! j)) \<notin> set ks"
    using new(2) ks by blast+
  have "known_at m' (posStr (mk_pos (nr_markers m' ! j))) = Some j"
    using run_okD(4) [OF p(1), of j] j mk(1) by (simp add: sw)
  from drop_marker_kept [OF p(1) this mk(2)] mk(1) show "mk_map (nr_markers (show_waypoints (Some mp) ws m) ! j) = Some mp"
    by (simp add: sw)
qed

lemma distinct_singleton_set: "distinct xs \<Longrightarrow> set xs = {x} \<Longrightarrow> xs = [x]"
  by (cases xs; cases "tl xs") auto

lemma shown_distinct: "run_ok m \<Longrightarrow> distinct (map (posStr \<circ> mk_pos) (filter mk_shown (nr_markers m)))"
proof -
  assume ok: "run_ok m"
  have d: "i = j" if "i < length (nr_markers m)" "j < length (nr_markers m)" "mk_shown (nr_markers m ! i)" "mk_shown (nr_markers m ! j)"
    "posStr (mk_pos (nr_markers m ! i)) = posStr (mk_pos (nr_markers m ! j))" for i j
    using run_okD(4) [OF ok that(1,3)] run_okD(4) [OF ok that(2,4)] unfolding that(5) by simp
  show ?thesis by (rule distinct_map_filter_nth) (rule d, simp_all)
qed

section \<open>The loops of the panel\<close>

text \<open>The loops under way, as a timer or an unanswered call.\<close>

definition nav_jobs :: "nav_state \<Rightarrow> nav_job multiset" where
  "nav_jobs s = mset (nv_calls s) + mset (map snd (nv_timers s))"

definition timers_ok :: "nav_state \<Rightarrow> bool" where
  "timers_ok s \<longleftrightarrow> distinct (map fst (nv_timers s)) \<and> (\<forall>t \<in> set (map fst (nv_timers s)). t < nv_fresh s) \<and>
     (\<forall>t job. nv_updateTimerId s = Some t \<longrightarrow> t < nv_fresh s \<and> ((t, job) \<in> set (nv_timers s) \<longrightarrow> keeps_timer job))"

definition loops_ok :: "nav_state \<Rightarrow> bool" where
  "loops_ok s \<longleftrightarrow>
     (\<forall>i. count (nav_jobs s) (UpdateLocation i) = (if i < length (nv_runs s) then 1 else 0)) \<and>
     (\<forall>i. count (nav_jobs s) (UpdateWaypoints i) \<le> count (nav_jobs s) (UpdateLocation i))"

text \<open>Each run has made one map object, \<open>map\<close> holds the last of them, and markers are on existing ones.\<close>

definition maps_ok :: "nav_state \<Rightarrow> bool" where
  "maps_ok s \<longleftrightarrow> length (nv_maps s) = length (nv_runs s) \<and>
     nv_map s = (if nv_runs s = [] then None else Some (length (nv_runs s) - 1)) \<and>
     (\<forall>r \<in> set (nv_runs s). \<forall>mk \<in> set (nr_markers r). \<forall>m. mk_map mk = Some m \<longrightarrow> m < length (nv_runs s))"

definition nav_inv :: "nav_state \<Rightarrow> bool" where
  "nav_inv s \<longleftrightarrow> list_all run_ok (nv_runs s) \<and> maps_ok s \<and> timers_ok s \<and> loops_ok s"

lemma clear_timer_jobs:
  "distinct (map fst ts) \<Longrightarrow> map_of ts t = Some job \<Longrightarrow>
     add_mset job (mset (map snd (filter (\<lambda>x. Some (fst x) \<noteq> Some t) ts))) = mset (map snd ts)"
proof (induction ts)
  case (Cons x ts)
  then show ?case
  proof (cases "fst x = t")
    case True
    then have "filter (\<lambda>x. fst x \<noteq> t) ts = ts" using Cons.prems(1) by (auto simp: filter_id_conv rev_image_eqI)
    then show ?thesis using True Cons.prems(2) by simp
  qed (use Cons in \<open>auto split: if_splits\<close>)
qed simp

lemma clear_timer_waypoints:
  assumes "\<forall>job. (t, job) \<in> set ts \<longrightarrow> keeps_timer job"
  shows "count (mset (map snd (filter (\<lambda>x. Some (fst x) \<noteq> Some t) ts))) (UpdateLocation i) = count (mset (map snd ts)) (UpdateLocation i)"
    "count (mset (map snd (filter (\<lambda>x. Some (fst x) \<noteq> Some t) ts))) (UpdateWaypoints i) \<le> count (mset (map snd ts)) (UpdateWaypoints i)"
  using assms by (induction ts) auto

lemma grpcCallback_keeps:
  "nv_runs (fst (grpcCallback env r b s)) = nv_runs s" "nv_timers (fst (grpcCallback env r b s)) = nv_timers s"
  "nv_fresh (fst (grpcCallback env r b s)) = nv_fresh s" "nv_calls (fst (grpcCallback env r b s)) = nv_calls s"
  "nv_updateTimerId (fst (grpcCallback env r b s)) = nv_updateTimerId s" "nv_awaiting (fst (grpcCallback env r b s)) = nv_awaiting s"
  "nv_ready (fst (grpcCallback env r b s)) = nv_ready s" "nv_maps (fst (grpcCallback env r b s)) = nv_maps s"
  "nv_map (fst (grpcCallback env r b s)) = nv_map s"
  by (simp_all add: grpcCallback_def split: sum.splits)

lemma loops_okD:
  assumes "loops_ok s"
  shows "count (nav_jobs s) (UpdateLocation i) = (if i < length (nv_runs s) then 1 else 0)"
    "count (nav_jobs s) (UpdateWaypoints i) \<le> count (nav_jobs s) (UpdateLocation i)"
  using assms unfolding loops_ok_def by blast+

lemma loops_okI:
  assumes "\<And>i. count (nav_jobs s) (UpdateLocation i) = (if i < length (nv_runs s) then 1 else 0)"
    "\<And>i. count (nav_jobs s) (UpdateWaypoints i) \<le> count (nav_jobs s) (UpdateLocation i)"
  shows "loops_ok s"
  using assms unfolding loops_ok_def by blast

lemma loops_ok_cong: "nav_jobs t = nav_jobs s \<Longrightarrow> length (nv_runs t) = length (nv_runs s) \<Longrightarrow> loops_ok t = loops_ok s"
  by (simp only: loops_ok_def)

lemma nav_inv_cong:
  "nv_runs t = nv_runs s \<Longrightarrow> nv_maps t = nv_maps s \<Longrightarrow> nv_map t = nv_map s \<Longrightarrow> nv_timers t = nv_timers s \<Longrightarrow> nv_fresh t = nv_fresh s \<Longrightarrow> nv_calls t = nv_calls s \<Longrightarrow>
     nv_updateTimerId t = nv_updateTimerId s \<Longrightarrow> nav_inv t = nav_inv s"
  by (simp only: nav_inv_def maps_ok_def timers_ok_def loops_ok_def nav_jobs_def)

lemmas nav_fields = nav_inv_def maps_ok_def timers_ok_def loops_ok_def nav_jobs_def

text \<open>An answer puts its loop back on a timer.\<close>

lemma nav_later_inv:
  assumes "nav_inv s" "job \<in> set (nv_calls s)" "list_all run_ok (nv_runs t)" "maps_ok t" "length (nv_runs t) = length (nv_runs s)"
    and t: "nv_calls t = remove1 job (nv_calls s)" "nv_timers t = nv_timers s" "nv_fresh t = nv_fresh s"
      "nv_updateTimerId t = nv_updateTimerId s"
  shows "nav_inv (fst (nav_later job t))"
proof -
  have "nav_jobs (fst (nav_later job t)) = nav_jobs s" using assms(2) t by (simp add: nav_jobs_def nav_later_def)
  moreover have "timers_ok (fst (nav_later job t))"
    using assms(1) t by (cases job) (fastforce simp: nav_inv_def timers_ok_def nav_later_def)+
  moreover have "maps_ok (fst (nav_later job t))" using assms(4) by (simp add: maps_ok_def nav_later_def)
  ultimately show ?thesis using assms t loops_ok_cong [of "fst (nav_later job t)" s] by (simp add: nav_inv_def nav_later_def)
qed

lemma loops_bound: "nav_inv s \<Longrightarrow> UpdateWaypoints i \<in> set (nv_calls s) \<Longrightarrow> i < length (nv_runs s)"
  "nav_inv s \<Longrightarrow> UpdateLocation i \<in> set (nv_calls s) \<Longrightarrow> i < length (nv_runs s)"
proof -
  assume inv: "nav_inv s"
  have c: "job \<in> set (nv_calls s) \<Longrightarrow> 0 < count (nav_jobs s) job" for job by (simp add: nav_jobs_def count_greater_zero_iff)
  show "UpdateWaypoints i \<in> set (nv_calls s) \<Longrightarrow> i < length (nv_runs s)"
    "UpdateLocation i \<in> set (nv_calls s) \<Longrightarrow> i < length (nv_runs s)"
    using c [of "UpdateWaypoints i"] c [of "UpdateLocation i"] loops_okD [of s i] inv
    by (auto simp: nav_inv_def count_eq_zero_iff split: if_splits)
qed


text \<open>Starting a loop adds it; a timer that fires turns into a call.\<close>

lemma nav_inv_rest:
  assumes "nav_inv s"
  shows "nav_inv (fst (initNavigation_rest env s))"
proof -
  let ?t = "fst (initNavigation_rest env s)"
  have t: "nav_jobs ?t = add_mset (UpdateLocation (length (nv_runs s))) (add_mset (UpdateWaypoints (length (nv_runs s))) (nav_jobs s))"
    "nv_runs ?t = nv_runs s @ [new_run]" "timers_ok ?t = timers_ok s"
    by (simp_all add: initNavigation_rest_def nav_call_def nav_jobs_def timers_ok_def Let_def)
  have "maps_ok ?t" using assms
    by (fastforce simp: nav_inv_def maps_ok_def initNavigation_rest_def nav_call_def new_run_def Let_def)
  have l: "loops_ok s" using assms by (simp add: nav_inv_def)
  have "loops_ok ?t"
  proof (rule loops_okI)
    fix i
    show "count (nav_jobs ?t) (UpdateLocation i) = (if i < length (nv_runs ?t) then 1 else 0)"
      using loops_okD(1) [OF l, of i] by (auto simp: t less_Suc_eq)
    show "count (nav_jobs ?t) (UpdateWaypoints i) \<le> count (nav_jobs ?t) (UpdateLocation i)"
      using loops_okD(2) [OF l, of i] by (simp add: t)
  qed
  then show ?thesis using assms \<open>maps_ok ?t\<close> by (simp add: nav_inv_def t)
qed

lemma nav_inv_timer:
  assumes inv: "nav_inv s" and t: "map_of (nv_timers s) t = Some job"
  shows "nav_inv (fst (nav_call env job (clear_timer (Some t) s)))"
proof -
  let ?u = "fst (nav_call env job (clear_timer (Some t) s))"
  have "distinct (map fst (nv_timers s))" using inv by (simp add: nav_inv_def timers_ok_def)
  from clear_timer_jobs [OF this t] have "nav_jobs ?u = nav_jobs s"
    by (simp add: nav_jobs_def nav_call_def clear_timer_def)
  moreover have "timers_ok ?u" using inv by (auto simp: nav_inv_def timers_ok_def nav_call_def clear_timer_def distinct_map_filter)
  ultimately show ?thesis using inv loops_ok_cong [of ?u s]
    by (simp add: nav_inv_def maps_ok_def nav_call_def clear_timer_def)
qed

lemma nav_inv_unmount:
  assumes inv: "nav_inv s"
  shows "nav_inv (clear_timer (nv_updateTimerId s) s)"
proof (cases "nv_updateTimerId s")
  case (Some t)
  then have k: "\<forall>job. (t, job) \<in> set (nv_timers s) \<longrightarrow> keeps_timer job" using inv by (auto simp: nav_inv_def timers_ok_def)
  have l: "loops_ok s" using inv by (simp add: nav_inv_def)
  have "loops_ok (clear_timer (Some t) s)"
  proof (rule loops_okI)
    fix i
    show "count (nav_jobs (clear_timer (Some t) s)) (UpdateLocation i) = (if i < length (nv_runs (clear_timer (Some t) s)) then 1 else 0)"
      using loops_okD(1) [OF l, of i] clear_timer_waypoints(1) [OF k, of i] by (simp add: nav_jobs_def clear_timer_def)
    show "count (nav_jobs (clear_timer (Some t) s)) (UpdateWaypoints i) \<le> count (nav_jobs (clear_timer (Some t) s)) (UpdateLocation i)"
      using loops_okD(2) [OF l, of i] clear_timer_waypoints [OF k, of i] by (simp add: nav_jobs_def clear_timer_def)
  qed
  moreover have "timers_ok (clear_timer (Some t) s)" using inv by (auto simp: nav_inv_def timers_ok_def clear_timer_def distinct_map_filter)
  ultimately show ?thesis using inv Some by (simp add: nav_inv_def maps_ok_def clear_timer_def)
qed (use inv in \<open>simp add: clear_timer_def\<close>)

lemma on_run_simps [simp]:
  "nv_calls (on_run i f s) = nv_calls s" "nv_timers (on_run i f s) = nv_timers s" "nv_fresh (on_run i f s) = nv_fresh s"
  "nv_updateTimerId (on_run i f s) = nv_updateTimerId s" "nv_runs (on_run i f s) = (nv_runs s)[i := f (nv_runs s ! i)]"
  "nv_awaiting (on_run i f s) = nv_awaiting s" "nv_ready (on_run i f s) = nv_ready s"
  "nv_maps (on_run i f s) = nv_maps s" "nv_map (on_run i f s) = nv_map s"
  by (simp_all add: on_run_def)

lemma setCenter_simps [simp]:
  "nv_calls (setCenter p s) = nv_calls s" "nv_timers (setCenter p s) = nv_timers s" "nv_fresh (setCenter p s) = nv_fresh s"
  "nv_updateTimerId (setCenter p s) = nv_updateTimerId s" "nv_runs (setCenter p s) = nv_runs s"
  "nv_awaiting (setCenter p s) = nv_awaiting s" "nv_ready (setCenter p s) = nv_ready s"
  "nv_map (setCenter p s) = nv_map s" "length (nv_maps (setCenter p s)) = length (nv_maps s)"
  by (simp_all add: setCenter_def split: option.splits)

lemma show_location_simps [simp]:
  "nv_calls (show_location i l s) = nv_calls s" "nv_timers (show_location i l s) = nv_timers s"
  "nv_fresh (show_location i l s) = nv_fresh s" "nv_updateTimerId (show_location i l s) = nv_updateTimerId s"
  "nv_awaiting (show_location i l s) = nv_awaiting s" "nv_ready (show_location i l s) = nv_ready s"
  "length (nv_runs (show_location i l s)) = length (nv_runs s)"
  by (simp_all add: show_location_def Let_def)

lemma runs_ok_update: "list_all run_ok ms \<Longrightarrow> (\<And>m. run_ok m \<Longrightarrow> run_ok (f m)) \<Longrightarrow> list_all run_ok (ms[i := f (ms ! i)])"
  by (cases "i < length ms") (auto simp: list_all_length nth_list_update)

lemma maps_ok_run:
  assumes "maps_ok s" "\<And>mk m. mk \<in> set (nr_markers (f (nv_runs s ! i))) \<Longrightarrow> mk_map mk = Some m \<Longrightarrow> m < length (nv_runs s)"
  shows "maps_ok (on_run i f s)"
proof -
  have "\<forall>r \<in> set ((nv_runs s)[i := f (nv_runs s ! i)]). \<forall>mk \<in> set (nr_markers r). \<forall>m. mk_map mk = Some m \<longrightarrow> m < length (nv_runs s)"
    using assms set_update_subset_insert [of "nv_runs s" i "f (nv_runs s ! i)"] unfolding maps_ok_def by blast
  then show ?thesis using assms(1) by (simp add: maps_ok_def)
qed

lemma maps_ok_setCenter [simp]: "maps_ok (setCenter p s) = maps_ok s"
  by (auto simp: setCenter_def maps_ok_def split: option.splits)

lemma location_keeps:
  assumes "list_all run_ok (nv_runs s)" "maps_ok s"
  shows "list_all run_ok (nv_runs (show_location i loc s))" "maps_ok (show_location i loc s)"
proof -
  define s1 where "s1 = (if nr_centered (nv_runs s ! i) then s
      else setCenter (case loc of None \<Rightarrow> (Fin 0, Fin 0) | Some p \<Rightarrow> p) (on_run i (\<lambda>r. r\<lparr>nr_centered := True\<rparr>) s))"
  have frame: "run_ok m \<Longrightarrow> run_ok (m\<lparr>nr_centered := b\<rparr>)" "run_ok m \<Longrightarrow> run_ok (m\<lparr>nr_robot := x\<rparr>)" for m b x
    by (simp_all add: run_ok_def)
  have mk: "\<forall>mk \<in> set (nr_markers (nv_runs t ! i)). \<forall>m. mk_map mk = Some m \<longrightarrow> m < length (nv_runs t)"
    if "maps_ok t" "i < length (nv_runs t)" for t
    using that unfolding maps_ok_def by (meson nth_mem)
  have ok1: "list_all run_ok (nv_runs s1)" using assms(1) frame(1) by (auto simp: s1_def intro: runs_ok_update)
  have m1: "maps_ok s1"
  proof (cases "i < length (nv_runs s)")
    case True
    have "maps_ok (on_run i (\<lambda>r. r\<lparr>nr_centered := True\<rparr>) s)"
      by (rule maps_ok_run [OF assms(2)]) (use mk [OF assms(2) True] in simp)
    then show ?thesis using assms(2) by (simp add: s1_def)
  next
    case False
    have "on_run i f s = s" for f using False by (simp add: on_run_def not_less list_update_beyond)
    then show ?thesis using assms(2) by (simp add: s1_def)
  qed
  have eq: "show_location i loc s = on_run i (\<lambda>r. r\<lparr>nr_robot := Some (case loc of None \<Rightarrow> (Fin 0, Fin 0) | Some p \<Rightarrow> p, nv_map s1)\<rparr>) s1"
    by (simp add: show_location_def s1_def Let_def)
  show "list_all run_ok (nv_runs (show_location i loc s))" unfolding eq using ok1 frame(2) by (auto intro: runs_ok_update)
  show "maps_ok (show_location i loc s)"
  proof (cases "i < length (nv_runs s1)")
    case True
    show ?thesis unfolding eq by (rule maps_ok_run [OF m1]) (use mk [OF m1 True] in simp)
  qed (use m1 in \<open>simp add: eq on_run_def not_less list_update_beyond\<close>)
qed

lemma current_map: "maps_ok s \<Longrightarrow> i < length (nv_runs s) \<Longrightarrow> nv_map s = Some (length (nv_runs s) - 1)"
  by (auto simp: maps_ok_def)

lemma nav_inv_waypoints:
  assumes "nav_inv s" "UpdateWaypoints i \<in> set (nv_calls s)"
  shows "nav_inv (fst (updateWaypoints_done env i r (s\<lparr>nv_calls := remove1 (UpdateWaypoints i) (nv_calls s)\<rparr>)))"
proof -
  have ok: "list_all run_ok (nv_runs s)" "maps_ok s" using assms(1) by (simp_all add: nav_inv_def)
  have i: "i < length (nv_runs s)" by (rule loops_bound(1) [OF assms])
  note cur = current_map [OF ok(2) i]
  have mk: "m < length (nv_runs s)" if "mk \<in> set (nr_markers (show_waypoints (nv_map s) ws (nv_runs s ! i)))" "mk_map mk = Some m" for ws mk m
    using show_waypoints_maps [of mk "nv_map s" ws "nv_runs s ! i"] that cur i ok(2) unfolding maps_ok_def
    by (metis diff_less gr_implies_not0 length_greater_0_conv list.size(3) nth_mem option.inject zero_less_one)
  have "maps_ok (on_run i (show_waypoints (nv_map s) ws) (s\<lparr>nv_calls := cs\<rparr>))" for ws cs
    by (rule maps_ok_run) (use ok(2) mk in \<open>auto simp: maps_ok_def\<close>)
  moreover have "maps_ok (fst (grpcCallback env r' b (s\<lparr>nv_calls := cs\<rparr>)))" for r' b cs
    using ok(2) by (simp add: maps_ok_def grpcCallback_keeps)
  moreover have "fst (grpcCallback env (Inr x) False t) = t" for x t by (simp add: grpcCallback_def)
  ultimately show ?thesis using assms(2) ok(1)
    by (auto simp: updateWaypoints_done_def split_def Let_def grpcCallback_keeps show_waypoints_correct(1) cur
        intro!: nav_later_inv [OF assms(1)] runs_ok_update split: sum.splits)
qed

lemma nav_inv_located:
  assumes "nav_inv s" "UpdateLocation i \<in> set (nv_calls s)"
  shows "nav_inv (fst (updateLocation_done env i r (s\<lparr>nv_calls := remove1 (UpdateLocation i) (nv_calls s)\<rparr>)))"
proof -
  have ok: "list_all run_ok (nv_runs s)" "maps_ok s" using assms(1) by (simp_all add: nav_inv_def)
  have "maps_ok (fst (grpcCallback env r' b (s\<lparr>nv_calls := cs\<rparr>)))" for r' b cs
    using ok(2) by (simp add: maps_ok_def grpcCallback_keeps)
  then show ?thesis using assms(2) ok
    by (auto simp: updateLocation_done_def split_def Let_def grpcCallback_keeps location_keeps
        intro!: nav_later_inv [OF assms(1)] split: sum.splits)
qed

interpretation nav: invariant_system "nav_handle env" nav_inv for env
proof
  fix s e
  assume inv: "nav_inv s"
  show "nav_inv (fst (nav_handle env s e))"
  proof (cases e)
    case (NvTimer t)
    then show ?thesis using inv nav_inv_timer [OF inv] by (auto split: option.splits)
  next
    case (NvAnswer r)
    then show ?thesis using inv nav_inv_cong [of "fst (grpcCallback env r True s)" s] by (simp add: grpcCallback_keeps)
  next
    case (NvGo p)
    then show ?thesis using inv nav_inv_cong [of "fst (initNavigationView p s)" s]
      by (simp add: initNavigationView_def loadMaps_def initNavigation_def split_def)
  next
    case (NvKey k)
    then show ?thesis using inv nav_inv_cong [of "s\<lparr>nv_googleApiKey := k\<rparr>" s] by simp
  next
    case NvReady
    then show ?thesis using inv nav_inv_cong [of "s\<lparr>nv_ready := True\<rparr>" s] by simp
  next
    case (NvLocation l)
    then show ?thesis using inv nav_inv_cong [of "s\<lparr>nv_location := l\<rparr>" s] by simp
  qed (use inv in \<open>simp_all add: nav_inv_rest nav_inv_waypoints nav_inv_located nav_inv_unmount\<close>)
qed

lemma nav_inv_init: "nav_inv nav_init"
  by (simp add: nav_fields nav_init_def)

interpretation nav_panel: panel "\<lambda>n. nav_handle (env\<lparr>ne_name := n\<rparr>)" for env
proof
  fix o' n s e
  have g: "o' \<in> set (snd (grpcCallback env' r b s)) \<Longrightarrow> addressed_to n o'" for env' r b s
    by (auto simp: grpcCallback_def split: sum.splits if_splits)
  have j: "target (nav_request (env\<lparr>ne_name := n\<rparr>) job) = Some n" for job by (cases job) simp_all
  show "o' \<in> set (snd (nav_handle (env\<lparr>ne_name := n\<rparr>) s e)) \<Longrightarrow> addressed_to n o'"
    by (cases e)
      (auto simp: initNavigationView_def loadMaps_def initNavigation_rest_def nav_call_def nav_later_def j split_def Let_def
        setNavigationMode_def setNavigationLocation_def mapClick_def updateWaypoints_done_def updateLocation_done_def
        dest!: g split: option.splits sum.splits if_splits list.splits)
qed


section \<open>What the panel shows and sends\<close>

definition nav_env0 :: nav_env where
  "nav_env0 = \<lparr>ne_name = ''nav'', ne_resources = None, ne_errText = err_message, ne_fromJavaScript = Inr, ne_runCommand = False\<rparr>"

text \<open>The markers on the map object \<open>map\<close> holds, whichever run put them there.\<close>

definition map_view :: "nav_state \<Rightarrow> marker list" where
  "map_view s = filter (\<lambda>mk. mk_map mk = nv_map s) (concat (map nr_markers (nv_runs s)))"

text \<open>With one run there is one map object, and all markers on a map are on it.\<close>

lemma single_run_view:
  assumes "nav_inv s" "length (nv_runs s) = 1"
  shows "map_view s = filter mk_shown (nr_markers (nv_runs s ! 0))"
proof -
  have m: "maps_ok s" using assms(1) by (simp add: nav_inv_def)
  obtain r where r: "nv_runs s = [r]" using assms(2) by (cases "nv_runs s") auto
  have "mk_map mk = Some 0 \<longleftrightarrow> mk_shown mk" if "mk \<in> set (nr_markers r)" for mk
    using m that unfolding maps_ok_def r by fastforce
  moreover have "nv_map s = Some 0" using m by (simp add: maps_ok_def r)
  ultimately show ?thesis by (simp add: map_view_def r cong: filter_cong)
qed

text \<open>
  C9. The markers of a run of \<open>initNavigation\<close> refine the robot's set of waypoints: whatever happened
  before, after an answer with waypoints the positions of its markers that are on a map are exactly
  theirs, each by one marker; a position that was shown before keeps its marker with its label and its
  map; and every marker made now is on the map object made last, whichever run made that. So as long as there
  was only one run, the panel's map shows each waypoint exactly once.
\<close>

theorem waypoints_refined:
  assumes s: "s = final (nav_handle env) nav_init es" and call: "UpdateWaypoints i \<in> set (nv_calls s)"
    and s': "s' = fst (nav_handle env s (NvWaypoints i (Inr (Some ws))))"
    and r: "r = nv_runs s ! i" and r': "r' = nv_runs s' ! i"
  shows "shown_at r' = (posStr \<circ> waypoint_pos) ` set ws
    \<and> distinct (map (posStr \<circ> mk_pos) (filter mk_shown (nr_markers r')))
    \<and> (\<forall>k j. known_at r k = Some j \<longrightarrow> k \<in> (posStr \<circ> waypoint_pos) ` set ws \<longrightarrow>
         known_at r' k = Some j \<and> nr_markers r' ! j = nr_markers r ! j \<and> mk_label (nr_markers r' ! j) = Suc j)
    \<and> (\<forall>j. length (nr_markers r) \<le> j \<longrightarrow> j < length (nr_markers r') \<longrightarrow>
         mk_map (nr_markers r' ! j) = Some (length (nv_maps s') - 1))
    \<and> (length (nv_runs s) = 1 \<longrightarrow> set (map (posStr \<circ> mk_pos) (map_view s')) = (posStr \<circ> waypoint_pos) ` set ws
         \<and> distinct (map (posStr \<circ> mk_pos) (map_view s')))"
proof -
  have inv: "nav_inv s" unfolding s by (rule nav.run_inv [OF nav_inv_init])
  have inv': "nav_inv s'" unfolding s' by (rule nav.step_inv [OF inv])
  have i: "i < length (nv_runs s)" using loops_bound(1) [OF inv call] .
  then have ok: "run_ok (nv_runs s ! i)" and m: "maps_ok s" using inv by (simp_all add: nav_inv_def list_all_length)
  define mp where "mp = length (nv_runs s) - 1"
  have mp: "nv_map s = Some mp" using current_map [OF m i] by (simp add: mp_def)
  have sw: "r' = show_waypoints (Some mp) ws r" and len: "length (nv_runs s') = length (nv_runs s)"
    and maps: "length (nv_maps s') - 1 = mp"
    using call i mp m unfolding s' r r'
    by (simp_all add: updateWaypoints_done_def split_def Let_def nav_later_def grpcCallback_keeps mp_def maps_ok_def)
  note c = show_waypoints_correct [OF ok, where ws = ws and mp = mp] and mk = show_waypoints_markers [OF ok, where ws = ws and mp = mp]
  have label: "mk_label (nr_markers r' ! j) = Suc j" if "known_at r' k = Some j" for k j
    using run_okD(2) [OF c(1), of j] run_okD(3) [OF c(1), of k j] that unfolding sw r by blast
  have view: "map_view s' = filter mk_shown (nr_markers r')" if "length (nv_runs s) = 1"
    using single_run_view [OF inv'] len i that by (simp add: r')
  have set_eq: "set (map (posStr \<circ> mk_pos) (filter mk_shown (nr_markers r'))) = shown_at r'" by (auto simp: shown_at_def)
  have shown: "shown_at r' = (posStr \<circ> waypoint_pos) ` set ws"
    and dist: "distinct (map (posStr \<circ> mk_pos) (filter mk_shown (nr_markers r')))"
    using c(2) shown_distinct [OF c(1)] unfolding sw r by blast+
  have kept: "known_at r' k = Some j \<and> nr_markers r' ! j = nr_markers r ! j \<and> mk_label (nr_markers r' ! j) = Suc j"
    if "known_at r k = Some j" "k \<in> (posStr \<circ> waypoint_pos) ` set ws" for k j
    using c(3) mk(1) label that unfolding sw r by blast
  have new: "mk_map (nr_markers r' ! j) = Some (length (nv_maps s') - 1)"
    if "length (nr_markers r) \<le> j" "j < length (nr_markers r')" for j
    using mk(2) that unfolding sw r maps by blast
  show ?thesis
    by (intro conjI allI impI shown dist kept [THEN conjunct1] kept [THEN conjunct2, THEN conjunct1]
        kept [THEN conjunct2, THEN conjunct2] new; (assumption | simp only: view set_eq shown dist))
qed

theorem waypoints_refined_witness:
  "map (posStr \<circ> mk_pos) (map_view (fst (nav_handle nav_env0 (final (nav_handle nav_env0) nav_init [NvGo False, NvReady, NvResume])
       (NvWaypoints 0 (Inr (Some [\<lparr>wp_id = ''w'', wp_location = None\<rparr>])))))) = [posStr (Fin 0, Fin 0)]"
proof -
  let ?s = "final (nav_handle nav_env0) nav_init [NvGo False, NvReady, NvResume]"
  have "UpdateWaypoints 0 \<in> set (nv_calls ?s)" and one: "length (nv_runs ?s) = 1"
    by (simp_all add: initNavigationView_def loadMaps_def initNavigation_def initNavigation_rest_def nav_call_def nav_init_def Let_def)
  from waypoints_refined [OF refl this(1) refl refl refl, of "[\<lparr>wp_id = ''w'', wp_location = None\<rparr>]"] one
  have "set (map (posStr \<circ> mk_pos) (map_view (fst (nav_handle nav_env0 ?s (NvWaypoints 0 (Inr (Some [\<lparr>wp_id = ''w'', wp_location = None\<rparr>]))))))) = {posStr (Fin 0, Fin 0)}"
    "distinct (map (posStr \<circ> mk_pos) (map_view (fst (nav_handle nav_env0 ?s (NvWaypoints 0 (Inr (Some [\<lparr>wp_id = ''w'', wp_location = None\<rparr>])))))))"
    by (simp_all add: waypoint_pos_def del: run.simps nav_handle.simps)
  then show ?thesis by (metis distinct_singleton_set)
qed

text \<open>
  A second press of Go doubles the markers: its two runs both draw on the map object made last, so
  a waypoint is on that map twice.
\<close>

theorem second_go_doubles:
  "map (posStr \<circ> mk_pos) (map_view (final (nav_handle env) nav_init
     [NvGo False, NvReady, NvResume, NvGo True, NvResume, NvResume,
      NvWaypoints 1 (Inr (Some [w])), NvWaypoints 2 (Inr (Some [w]))])) =
   [posStr (waypoint_pos w), posStr (waypoint_pos w)]"
  by (simp add: initNavigationView_def loadMaps_def initNavigation_def initNavigation_rest_def nav_call_def nav_init_def
      updateWaypoints_done_def grpcCallback_def on_run_def nav_later_def new_run_def show_waypoints_def place_waypoint_def
      map_view_def Let_def numeral_2_eq_2)

text \<open>
  C33. Every map ever started polls the robot's location for ever, also after the panel is removed:
  exactly one poll of it is waiting for a timer or an answer, and its timer sends the next request.
\<close>

theorem location_polled_forever:
  assumes s: "s = final (nav_handle env) nav_init es" and i: "i < length (nv_runs s)"
  shows "count (nav_jobs s) (UpdateLocation i) = 1 \<and>
    ((t, UpdateLocation i) \<in> set (nv_timers s) \<longrightarrow> snd (nav_handle env s (NvTimer t)) = [Call (NavigationReq (GetLocation (ne_name env)))])"
proof -
  have inv: "nav_inv s" unfolding s by (rule nav.run_inv [OF nav_inv_init])
  then have "count (nav_jobs s) (UpdateLocation i) = 1" using loops_okD(1) [of s i] i by (simp add: nav_inv_def)
  moreover have "(t, UpdateLocation i) \<in> set (nv_timers s) \<Longrightarrow> map_of (nv_timers s) t = Some (UpdateLocation i)"
    using inv by (simp add: nav_inv_def timers_ok_def)
  ultimately show ?thesis by (simp add: nav_call_def)
qed

theorem location_polled_forever_witness:
  "count (nav_jobs (final (nav_handle nav_env0) nav_init [NvGo False, NvReady, NvResume, NvUnmounted])) (UpdateLocation 0) = 1"
  using location_polled_forever [OF refl, of 0 nav_env0 "[NvGo False, NvReady, NvResume, NvUnmounted]"]
  by (simp add: initNavigationView_def loadMaps_def initNavigation_def initNavigation_rest_def nav_call_def nav_init_def clear_timer_def)

text \<open>How many maps a press of the button starts.\<close>

fun go_maps :: "nav_event \<Rightarrow> nat" where
  "go_maps (NvGo present) = (if present then 2 else 1)"
| "go_maps _ = 0"

lemma nav_step_maps:
  "nv_awaiting (fst (nav_handle env s e)) + length (nv_runs (fst (nav_handle env s e))) = nv_awaiting s + length (nv_runs s) + go_maps e"
  by (cases e)
    (auto simp: initNavigationView_def loadMaps_def initNavigation_def initNavigation_rest_def nav_call_def nav_later_def clear_timer_def
      updateWaypoints_done_def updateLocation_done_def grpcCallback_keeps Let_def split_def split: option.splits sum.splits)

text \<open>
  Every press of Go starts a map of its own, and two of them once the script is on the page: the
  maps started and those waiting for Google Maps always add up to that number, and nothing ever
  stops one.
\<close>

theorem go_starts_maps:
  "nv_awaiting (final (nav_handle env) nav_init es) + length (nv_runs (final (nav_handle env) nav_init es)) = sum_list (map go_maps es)"
proof -
  have "nv_awaiting (final (nav_handle env) s es) + length (nv_runs (final (nav_handle env) s es)) =
      nv_awaiting s + length (nv_runs s) + sum_list (map go_maps es)" for s
    by (induction es arbitrary: s) (simp_all add: run_Cons nav_step_maps del: run.simps(2) nav_handle.simps)
  then show ?thesis by (simp add: nav_init_def)
qed

text \<open>Plain positions are identified by their texts.\<close>

lemma posStr_inj:
  assumes "json_plain_num (fst p)" "json_plain_num (snd p)" "json_plain_num (fst q)" "json_plain_num (snd q)" "posStr p = posStr q"
  shows "p = q"
proof -
  let ?o = "\<lambda>p. Obj [(''lat'', Num (fst p)), (''lng'', Num (snd p))]"
  have "JSON_parse (posStr p) = Some (?o p)" "JSON_parse (posStr q) = Some (?o q)"
    unfolding posStr_def using assms(1-4) by (intro JSON_parse_text; simp)+
  then show ?thesis using assms(5) by (simp add: prod_eq_iff)
qed

text \<open>
  Two waypoints at one position share a marker, and it removes the first one it was made for: a
  double click keeps sending that id, also when the robot no longer has it.
\<close>

theorem marker_removes_first:
  assumes "known_at m (posStr (waypoint_pos w)) = Some j"
  shows "nr_markers (fst (place_waypoint (Some mp) w (m, current))) = nr_markers m \<and>
         known_at (fst (place_waypoint (Some mp) w (m, current))) (posStr (waypoint_pos w)) = Some j"
  using assms by (simp add: place_waypoint_def Let_def)

end
