(* ===== verification/Navigation_Page.thy ===== *)
theory Navigation_Page
  imports Navigation
begin

text \<open>
  Several navigation panels on one page. The setup of a panel stores its callback in
  \<open>window.googleMapsInit\<close>, over whatever was there; the first press of Go on the page appends the script
  element, and the script calls, once, the callback it finds when it has loaded. The callback resolves
  the promise of its own panel.
\<close>

datatype script_state = NoScript | ScriptLoading | ScriptLoaded

record nav_page =
  np_script :: script_state                  \<comment> \<open>the element \<open>#google-maps\<close>\<close>
  np_googleMapsInit :: "nat option"          \<comment> \<open>the panel whose callback \<open>window.googleMapsInit\<close> is\<close>
  np_panels :: "(nav_env \<times> nav_state) list"  \<comment> \<open>in the order of their setup\<close>

definition nav_page_start :: nav_page where
  "nav_page_start = \<lparr>np_script = NoScript, np_googleMapsInit = None, np_panels = []\<rparr>"

datatype page_event = PageSetup nav_env | PagePanel nat nav_event | PageScriptLoaded

text \<open>The assignment to \<open>window.googleMapsInit\<close> in the setup of a new panel.\<close>

definition page_setup :: "nav_env \<Rightarrow> nav_page \<Rightarrow> nav_page" where
  "page_setup env p =
     p\<lparr>np_panels := np_panels p @ [(env, nav_init)], np_googleMapsInit := Some (length (np_panels p))\<rparr>"

text \<open>
  An event of a panel. Whether the script element exists is a fact of the page, and the callback is
  run by the script alone.
\<close>

fun of_page :: "nav_event \<Rightarrow> bool \<Rightarrow> nav_event option" where
  "of_page (NvGo _) script = Some (NvGo script)"
| "of_page NvReady script = None"
| "of_page e script = Some e"

definition panel_step :: "nat \<Rightarrow> nav_event \<Rightarrow> nav_page \<Rightarrow> nav_page \<times> effect list" where
  "panel_step j e p =
     (if j < length (np_panels p)
      then (let (env, s) = np_panels p ! j; (s', os) = nav_handle env s e
            in (p\<lparr>np_panels := (np_panels p)[j := (env, s')],
                  np_script := (if list_ex (\<lambda>o'. case o' of LoadScript u \<Rightarrow> True | _ \<Rightarrow> False) os
                                then ScriptLoading else np_script p)\<rparr>, os))
      else (p, []))"

fun page_handle :: "(nav_page, page_event, effect) handler" where
  "page_handle p (PageSetup env) = (page_setup env p, [])"
| "page_handle p (PagePanel j e) =
     (case of_page e (np_script p \<noteq> NoScript) of None \<Rightarrow> (p, []) | Some e' \<Rightarrow> panel_step j e' p)"
| "page_handle p PageScriptLoaded =
     (if np_script p = ScriptLoading then
        (case np_googleMapsInit p of
           None \<Rightarrow> (p\<lparr>np_script := ScriptLoaded\<rparr>, [])
         | Some j \<Rightarrow> panel_step j NvReady (p\<lparr>np_script := ScriptLoaded\<rparr>))
      else (p, []))"

section \<open>Which panel gets the maps\<close>

abbreviation panel_ready :: "nav_page \<Rightarrow> nat \<Rightarrow> bool" where
  "panel_ready p j \<equiv> nv_ready (snd (np_panels p ! j))"

abbreviation panel_runs :: "nav_page \<Rightarrow> nat \<Rightarrow> nav_run list" where
  "panel_runs p j \<equiv> nv_runs (snd (np_panels p ! j))"

text \<open>Panels are ready, and have runs, only as \<open>c\<close> says.\<close>

definition served_panel :: "(nat \<Rightarrow> bool) \<Rightarrow> nav_page \<Rightarrow> bool" where
  "served_panel c p \<longleftrightarrow>
     (\<forall>j < length (np_panels p). (panel_ready p j \<longleftrightarrow> c j) \<and> (\<not> c j \<longrightarrow> panel_runs p j = []))"

definition before_load :: "nav_page \<Rightarrow> bool" where
  "before_load p \<longleftrightarrow>
     np_googleMapsInit p = (if np_panels p = [] then None else Some (length (np_panels p) - 1))
     \<and> (np_script p \<noteq> ScriptLoaded \<longrightarrow> served_panel (\<lambda>_. False) p)"

definition after_load :: "nat \<Rightarrow> nav_page \<Rightarrow> bool" where
  "after_load c p \<longleftrightarrow> np_script p = ScriptLoaded \<and> c < length (np_panels p) \<and> served_panel (\<lambda>j. j = c) p"

lemma ready_step: "e \<noteq> NvReady \<Longrightarrow> nv_ready (fst (nav_handle env s e)) = nv_ready s"
  by (cases e)
    (auto simp: initNavigationView_def loadMaps_def initNavigation_def initNavigation_rest_def nav_call_def nav_later_def clear_timer_def
      updateWaypoints_done_def updateLocation_done_def grpcCallback_keeps Let_def split_def split: option.splits sum.splits)

lemma not_ready_step: "\<not> nv_ready s \<Longrightarrow> nv_runs s = [] \<Longrightarrow> e \<noteq> NvReady \<Longrightarrow> nv_runs (fst (nav_handle env s e)) = []"
  by (cases e)
    (auto simp: initNavigationView_def loadMaps_def initNavigation_def nav_call_def nav_later_def clear_timer_def show_location_def
      updateWaypoints_done_def updateLocation_done_def grpcCallback_keeps Let_def split_def split: option.splits sum.splits)

lemma no_script_setLocation: "LoadScript u \<notin> set (setNavigationLocation env s)"
  by (simp add: setNavigationLocation_def Let_def split: list.split sum.split)

lemma load_script_only_go:
  "LoadScript u \<in> set (snd (nav_handle env s e)) \<Longrightarrow> e = NvGo False"
  by (cases e)
    (auto simp: initNavigationView_def loadMaps_def initNavigation_rest_def nav_call_def nav_later_def mapClick_def
      setNavigationMode_def no_script_setLocation updateWaypoints_done_def updateLocation_done_def grpcCallback_def
      Let_def split_def split: option.splits sum.splits list.splits if_splits)

lemma panel_step_panels:
  "np_panels (fst (panel_step j e p)) =
     (if j < length (np_panels p)
      then (np_panels p)[j := (fst (np_panels p ! j), fst (nav_handle (fst (np_panels p ! j)) (snd (np_panels p ! j)) e))]
      else np_panels p)"
  "np_googleMapsInit (fst (panel_step j e p)) = np_googleMapsInit p"
  by (simp_all add: panel_step_def split_def Let_def)

lemma panel_step_script:
  "e \<noteq> NvGo False \<Longrightarrow> np_script (fst (panel_step j e p)) = np_script p"
  using load_script_only_go by (fastforce simp: panel_step_def split_def Let_def list_ex_iff split: effect.splits)

lemma panel_step_served:
  assumes "served_panel c p" "e \<noteq> NvReady"
  shows "served_panel c (fst (panel_step j e p))"
  unfolding served_panel_def
proof (intro allI impI)
  fix k assume "k < length (np_panels (fst (panel_step j e p)))"
  then have "k < length (np_panels p)" by (simp add: panel_step_panels split: if_splits)
  then have "panel_ready p k \<longleftrightarrow> c k" "\<not> c k \<Longrightarrow> panel_runs p k = []"
    using assms(1) by (simp_all add: served_panel_def)
  then show "(panel_ready (fst (panel_step j e p)) k \<longleftrightarrow> c k) \<and> (\<not> c k \<longrightarrow> panel_runs (fst (panel_step j e p)) k = [])"
    using assms(2) by (cases "j = k") (auto simp: panel_step_panels ready_step not_ready_step nth_list_update)
qed

lemma of_page_not_ready: "of_page e b = Some e' \<Longrightarrow> e' \<noteq> NvReady"
  by (cases e) auto

lemma of_page_no_script: "of_page e True = Some e' \<Longrightarrow> e' \<noteq> NvGo False"
  by (cases e) auto

lemma served_setup: "served_panel c p \<Longrightarrow> \<not> c (length (np_panels p)) \<Longrightarrow> served_panel c (page_setup env p)"
  by (auto simp: served_panel_def page_setup_def nth_append less_Suc_eq nav_init_def)

interpretation before: invariant_system page_handle before_load
proof
  fix p e
  assume b: "before_load p"
  show "before_load (fst (page_handle p e))"
  proof (cases e)
    case (PageSetup env)
    then show ?thesis using b served_setup [of "\<lambda>_. False" p env] by (auto simp: before_load_def page_setup_def)
  next
    case (PagePanel j e')
    show ?thesis
    proof (cases "of_page e' (np_script p \<noteq> NoScript)")
      case (Some f)
      then have f: "f \<noteq> NvReady" by (rule of_page_not_ready)
      have "np_script (fst (panel_step j f p)) \<noteq> ScriptLoaded \<Longrightarrow> np_script p \<noteq> ScriptLoaded"
        using Some of_page_no_script [of e' f] panel_step_script [of f j p] by (cases "np_script p") auto
      then show ?thesis using PagePanel Some b panel_step_served [OF _ f, of "\<lambda>_. False" p j]
        by (auto simp: before_load_def panel_step_panels)
    qed (use PagePanel b in simp)
  next
    case PageScriptLoaded
    then show ?thesis using b panel_step_script [of NvReady]
      by (auto simp: before_load_def panel_step_panels split: option.splits)
  qed
qed

interpretation after: invariant_system page_handle "after_load c" for c
proof
  fix p e
  assume a: "after_load c p"
  show "after_load c (fst (page_handle p e))"
  proof (cases e)
    case (PageSetup env)
    then show ?thesis using a served_setup [of "\<lambda>j. j = c" p env] by (auto simp: after_load_def page_setup_def)
  next
    case (PagePanel j e')
    show ?thesis
    proof (cases "of_page e' (np_script p \<noteq> NoScript)")
      case (Some f)
      then have f: "f \<noteq> NvReady" "f \<noteq> NvGo False"
        using a of_page_no_script [of e' f] of_page_not_ready by (auto simp: after_load_def)
      then show ?thesis using PagePanel Some a panel_step_served [OF _ f(1), of "\<lambda>j. j = c" p j] panel_step_script [OF f(2), of j p]
        by (auto simp: after_load_def panel_step_panels)
    qed (use PagePanel a in simp)
  next
    case PageScriptLoaded
    then show ?thesis using a by (simp add: after_load_def)
  qed
qed

lemma before_load_start: "before_load nav_page_start"
  by (simp add: before_load_def nav_page_start_def served_panel_def)

section \<open>Property\<close>

text \<open>
  C34. On a page with several navigation services one panel gets a map, the one set up last before the script
  loaded: whatever is pressed and however panels come and go, until then no panel is ready, and from then on the
  promise of every other panel, set up earlier or later, stays pending, so that it never makes a map.
\<close>

theorem only_last_panel_gets_map:
  assumes "p1 = final page_handle nav_page_start es1" "np_script p1 = ScriptLoading" "np_panels p1 \<noteq> []"
    and "p = final page_handle p1 (PageScriptLoaded # es2)" "j < length (np_panels p)"
  shows "(panel_ready p j \<longleftrightarrow> Suc j = length (np_panels p1)) \<and> (Suc j \<noteq> length (np_panels p1) \<longrightarrow> panel_runs p j = [])"
proof -
  let ?c = "length (np_panels p1) - 1"
  let ?q = "fst (page_handle p1 PageScriptLoaded)"
  have b: "before_load p1" unfolding assms(1) by (rule before.run_inv [OF before_load_start])
  have c: "?c < length (np_panels p1)" using assms(3) by simp
  have q: "?q = fst (panel_step ?c NvReady (p1\<lparr>np_script := ScriptLoaded\<rparr>))"
    using b assms(2,3) by (simp add: before_load_def)
  have "served_panel (\<lambda>j. j = ?c) ?q"
    using b c assms(2) unfolding q by (auto simp: served_panel_def before_load_def panel_step_panels nth_list_update)
  then have "after_load ?c ?q" using c panel_step_script [of NvReady] unfolding q by (simp add: after_load_def panel_step_panels)
  from after.run_inv [OF this, of es2] have "after_load ?c p" unfolding assms(4) by (simp add: run_Cons del: run.simps(2))
  then show ?thesis using assms(3,5) unfolding after_load_def served_panel_def by (cases "np_panels p1") auto
qed

theorem only_last_panel_gets_map_witness:
  "panel_runs (final page_handle (final page_handle nav_page_start [PageSetup nav_env0, PageSetup nav_env0, PagePanel 0 (NvGo False)])
     [PageScriptLoaded, PagePanel 0 NvResume]) 0 = []"
proof -
  let ?p = "final page_handle nav_page_start [PageSetup nav_env0, PageSetup nav_env0, PagePanel 0 (NvGo False)]"
  have p: "np_script ?p = ScriptLoading" "length (np_panels ?p) = 2" "np_googleMapsInit ?p = Some 1"
    by (simp_all add: nav_page_start_def page_setup_def panel_step_def initNavigationView_def loadMaps_def initNavigation_def)
  then have "0 < length (np_panels (final page_handle ?p [PageScriptLoaded, PagePanel 0 NvResume]))"
    by (simp add: run_Cons panel_step_panels split: option.splits del: run.simps(2))
  moreover have "np_panels ?p \<noteq> []" using p(2) by fastforce
  ultimately show ?thesis using only_last_panel_gets_map [OF refl p(1) _ refl, of 0 "[PagePanel 0 NvResume]"] p(2)
    by (simp del: run.simps page_handle.simps)
qed

end
