(* ===== verification/Slam.thy ===== *)
theory Slam
  imports Panel
begin

text \<open>
  \<open>slam.vue\<close>: the map of a SLAM service as an image and as a point cloud, each shown on demand and
  refreshed by hand or at an interval. The browser's intervals are part of the state, with the view
  they refresh and their period. \<open>nextTick\<close> defers a function, which is an event of its own.
\<close>

datatype slam_view = ImageView | PCDView

record slam_state =
  sl_showImage :: bool
  sl_showPCD :: bool
  sl_selectedImageValue :: string
  sl_selectedPCDValue :: string
  sl_imageMap :: "bytes option"              \<comment> \<open>the blob behind the object URL\<close>
  sl_pointcloud :: "bytes option"
  sl_slamImageIntervalId :: "nat option"
  sl_slamPCDIntervalId :: "nat option"
  sl_intervals :: "(nat \<times> slam_view \<times> jsnum) list"
  sl_fresh :: nat
  sl_ticks :: "string list"                  \<comment> \<open>the functions \<open>nextTick\<close> has deferred, by their name\<close>

definition slam_init :: slam_state where
  "slam_init = \<lparr>sl_showImage = False, sl_showPCD = False, sl_selectedImageValue = ''manual'', sl_selectedPCDValue = ''manual'',
     sl_imageMap = None, sl_pointcloud = None, sl_slamImageIntervalId = None, sl_slamPCDIntervalId = None, sl_intervals = [],
     sl_fresh = 0, sl_ticks = []\<rparr>"

definition viewSLAMPCDMap :: "string \<Rightarrow> slam_state \<Rightarrow> slam_state \<times> effect list" where
  "viewSLAMPCDMap name s = (s\<lparr>sl_ticks := sl_ticks s @ [name]\<rparr>, [])"

definition viewSLAMPCDMap_tick :: "string \<Rightarrow> effect list" where
  "viewSLAMPCDMap_tick name = [Call (SlamReq (GetMap name ''pointcloud/pcd'' False))]"

definition viewSLAMPCDMap_done :: "service_error + bytes option \<Rightarrow> slam_state \<Rightarrow> slam_state \<times> effect list" where
  "viewSLAMPCDMap_done r s =
     (case r of
        Inl e \<Rightarrow> (s, displayError (Some e))
      | Inr None \<Rightarrow> (s, [Uncaught TypeError])
      | Inr (Some pc) \<Rightarrow> (s\<lparr>sl_pointcloud := Some pc\<rparr>, []))"

definition viewSLAMImageMap :: "string \<Rightarrow> slam_state \<Rightarrow> slam_state \<times> effect list" where
  "viewSLAMImageMap name s = (s, [Call (SlamReq (GetMap name ''image/jpeg'' True))])"

definition viewSLAMImageMap_done :: "service_error + bytes \<Rightarrow> slam_state \<Rightarrow> slam_state \<times> effect list" where
  "viewSLAMImageMap_done r s = (case r of Inl e \<Rightarrow> (s, displayError (Some e)) | Inr b \<Rightarrow> (s\<lparr>sl_imageMap := Some b\<rparr>, []))"

definition sl_clearInterval :: "nat option \<Rightarrow> slam_state \<Rightarrow> slam_state" where
  "sl_clearInterval i s = s\<lparr>sl_intervals := filter (\<lambda>x. Some (fst x) \<noteq> i) (sl_intervals s)\<rparr>"

definition sl_setInterval :: "slam_view \<Rightarrow> string \<Rightarrow> slam_state \<Rightarrow> slam_state" where
  "sl_setInterval v time s =
     s\<lparr>sl_intervals := sl_intervals s @ [(sl_fresh s, v, num_mul (parseFloat time) (Fin 1000))], sl_fresh := sl_fresh s + 1\<rparr>"

definition updateSLAMImageRefreshFrequency :: "string \<Rightarrow> string \<Rightarrow> slam_state \<Rightarrow> slam_state \<times> effect list" where
  "updateSLAMImageRefreshFrequency name time s =
     (let s1 = sl_clearInterval (sl_slamImageIntervalId s) s
      in if time = ''manual'' then viewSLAMImageMap name s1
         else if time = ''off'' then (s1, [])
         else (let (s2, os) = viewSLAMImageMap name s1
               in (sl_setInterval ImageView time (s2\<lparr>sl_slamImageIntervalId := Some (sl_fresh s2)\<rparr>), os)))"

definition updateSLAMPCDRefreshFrequency :: "string \<Rightarrow> string \<Rightarrow> slam_state \<Rightarrow> slam_state \<times> effect list" where
  "updateSLAMPCDRefreshFrequency name time s =
     (let s1 = sl_clearInterval (sl_slamPCDIntervalId s) s
      in if time = ''manual'' then viewSLAMPCDMap name s1
         else if time = ''off'' then (s1, [])
         else (let (s2, os) = viewSLAMPCDMap name s1
               in (sl_setInterval PCDView time (s2\<lparr>sl_slamPCDIntervalId := Some (sl_fresh s2)\<rparr>), os)))"

definition toggleImageExpand :: "string \<Rightarrow> slam_state \<Rightarrow> slam_state \<times> effect list" where
  "toggleImageExpand name s =
     (let s' = s\<lparr>sl_showImage := \<not> sl_showImage s\<rparr>
      in updateSLAMImageRefreshFrequency name (if sl_showImage s' then sl_selectedImageValue s' else ''off'') s')"

definition slam_togglePCDExpand :: "string \<Rightarrow> slam_state \<Rightarrow> slam_state \<times> effect list" where
  "slam_togglePCDExpand name s =
     (let s' = s\<lparr>sl_showPCD := \<not> sl_showPCD s\<rparr>
      in updateSLAMPCDRefreshFrequency name (if sl_showPCD s' then sl_selectedPCDValue s' else ''off'') s')"

definition selectSLAMImageRefreshFrequency :: "string \<Rightarrow> slam_state \<Rightarrow> slam_state \<times> effect list" where
  "selectSLAMImageRefreshFrequency name s = updateSLAMImageRefreshFrequency name (sl_selectedImageValue s) s"

definition selectSLAMPCDRefreshFrequency :: "string \<Rightarrow> slam_state \<Rightarrow> slam_state \<times> effect list" where
  "selectSLAMPCDRefreshFrequency name s = updateSLAMPCDRefreshFrequency name (sl_selectedPCDValue s) s"

definition refreshImageMap :: "string \<Rightarrow> slam_state \<Rightarrow> slam_state \<times> effect list" where
  "refreshImageMap name s = updateSLAMImageRefreshFrequency name (sl_selectedImageValue s) s"

definition refreshPCDMap :: "string \<Rightarrow> slam_state \<Rightarrow> slam_state \<times> effect list" where
  "refreshPCDMap name s = updateSLAMPCDRefreshFrequency name (sl_selectedPCDValue s) s"

text \<open>The frequencies both selects offer.\<close>

definition slam_options :: "string list" where
  "slam_options = [''manual'', ''30'', ''10'', ''5'']"

text \<open>The selects and the refresh buttons are on the page only while their view is shown. The panel has no unmount hook.\<close>

datatype slam_event =
    SlToggleImage
  | SlTogglePCD
  | SlSelectImage string
  | SlSelectPCD string
  | SlRefreshImage
  | SlRefreshPCD
  | SlInterval nat
  | SlTick
  | SlImage "service_error + bytes"
  | SlPCD "service_error + bytes option"
  | SlUnmounted

definition slam_view_now :: "slam_view \<Rightarrow> string \<Rightarrow> slam_state \<Rightarrow> slam_state \<times> effect list" where
  "slam_view_now v = (case v of ImageView \<Rightarrow> viewSLAMImageMap | PCDView \<Rightarrow> viewSLAMPCDMap)"

fun slam_handle :: "string \<Rightarrow> (slam_state, slam_event, effect) handler" where
  "slam_handle n s SlToggleImage = toggleImageExpand n s"
| "slam_handle n s SlTogglePCD = slam_togglePCDExpand n s"
| "slam_handle n s (SlSelectImage v) =
     (if sl_showImage s \<and> v \<in> set slam_options then selectSLAMImageRefreshFrequency n (s\<lparr>sl_selectedImageValue := v\<rparr>) else (s, []))"
| "slam_handle n s (SlSelectPCD v) =
     (if sl_showPCD s \<and> v \<in> set slam_options then selectSLAMPCDRefreshFrequency n (s\<lparr>sl_selectedPCDValue := v\<rparr>) else (s, []))"
| "slam_handle n s SlRefreshImage = (if sl_showImage s then refreshImageMap n s else (s, []))"
| "slam_handle n s SlRefreshPCD = (if sl_showPCD s then refreshPCDMap n s else (s, []))"
| "slam_handle n s (SlInterval i) = (case map_of (sl_intervals s) i of None \<Rightarrow> (s, []) | Some (v, p) \<Rightarrow> slam_view_now v n s)"
| "slam_handle n s SlTick = (case sl_ticks s of [] \<Rightarrow> (s, []) | m # ms \<Rightarrow> (s\<lparr>sl_ticks := ms\<rparr>, viewSLAMPCDMap_tick m))"
| "slam_handle n s (SlImage r) = viewSLAMImageMap_done r s"
| "slam_handle n s (SlPCD r) = viewSLAMPCDMap_done r s"
| "slam_handle n s SlUnmounted = (s, [])"


section \<open>The intervals\<close>

definition active :: "slam_view \<Rightarrow> slam_state \<Rightarrow> (nat \<times> slam_view \<times> jsnum) list" where
  "active v s = filter (\<lambda>x. fst (snd x) = v) (sl_intervals s)"

text \<open>The interval a view should have: one while it is shown at a frequency, with the period in milliseconds.\<close>

definition wanted :: "slam_view \<Rightarrow> bool \<Rightarrow> string \<Rightarrow> nat option \<Rightarrow> (nat \<times> slam_view \<times> jsnum) list" where
  "wanted v shown sel i = (if shown \<and> sel \<noteq> ''manual'' then [(the i, v, num_mul (parseFloat sel) (Fin 1000))] else [])"

definition slam_inv :: "string \<Rightarrow> slam_state \<Rightarrow> bool" where
  "slam_inv n s \<longleftrightarrow>
     active ImageView s = wanted ImageView (sl_showImage s) (sl_selectedImageValue s) (sl_slamImageIntervalId s) \<and>
     active PCDView s = wanted PCDView (sl_showPCD s) (sl_selectedPCDValue s) (sl_slamPCDIntervalId s) \<and>
     (active ImageView s \<noteq> [] \<longrightarrow> sl_slamImageIntervalId s \<noteq> None) \<and> (active PCDView s \<noteq> [] \<longrightarrow> sl_slamPCDIntervalId s \<noteq> None) \<and>
     (sl_slamImageIntervalId s = None \<or> sl_slamImageIntervalId s \<noteq> sl_slamPCDIntervalId s) \<and>
     (\<forall>i \<in> set_option (sl_slamImageIntervalId s) \<union> set_option (sl_slamPCDIntervalId s). i < sl_fresh s) \<and>
     sl_selectedImageValue s \<in> set slam_options \<and> sl_selectedPCDValue s \<in> set slam_options \<and> set (sl_ticks s) \<subseteq> {n}"

lemma slam_options_not_off: "v \<in> set slam_options \<Longrightarrow> v \<noteq> ''off''"
  by (auto simp: slam_options_def)

lemma active_simps [simp]:
  "active v (sl_setInterval w time s) = active v s @ (if v = w then [(sl_fresh s, w, num_mul (parseFloat time) (Fin 1000))] else [])"
  "active v (sl_clearInterval i s) = filter (\<lambda>x. Some (fst x) \<noteq> i) (active v s)"
  by (auto simp: active_def sl_setInterval_def sl_clearInterval_def intro: filter_cong)

lemma slam_inv_fields:
  "active v (s\<lparr>sl_showImage := a\<rparr>) = active v s" "active v (s\<lparr>sl_showPCD := a\<rparr>) = active v s"
  "active v (s\<lparr>sl_selectedImageValue := b\<rparr>) = active v s" "active v (s\<lparr>sl_selectedPCDValue := b\<rparr>) = active v s"
  "active v (s\<lparr>sl_slamImageIntervalId := i\<rparr>) = active v s" "active v (s\<lparr>sl_slamPCDIntervalId := i\<rparr>) = active v s"
  "active v (s\<lparr>sl_ticks := t\<rparr>) = active v s" "active v (s\<lparr>sl_imageMap := x\<rparr>) = active v s" "active v (s\<lparr>sl_pointcloud := y\<rparr>) = active v s"
  by (simp_all add: active_def)

lemma interval_fields [simp]:
  "sl_showImage (sl_setInterval w time s) = sl_showImage s" "sl_showPCD (sl_setInterval w time s) = sl_showPCD s"
  "sl_selectedImageValue (sl_setInterval w time s) = sl_selectedImageValue s"
  "sl_selectedPCDValue (sl_setInterval w time s) = sl_selectedPCDValue s"
  "sl_slamImageIntervalId (sl_setInterval w time s) = sl_slamImageIntervalId s"
  "sl_slamPCDIntervalId (sl_setInterval w time s) = sl_slamPCDIntervalId s"
  "sl_fresh (sl_setInterval w time s) = sl_fresh s + 1" "sl_ticks (sl_setInterval w time s) = sl_ticks s"
  "sl_showImage (sl_clearInterval i s) = sl_showImage s" "sl_showPCD (sl_clearInterval i s) = sl_showPCD s"
  "sl_selectedImageValue (sl_clearInterval i s) = sl_selectedImageValue s"
  "sl_selectedPCDValue (sl_clearInterval i s) = sl_selectedPCDValue s"
  "sl_slamImageIntervalId (sl_clearInterval i s) = sl_slamImageIntervalId s"
  "sl_slamPCDIntervalId (sl_clearInterval i s) = sl_slamPCDIntervalId s"
  "sl_fresh (sl_clearInterval i s) = sl_fresh s" "sl_ticks (sl_clearInterval i s) = sl_ticks s"
  by (simp_all add: sl_setInterval_def sl_clearInterval_def)

text \<open>A new frequency for one view: its old interval goes, the other view's stays.\<close>

lemma image_frequency:
  assumes inv: "slam_inv n s" and sel: "sel \<in> set slam_options"
  shows "slam_inv n (fst (updateSLAMImageRefreshFrequency n (if shown then sel else ''off'') (s\<lparr>sl_showImage := shown, sl_selectedImageValue := sel\<rparr>)))"
proof -
  have cleared: "filter (\<lambda>x. Some (fst x) \<noteq> sl_slamImageIntervalId s) (active ImageView s) = []"
    "filter (\<lambda>x. Some (fst x) \<noteq> sl_slamImageIntervalId s) (active PCDView s) = active PCDView s"
    using inv by (auto simp: slam_inv_def wanted_def split: if_splits)
  consider "\<not> shown" | "shown" "sel = ''manual''" | "shown" "sel \<noteq> ''manual''" "sel \<noteq> ''off''"
    using slam_options_not_off [OF sel] by blast
  then show ?thesis
    by cases (use inv sel cleared in \<open>simp_all add: updateSLAMImageRefreshFrequency_def viewSLAMImageMap_def slam_inv_def
        slam_inv_fields Let_def, auto simp: wanted_def\<close>)
qed

lemma pcd_frequency:
  assumes inv: "slam_inv n s" and sel: "sel \<in> set slam_options"
  shows "slam_inv n (fst (updateSLAMPCDRefreshFrequency n (if shown then sel else ''off'') (s\<lparr>sl_showPCD := shown, sl_selectedPCDValue := sel\<rparr>)))"
proof -
  have cleared: "filter (\<lambda>x. Some (fst x) \<noteq> sl_slamPCDIntervalId s) (active PCDView s) = []"
    "filter (\<lambda>x. Some (fst x) \<noteq> sl_slamPCDIntervalId s) (active ImageView s) = active ImageView s"
    using inv by (auto simp: slam_inv_def wanted_def split: if_splits)
  consider "\<not> shown" | "shown" "sel = ''manual''" | "shown" "sel \<noteq> ''manual''" "sel \<noteq> ''off''"
    using slam_options_not_off [OF sel] by blast
  then show ?thesis
    by cases (use inv sel cleared in \<open>simp_all add: updateSLAMPCDRefreshFrequency_def viewSLAMPCDMap_def slam_inv_def
        slam_inv_fields Let_def, auto simp: wanted_def\<close>)
qed


lemma slam_inv_cong:
  "sl_showImage t = sl_showImage s \<Longrightarrow> sl_showPCD t = sl_showPCD s \<Longrightarrow> sl_selectedImageValue t = sl_selectedImageValue s \<Longrightarrow>
   sl_selectedPCDValue t = sl_selectedPCDValue s \<Longrightarrow> sl_slamImageIntervalId t = sl_slamImageIntervalId s \<Longrightarrow>
   sl_slamPCDIntervalId t = sl_slamPCDIntervalId s \<Longrightarrow> sl_intervals t = sl_intervals s \<Longrightarrow> sl_fresh t = sl_fresh s \<Longrightarrow>
   set (sl_ticks t) \<subseteq> {n} \<Longrightarrow> slam_inv n s \<Longrightarrow> slam_inv n t"
  by (simp add: slam_inv_def active_def)

lemma slam_inv_step:
  assumes inv: "slam_inv n s"
  shows "slam_inv n (fst (slam_handle n s e))"
proof -
  have o: "sl_selectedImageValue s \<in> set slam_options" "sl_selectedPCDValue s \<in> set slam_options"
    using inv by (simp_all add: slam_inv_def)
  have same: "s\<lparr>sl_showImage := b, sl_selectedImageValue := sl_selectedImageValue s\<rparr> = s\<lparr>sl_showImage := b\<rparr>"
    "s\<lparr>sl_showPCD := b, sl_selectedPCDValue := sl_selectedPCDValue s\<rparr> = s\<lparr>sl_showPCD := b\<rparr>"
    "sl_showImage s \<Longrightarrow> s\<lparr>sl_showImage := True\<rparr> = s" "sl_showPCD s \<Longrightarrow> s\<lparr>sl_showPCD := True\<rparr> = s"
    "sl_showImage s \<Longrightarrow> s\<lparr>sl_showImage := True, sl_selectedImageValue := v\<rparr> = s\<lparr>sl_selectedImageValue := v\<rparr>"
    "sl_showPCD s \<Longrightarrow> s\<lparr>sl_showPCD := True, sl_selectedPCDValue := v\<rparr> = s\<lparr>sl_selectedPCDValue := v\<rparr>" for b v
    by (cases s; simp)+
  show ?thesis
proof (cases e)
  case SlToggleImage
  then show ?thesis using image_frequency [OF inv o(1), of "\<not> sl_showImage s"]
    by (cases "sl_showImage s") (simp_all add: toggleImageExpand_def Let_def same)
next
  case SlTogglePCD
  then show ?thesis using pcd_frequency [OF inv o(2), of "\<not> sl_showPCD s"]
    by (cases "sl_showPCD s") (simp_all add: slam_togglePCDExpand_def Let_def same)
next
  case (SlSelectImage v)
  then show ?thesis using inv image_frequency [OF inv, of v True] by (auto simp: selectSLAMImageRefreshFrequency_def same)
next
  case (SlSelectPCD v)
  then show ?thesis using inv pcd_frequency [OF inv, of v True] by (auto simp: selectSLAMPCDRefreshFrequency_def same)
next
  case SlRefreshImage
  then show ?thesis using inv image_frequency [OF inv o(1), of True]
    by (cases "sl_showImage s") (simp_all add: refreshImageMap_def same)
next
  case SlRefreshPCD
  then show ?thesis using inv pcd_frequency [OF inv o(2), of True]
    by (cases "sl_showPCD s") (simp_all add: refreshPCDMap_def same)
next
  case (SlInterval i)
  have "set (sl_ticks s) \<subseteq> {n}" using inv by (simp add: slam_inv_def)
  then have "slam_inv n (s\<lparr>sl_ticks := sl_ticks s @ [n]\<rparr>)" by (intro slam_inv_cong [OF _ _ _ _ _ _ _ _ _ inv]) simp_all
  then show ?thesis using SlInterval inv
    by (auto simp: slam_view_now_def viewSLAMImageMap_def viewSLAMPCDMap_def split: option.splits slam_view.splits)
next
  case SlTick
  then show ?thesis using inv by (cases "sl_ticks s") (auto simp: slam_inv_def slam_inv_fields)
qed (use inv in \<open>auto simp: viewSLAMImageMap_done_def viewSLAMPCDMap_done_def slam_inv_def slam_inv_fields split: sum.splits option.splits\<close>)
qed

interpretation slam: effect_system "slam_handle n" "slam_inv n" "addressed_to n" for n
proof
  fix s e
  show "slam_inv n s \<Longrightarrow> slam_inv n (fst (slam_handle n s e))" by (rule slam_inv_step)
  fix o' assume "slam_inv n s" "o' \<in> set (snd (slam_handle n s e))"
  then show "addressed_to n o'"
    by (cases e) (auto simp: toggleImageExpand_def slam_togglePCDExpand_def selectSLAMImageRefreshFrequency_def
        selectSLAMPCDRefreshFrequency_def refreshImageMap_def refreshPCDMap_def updateSLAMImageRefreshFrequency_def
        updateSLAMPCDRefreshFrequency_def viewSLAMImageMap_def viewSLAMPCDMap_def viewSLAMPCDMap_tick_def slam_view_now_def
        viewSLAMImageMap_done_def viewSLAMPCDMap_done_def slam_inv_def Let_def
        split: if_splits option.splits sum.splits list.splits slam_view.splits)
qed

lemma slam_inv_init: "slam_inv n slam_init"
  by (simp add: slam_inv_def slam_init_def active_def wanted_def slam_options_def)

text \<open>
  C35. Under any order of events each of the two views has the interval it should have and no other: one
  with the period of the selected frequency while it is shown at a frequency, and none while it is
  hidden or refreshed by hand; and every request is for the panel's own service.
\<close>

theorem slam_intervals_follow:
  "active ImageView (final (slam_handle n) slam_init es) =
     wanted ImageView (sl_showImage (final (slam_handle n) slam_init es)) (sl_selectedImageValue (final (slam_handle n) slam_init es))
       (sl_slamImageIntervalId (final (slam_handle n) slam_init es)) \<and>
   active PCDView (final (slam_handle n) slam_init es) =
     wanted PCDView (sl_showPCD (final (slam_handle n) slam_init es)) (sl_selectedPCDValue (final (slam_handle n) slam_init es))
       (sl_slamPCDIntervalId (final (slam_handle n) slam_init es)) \<and>
   list_all (addressed_to n) (outputs (slam_handle n) slam_init es)"
  using slam.run_inv [OF slam_inv_init, of n es] slam.run_good [OF slam_inv_init, of _ n es]
  by (auto simp: slam_inv_def list_all_iff)

text \<open>The periods of the frequencies on offer.\<close>

lemma slam_periods:
  "wanted v True ''30'' (Some i) = [(i, v, Fin 30000)]" "wanted v True ''10'' (Some i) = [(i, v, Fin 10000)]"
  "wanted v True ''5'' (Some i) = [(i, v, Fin 5000)]"
proof -
  have "parseFloat ''30'' = Fin 30" "parseFloat ''10'' = Fin 10" "parseFloat ''5'' = Fin 5"
    using parseFloat_digits [of "''30''"] parseFloat_digits [of "''10''"] parseFloat_digits [of "''5''"]
    by (simp_all add: is_digit_def nat_of_digits_def digit_val_def)
  then have "num_mul (parseFloat ''30'') (Fin 1000) = Fin 30000" "num_mul (parseFloat ''10'') (Fin 1000) = Fin 10000"
    "num_mul (parseFloat ''5'') (Fin 1000) = Fin 5000"
    using num_mul_int [of 30 1000] num_mul_int [of 10 1000] num_mul_int [of 5 1000] by simp_all
  then show "wanted v True ''30'' (Some i) = [(i, v, Fin 30000)]" "wanted v True ''10'' (Some i) = [(i, v, Fin 10000)]"
    "wanted v True ''5'' (Some i) = [(i, v, Fin 5000)]" by (simp_all add: wanted_def)
qed

text \<open>Removing the panel leaves its intervals running: the map is asked for on and on.\<close>

theorem slam_polls_after_unmount:
  "snd (slam_handle n (final (slam_handle n) slam_init [SlToggleImage, SlSelectImage ''5'', SlUnmounted]) (SlInterval 0)) =
     [Call (SlamReq (GetMap n ''image/jpeg'' True))]"
  by (simp add: slam_init_def toggleImageExpand_def selectSLAMImageRefreshFrequency_def updateSLAMImageRefreshFrequency_def
      viewSLAMImageMap_def slam_options_def sl_setInterval_def sl_clearInterval_def slam_view_now_def)

end
