(* ===== verification/Js_Sqrt.thy ===== *)
theory Js_Sqrt
  imports Js_Number
begin

text \<open>
  \<open>Math.sqrt\<close> with correct rounding, computed from the integer square root: the significand is the
  integer nearest to the root in units of the last place.
\<close>

fun isqrt :: "nat \<Rightarrow> nat" where
  "isqrt n = (if n = 0 then 0 else (let r = 2 * isqrt (n div 4) in if (r + 1)\<^sup>2 \<le> n then r + 1 else r))"

declare isqrt.simps [simp del]

lemma isqrt_bounds: "(isqrt n)\<^sup>2 \<le> n \<and> n < (isqrt n + 1)\<^sup>2"
proof (induction n rule: isqrt.induct)
  case (1 n)
  show ?case
  proof (cases "n = 0")
    case False
    define k where "k = isqrt (n div 4)"
    have k: "k\<^sup>2 \<le> n div 4" "n div 4 < (k + 1)\<^sup>2" using 1 False by (simp_all add: k_def)
    then have "4 * k\<^sup>2 \<le> n" "n < 4 * (k + 1)\<^sup>2" by linarith+
    then have "(2 * k)\<^sup>2 \<le> n" "n < (2 * k + 2)\<^sup>2" by (simp_all add: power2_eq_square algebra_simps)
    moreover have "isqrt n = (if (2 * k + 1)\<^sup>2 \<le> n then 2 * k + 1 else 2 * k)"
      using False by (simp add: isqrt.simps [of n] Let_def k_def)
    ultimately show ?thesis by simp
  qed (simp add: isqrt.simps [of 0])
qed

definition sqrt_quantum :: "rat \<Rightarrow> int" where
  "sqrt_quantum q = rlog2 q div 2 - 52"

definition sqrt_digits :: "rat \<Rightarrow> nat" where
  "sqrt_digits q =
     (let x = q / 4 powi sqrt_quantum q; n = isqrt (nat \<lfloor>x\<rfloor>); h = of_nat n + 1 / 2
      in if h\<^sup>2 < x \<or> h\<^sup>2 = x \<and> odd n then n + 1 else n)"

fun math_sqrt :: "jsnum \<Rightarrow> jsnum" where
  "math_sqrt (Fin q) =
     (if q < 0 then NaN else if q = 0 then Fin 0 else Fin (of_nat (sqrt_digits q) * 2 powi sqrt_quantum q))"
| "math_sqrt (Inf s) = (if s then NaN else Inf False)"
| "math_sqrt NegZero = NegZero"
| "math_sqrt NaN = NaN"

lemma powi4: "(4::rat) powi e = (2 powi e)\<^sup>2"
  by (simp add: power_int_power' power_int_mult_distrib [symmetric] power2_eq_square)

text \<open>The digits are the nearest ones.\<close>

lemma sqrt_digits_nearest:
  assumes "0 < q"
  shows "(of_nat (sqrt_digits q) + 1 / 2)\<^sup>2 \<ge> q / 4 powi sqrt_quantum q"
    "1 \<le> sqrt_digits q \<Longrightarrow> (of_nat (sqrt_digits q) - 1 / 2)\<^sup>2 \<le> q / 4 powi sqrt_quantum q"
proof -
  define x where "x = q / 4 powi sqrt_quantum q"
  define n where "n = isqrt (nat \<lfloor>x\<rfloor>)"
  have x: "0 < x" using assms by (simp add: x_def)
  have lo: "(of_nat n :: rat)\<^sup>2 \<le> x"
  proof -
    have "int (n\<^sup>2) \<le> \<lfloor>x\<rfloor>" using isqrt_bounds [of "nat \<lfloor>x\<rfloor>"] x unfolding n_def by linarith
    then have "of_int (int (n\<^sup>2)) \<le> x" by linarith
    then show ?thesis by simp
  qed
  have hi: "x < (of_nat n + 1 :: rat)\<^sup>2"
  proof -
    have "\<lfloor>x\<rfloor> < int ((n + 1)\<^sup>2)" using isqrt_bounds [of "nat \<lfloor>x\<rfloor>"] x unfolding n_def by linarith
    then have "x < of_int (int ((n + 1)\<^sup>2))" by linarith
    then show ?thesis by (simp add: add.commute)
  qed
  have d: "sqrt_digits q = (if (of_nat n + 1 / 2)\<^sup>2 < x \<or> (of_nat n + 1 / 2)\<^sup>2 = x \<and> odd n then n + 1 else n)"
    by (simp add: sqrt_digits_def Let_def x_def n_def)
  have mono: "(of_nat n + 1 :: rat)\<^sup>2 \<le> (of_nat (n + 1) + 1 / 2)\<^sup>2" "1 \<le> n \<Longrightarrow> (of_nat n - 1 / 2 :: rat)\<^sup>2 \<le> (of_nat n)\<^sup>2"
    by (auto intro!: power_mono)
  consider "sqrt_digits q = n + 1" "(of_nat (n + 1) - 1 / 2)\<^sup>2 \<le> x" | "sqrt_digits q = n" "x \<le> (of_nat n + 1 / 2)\<^sup>2"
    unfolding d by (cases "(of_nat n + 1 / 2)\<^sup>2 < x \<or> (of_nat n + 1 / 2)\<^sup>2 = x \<and> odd n") (auto simp: not_less add.commute)
  then have "x \<le> (of_nat (sqrt_digits q) + 1 / 2)\<^sup>2 \<and> (1 \<le> sqrt_digits q \<longrightarrow> (of_nat (sqrt_digits q) - 1 / 2)\<^sup>2 \<le> x)"
  proof cases
    case 1
    then show ?thesis unfolding 1(1) using order_trans [OF less_imp_le [OF hi] mono(1)] by blast
  next
    case 2
    then show ?thesis unfolding 2(1) using order_trans [OF mono(2) lo] by blast
  qed
  then show "(of_nat (sqrt_digits q) + 1 / 2)\<^sup>2 \<ge> q / 4 powi sqrt_quantum q"
    "1 \<le> sqrt_digits q \<Longrightarrow> (of_nat (sqrt_digits q) - 1 / 2)\<^sup>2 \<le> q / 4 powi sqrt_quantum q"
    unfolding x_def by blast+
qed

text \<open>In terms of the value and its unit in the last place.\<close>

lemma sqrt_digits_pos: "0 < q \<Longrightarrow> 1 \<le> sqrt_digits q"
proof -
  assume q: "0 < q"
  have "2 powi (2 * (rlog2 q div 2)) \<le> q" using rlog2_bounds(1) [OF q] powi2_mono [of "2 * (rlog2 q div 2)" "rlog2 q"] by linarith
  moreover have "(4::rat) powi sqrt_quantum q = 2 powi (2 * (rlog2 q div 2)) * 2 powi (- 104)"
    unfolding powi4 sqrt_quantum_def power2_eq_square powi2_add [symmetric] by (rule arg_cong [where f = "\<lambda>e. 2 powi e"]) linarith
  moreover have "(2::rat) powi (- 104) < 1" by (simp add: power_int_minus)
  moreover have "(2::rat) powi (2 * (rlog2 q div 2)) * 2 powi (- 104) < 2 powi (2 * (rlog2 q div 2)) * 1"
    using calculation(3) by (intro mult_strict_left_mono) simp_all
  ultimately have "(4::rat) powi sqrt_quantum q < q" by linarith
  then have "1 < q / 4 powi sqrt_quantum q" by (simp add: powi4)
  then have "1 < (of_nat (sqrt_digits q) + 1 / 2 :: rat)\<^sup>2" using sqrt_digits_nearest(1) [OF q] by linarith
  then show ?thesis by (cases "sqrt_digits q") (auto simp: power2_eq_square)
qed

lemma math_sqrt_close:
  assumes "0 < q" "u = 2 powi sqrt_quantum q" "r = of_nat (sqrt_digits q) * u"
  shows "(r - u / 2)\<^sup>2 \<le> q" "q \<le> (r + u / 2)\<^sup>2" "u / 2 \<le> r"
proof -
  have u: "0 < u" "4 powi sqrt_quantum q = u\<^sup>2" using assms(2) by (simp_all add: powi4)
  have "r - u / 2 = (of_nat (sqrt_digits q) - 1 / 2) * u" "r + u / 2 = (of_nat (sqrt_digits q) + 1 / 2) * u"
    using assms(3) by (simp_all add: algebra_simps)
  then have "(r - u / 2)\<^sup>2 = (of_nat (sqrt_digits q) - 1 / 2)\<^sup>2 * u\<^sup>2" "(r + u / 2)\<^sup>2 = (of_nat (sqrt_digits q) + 1 / 2)\<^sup>2 * u\<^sup>2"
    by (simp_all add: power_mult_distrib)
  then show "(r - u / 2)\<^sup>2 \<le> q" "q \<le> (r + u / 2)\<^sup>2"
    using sqrt_digits_nearest [OF assms(1)] sqrt_digits_pos [OF assms(1)] u by (simp_all add: field_simps)
  have "1 * u \<le> r" unfolding assms(3) using sqrt_digits_pos [OF assms(1)] u(1) by (intro mult_right_mono) auto
  then show "u / 2 \<le> r" using u(1) by linarith
qed

text \<open>Rounding the root of a whole number below \<open>2 ^ 48\<close> gives the whole number nearest to the true root.\<close>

lemma round_sqrt:
  assumes "0 < S" "S \<le> 2 ^ 48"
  shows "\<exists>d. math_round (math_sqrt (Fin (of_nat S))) = Fin (of_nat d) \<and> d * d < S + d \<and> S \<le> d * d + d"
proof -
  define q where "q = (of_nat S :: rat)"
  define u where "u = (2::rat) powi sqrt_quantum q"
  define r where "r = of_nat (sqrt_digits q) * u"
  have q: "0 < q" "q \<le> 2 ^ 48" using assms by (simp_all add: q_def)
  note c = math_sqrt_close [OF q(1) u_def r_def]
  have "rlog2 q < 49" using q by (intro rlog2_less) auto
  then have "u \<le> 2 powi (- 28)" unfolding u_def sqrt_quantum_def by (intro powi2_mono) linarith
  then have u: "0 < u" "u \<le> 1 / 2 ^ 28" by (simp_all add: u_def power_int_minus inverse_eq_divide)
  have "(r - u / 2)\<^sup>2 \<le> (2 ^ 24)\<^sup>2" using c(1) q(2) by simp
  then have r: "r - u / 2 \<le> 2 ^ 24" by (rule power2_le_imp_le) simp
  define d where "d = \<lfloor>r + 1 / 2\<rfloor>"
  have d: "of_int d \<le> r + 1 / 2" "r + 1 / 2 < of_int d + 1" unfolding d_def by linarith+
  have d0: "0 \<le> d" using c(3) u by (simp add: d_def)
  have le: "of_int d + 1 / 2 \<le> (2 ^ 25 :: rat)" using d(1) r u by simp
  have small: "u * (of_int d + 1 / 2) \<le> 1 / 8" "u * u \<le> 1 / 8"
    using mult_mono [OF u(2) le] mult_mono [OF u(2) u(2)] u d0 by simp_all
  have up: "q < (of_int d + 1 / 2)\<^sup>2 + 1 / 2"
  proof -
    have "q \<le> (of_int d + 1 / 2 + u / 2)\<^sup>2" using c(2,3) d(2) u(1) by (intro order_trans [OF c(2)] power_mono) linarith+
    also have "\<dots> = (of_int d + 1 / 2)\<^sup>2 + u * (of_int d + 1 / 2) + u * u / 4" by (simp add: power2_eq_square algebra_simps)
    finally show ?thesis using small by linarith
  qed
  have lo: "d = 0 \<or> (of_int d - 1 / 2)\<^sup>2 - 1 / 4 < q"
  proof (cases "d = 0")
    case False
    then have d1: "1 \<le> d" using d0 by simp
    then have "(1::rat) \<le> of_int d" by simp
    then have "0 \<le> of_int d - 1 / 2 - u / 2" using u by simp
    then have "(of_int d - 1 / 2 - u / 2)\<^sup>2 \<le> q" using d(1) by (intro order_trans [OF _ c(1)] power_mono) linarith+
    moreover have "(of_int d - 1 / 2 - u / 2)\<^sup>2 = (of_int d - 1 / 2)\<^sup>2 - u * (of_int d + 1 / 2) + u + u * u / 4"
      by (simp add: power2_eq_square algebra_simps)
    moreover have "0 \<le> u * u" by simp
    ultimately show ?thesis using small u by linarith
  qed simp
  define k where "k = nat d"
  have k: "of_int d = (of_nat k :: rat)" using d0 by (simp add: k_def)
  have "of_nat S < (of_nat (k * k + k + 1) :: rat)" using up unfolding k q_def by (simp add: power2_eq_square algebra_simps)
  then have S1: "S \<le> k * k + k" by (simp only: of_nat_less_iff)
  have "k = 0 \<or> (of_nat (k * k) :: rat) < of_nat (S + k)" using lo unfolding k q_def by (auto simp: power2_eq_square algebra_simps k_def)
  then have S2: "k * k < S + k" using assms(1) by (auto simp only: of_nat_less_iff)
  have "r > 0" using c(3) u by linarith
  then have "math_round (math_sqrt (Fin (of_nat S))) = Fin (of_nat k)"
    using q k assms(1) by (simp add: q_def [symmetric] u_def [symmetric] r_def [symmetric] d_def [symmetric] Let_def)
  then show ?thesis using S1 S2 by blast
qed

end
