(* ===== verification/Pcd.thy ===== *)
theory Pcd
  imports Panel Js_Sqrt
begin

text \<open>
  \<open>pcd.vue\<close>: the point cloud viewer. The three.js library is not part of the program: its scene,
  matrices, instanced meshes, loader and vector functions are the operations of a record that every
  definition takes as an argument, and the locale \<open>three_laws\<close> of the theory \<open>Pcd_Laws\<close> states what its
  documentation says of them. What the raycaster hits comes with the mouse event. A function that may raise
  returns the state it leaves and the exception.
\<close>

section \<open>The library's operations\<close>

datatype obj = Ambient | Sphere | GridHelper | Controls | Box nat | Points nat

fun obj_name :: "obj \<Rightarrow> string" where
  "obj_name (Box i) = ''bounding-box''"
| "obj_name (Points i) = ''points''"
| "obj_name _ = ''''"

text \<open>A parsed cloud: the position attribute, and the colour attribute if there is one.\<close>

record cloud =
  cl_positions :: "vec3 list"
  cl_colors :: "vec3 list option"

record ('sc, 'm, 'g) three =
  th_add :: "obj \<Rightarrow> 'sc \<Rightarrow> 'sc"                   \<comment> \<open>\<open>scene.add\<close>\<close>
  th_remove :: "obj \<Rightarrow> 'sc \<Rightarrow> 'sc"                \<comment> \<open>\<open>scene.remove\<close>\<close>
  th_named :: "string \<Rightarrow> 'sc \<Rightarrow> obj option"       \<comment> \<open>\<open>scene.getObjectByName\<close>\<close>
  th_setPosition :: "'m \<Rightarrow> vec3 \<Rightarrow> 'm"            \<comment> \<open>\<open>matrix.setPosition\<close>\<close>
  th_makeScale :: "jsnum \<Rightarrow> 'm \<Rightarrow> 'm"             \<comment> \<open>\<open>matrix.makeScale\<close>\<close>
  th_position :: "'m \<Rightarrow> vec3"                     \<comment> \<open>\<open>vec3.setFromMatrixPosition\<close>\<close>
  th_newMesh :: "nat \<Rightarrow> 'g"                       \<comment> \<open>\<open>new InstancedMesh\<close>\<close>
  th_count :: "'g \<Rightarrow> nat"
  th_setMatrixAt :: "nat \<Rightarrow> 'm \<Rightarrow> 'g \<Rightarrow> 'g"
  th_getMatrixAt :: "'g \<Rightarrow> nat \<Rightarrow> 'm"
  th_setColorAt :: "nat \<Rightarrow> vec3 \<Rightarrow> 'g \<Rightarrow> 'g"
  th_parse :: "bytes \<Rightarrow> cloud throws"             \<comment> \<open>\<open>PCDLoader.parse\<close> and the position attribute, of an array that is all of its buffer\<close>
  th_multiplyScalar :: "vec3 \<Rightarrow> jsnum \<Rightarrow> vec3"
  th_sub :: "jsnum \<times> jsnum \<Rightarrow> jsnum \<times> jsnum \<Rightarrow> jsnum \<times> jsnum"
  th_length :: "jsnum \<times> jsnum \<Rightarrow> jsnum"

section \<open>The state\<close>

text \<open>A segment of the vision service: its cloud and, if present, the geometries with centre and box.\<close>

record cloud_segment =
  sg_pointCloud :: bytes
  sg_geometries :: "(vec3 option \<times> vec3 option option) list option"   \<comment> \<open>centre, box with its dimensions\<close>

record ('sc, 'm, 'g) pcd =
  pc_scene :: 'sc
  pc_matrix :: 'm
  pc_meshes :: "'g list"                     \<comment> \<open>every mesh made so far; \<open>Points i\<close> is the \<open>i\<close>th\<close>
  pc_mesh :: "nat option"
  pc_boxes :: "(vec3 \<times> vec3) list"           \<comment> \<open>every box made so far: its size and position\<close>
  pc_cube :: "nat option"
  pc_displayGrid :: bool
  pc_transformEnabled :: bool
  pc_transformControls :: bool               \<comment> \<open>\<open>transformControls.enabled\<close>\<close>
  pc_transformMode :: string
  pc_controls :: bool                        \<comment> \<open>\<open>controls.enabled\<close>\<close>
  pc_click :: vec3
  pc_sphere :: vec3
  pc_sphereScale :: jsnum
  pc_mousedown :: "jsnum \<times> jsnum"
  pc_objects :: "cloud_segment list"
  pc_download :: "bytes option"
  pc_animating :: bool

record pcd_props =
  pp_resources :: "resource_name list"
  pp_cameraName :: "string option"

definition pcd_init :: "('sc, 'm, 'g) three \<Rightarrow> 'sc \<Rightarrow> 'm \<Rightarrow> ('sc, 'm, 'g) pcd" where
  "pcd_init T scene matrix =
     \<lparr>pc_scene = th_add T GridHelper (th_add T Sphere (th_add T Ambient scene)), pc_matrix = matrix, pc_meshes = [],
      pc_mesh = None, pc_boxes = [], pc_cube = None, pc_displayGrid = True, pc_transformEnabled = False,
      pc_transformControls = False, pc_transformMode = ''translate'', pc_controls = True, pc_click = new_Vector3,
      pc_sphere = new_Vector3, pc_sphereScale = Fin 1, pc_mousedown = (Fin 0, Fin 0), pc_objects = [], pc_download = None,
      pc_animating = False\<rparr>"

type_synonym 's raising = "'s \<times> js_error option"

definition andThen :: "'s raising \<Rightarrow> ('s \<Rightarrow> 's raising) \<Rightarrow> 's raising" where
  "andThen r f = (case snd r of None \<Rightarrow> f (fst r) | Some e \<Rightarrow> r)"

section \<open>Points and boxes\<close>

definition scaled_mm :: "jsnum \<Rightarrow> jsnum" where
  "scaled_mm x = math_round (num_mul x (Fin 1000))"

definition setPoint :: "vec3 \<Rightarrow> ('sc, 'm, 'g) pcd \<Rightarrow> ('sc, 'm, 'g) pcd" where
  "setPoint point s =
     s\<lparr>pc_click := \<lparr>v_x = scaled_mm (v_x point), v_y = scaled_mm (v_y point), v_z = scaled_mm (v_z point)\<rparr>, pc_sphere := point\<rparr>"

definition div1000 :: "vec3 \<Rightarrow> vec3" where
  "div1000 d = \<lparr>v_x = num_div (v_x d) (Fin 1000), v_y = num_div (v_y d) (Fin 1000), v_z = num_div (v_z d) (Fin 1000)\<rparr>"

definition setBoundingBox ::
  "('sc, 'm, 'g) three \<Rightarrow> vec3 option option \<Rightarrow> vec3 \<Rightarrow> ('sc, 'm, 'g) pcd \<Rightarrow> ('sc, 'm, 'g) pcd raising" where
  "setBoundingBox T box centerPoint s =
     (case box of
        Some (Some dims) \<Rightarrow>
          (let i = length (pc_boxes s);
               scene = (case th_named T ''bounding-box'' (pc_scene s) of
                   None \<Rightarrow> pc_scene s | Some previousBox \<Rightarrow> th_remove T previousBox (pc_scene s))
           in (s\<lparr>pc_boxes := pc_boxes s @ [(div1000 dims, centerPoint)], pc_cube := Some i, pc_scene := th_add T (Box i) scene\<rparr>, None))
      | _ \<Rightarrow> (s, Some TypeError))"

section \<open>Loading a cloud\<close>

definition default_color :: vec3 where
  "default_color = \<lparr>v_x = num_of (3 / 10), v_y = num_of (1 / 2), v_z = num_of (7 / 10)\<rparr>"

definition color_at :: "vec3 list option \<Rightarrow> nat \<Rightarrow> vec3" where
  "color_at cs k =
     (case cs of
        None \<Rightarrow> default_color
      | Some xs \<Rightarrow> if k < length xs then xs ! k else \<lparr>v_x = NaN, v_y = NaN, v_z = NaN\<rparr>)"

text \<open>The loop: one matrix for all points, whose position is set for each of them.\<close>

fun load_points :: "('sc, 'm, 'g) three \<Rightarrow> vec3 list option \<Rightarrow> nat \<Rightarrow> vec3 list \<Rightarrow> 'm \<times> 'g \<Rightarrow> 'm \<times> 'g" where
  "load_points T cs k [] mg = mg"
| "load_points T cs k (p # ps) (m, g) =
     (let m' = th_setPosition T m p
      in load_points T cs (Suc k) ps (m', th_setColorAt T k (color_at cs k) (th_setMatrixAt T k m' g)))"

definition pcd_update :: "('sc, 'm, 'g) three \<Rightarrow> bytes \<Rightarrow> ('sc, 'm, 'g) pcd \<Rightarrow> ('sc, 'm, 'g) pcd raising" where
  "pcd_update T cl s =
     (let s1 = (case pc_mesh s of None \<Rightarrow> s | Some i \<Rightarrow> s\<lparr>pc_scene := th_remove T (Points i) (pc_scene s)\<rparr>)
      in case th_parse T cl of
           Inl e \<Rightarrow> (s1, Some e)
         | Inr points \<Rightarrow>
             (let i = length (pc_meshes s);
                  (m, g) = load_points T (cl_colors points) 0 (cl_positions points)
                    (pc_matrix s1, th_newMesh T (length (cl_positions points)));
                  scene = th_add T (Points i) (pc_scene s1)
              in (s1\<lparr>pc_matrix := m, pc_meshes := pc_meshes s @ [g], pc_mesh := Some i,
                    pc_scene := (case pc_cube s of None \<Rightarrow> scene | Some b \<Rightarrow> th_add T (Box b) scene)\<rparr>, None)))"

definition pcd_load :: "('sc, 'm, 'g) three \<Rightarrow> bytes \<Rightarrow> ('sc, 'm, 'g) pcd \<Rightarrow> ('sc, 'm, 'g) pcd raising" where
  "pcd_load T pointcloud s = andThen (pcd_update T pointcloud s) (\<lambda>s. (s\<lparr>pc_download := Some pointcloud\<rparr>, None))"

section \<open>Segments\<close>

definition segment_center :: "('sc, 'm, 'g) three \<Rightarrow> cloud_segment \<Rightarrow> (vec3 \<times> vec3 option option) throws" where
  "segment_center T sg =
     (case sg_geometries sg of
        Some ((Some center, box) # _) \<Rightarrow> Inr (th_multiplyScalar T center (num_div (Fin 1) (Fin 1000)), box)
      | _ \<Rightarrow> Inl TypeError)"

definition segment_at :: "nat \<Rightarrow> ('sc, 'm, 'g) pcd \<Rightarrow> cloud_segment option" where
  "segment_at i s = (if i < length (pc_objects s) then Some (pc_objects s ! i) else None)"

definition not_found :: effect where
  "not_found = ToastError ''Segment cannot be found.''"

definition raised :: "js_error option \<Rightarrow> effect list" where
  "raised e = (case e of None \<Rightarrow> [] | Some x \<Rightarrow> [Uncaught x])"

text \<open>\<open>loadSegment\<close> reports a missing segment but goes on to read it.\<close>

definition loadSegment :: "('sc, 'm, 'g) three \<Rightarrow> nat \<Rightarrow> ('sc, 'm, 'g) pcd \<Rightarrow> ('sc, 'm, 'g) pcd \<times> effect list" where
  "loadSegment T i s =
     (case segment_at i s of
        None \<Rightarrow> (s, [not_found, Uncaught TypeError])
      | Some sg \<Rightarrow>
          (case segment_center T sg of
             Inl e \<Rightarrow> (s, [Uncaught e])
           | Inr (point, box) \<Rightarrow>
               (let (s', e) = andThen (setBoundingBox T box point (setPoint point s)) (pcd_update T (sg_pointCloud sg))
                in (s', raised e))))"

definition loadBoundingBox :: "('sc, 'm, 'g) three \<Rightarrow> nat \<Rightarrow> ('sc, 'm, 'g) pcd \<Rightarrow> ('sc, 'm, 'g) pcd \<times> effect list" where
  "loadBoundingBox T i s =
     (case segment_at i s of
        None \<Rightarrow> (s, [not_found])
      | Some sg \<Rightarrow>
          (case segment_center T sg of
             Inl e \<Rightarrow> (s, [Uncaught e])
           | Inr (point, box) \<Rightarrow> (let (s', e) = setBoundingBox T box point s in (s', raised e))))"

definition loadPoint :: "('sc, 'm, 'g) three \<Rightarrow> nat \<Rightarrow> ('sc, 'm, 'g) pcd \<Rightarrow> ('sc, 'm, 'g) pcd \<times> effect list" where
  "loadPoint T i s =
     (case segment_at i s of
        None \<Rightarrow> (s, [not_found])
      | Some sg \<Rightarrow>
          (case segment_center T sg of
             Inl e \<Rightarrow> (s, [Uncaught e])
           | Inr (point, box) \<Rightarrow> (setPoint point s, [])))"

definition handleSelectObject :: "('sc, 'm, 'g) three \<Rightarrow> string \<Rightarrow> ('sc, 'm, 'g) pcd \<Rightarrow> ('sc, 'm, 'g) pcd \<times> effect list" where
  "handleSelectObject T selection s =
     (if selection = ''Center Point'' then loadSegment T 0 s
      else if selection = ''Bounding Box'' then loadBoundingBox T 1 s
      else if selection = ''Cropped'' then loadPoint T 2 s
      else (s, []))"


section \<open>The mouse\<close>

record mouse_event =
  me_clientX :: jsnum
  me_clientY :: jsnum
  me_left :: jsnum                           \<comment> \<open>\<open>rect.left\<close>\<close>
  me_top :: jsnum
  me_width :: jsnum                          \<comment> \<open>\<open>canvas.width\<close>\<close>
  me_height :: jsnum
  me_devicePixelRatio :: jsnum
  me_intersect :: "jsnum \<times> jsnum \<Rightarrow> obj option \<Rightarrow> nat option throws"   \<comment> \<open>the instance the raycaster hits first\<close>

definition getMouseNormalizedDeviceCoordinates :: "mouse_event \<Rightarrow> jsnum \<times> jsnum" where
  "getMouseNormalizedDeviceCoordinates e =
     (num_sub (num_mul (num_mul (num_div (num_sub (me_clientX e) (me_left e)) (me_width e)) (me_devicePixelRatio e)) (Fin 2)) (Fin 1),
      num_add (num_mul (num_neg (num_mul (num_div (num_sub (me_clientY e) (me_top e)) (me_height e)) (me_devicePixelRatio e))) (Fin 2)) (Fin 1))"

definition epsilon :: jsnum where
  "epsilon = Fin 10"

definition handleCanvasMouseDown :: "jsnum \<Rightarrow> jsnum \<Rightarrow> ('sc, 'm, 'g) pcd \<Rightarrow> ('sc, 'm, 'g) pcd" where
  "handleCanvasMouseDown x y s = (if pc_controls s then s\<lparr>pc_mousedown := (x, y)\<rparr> else s)"

text \<open>\<open>mousedown.sub\<close> changes the stored position.\<close>

definition handleCanvasMouseUp :: "('sc, 'm, 'g) three \<Rightarrow> mouse_event \<Rightarrow> ('sc, 'm, 'g) pcd \<Rightarrow> ('sc, 'm, 'g) pcd \<times> effect list" where
  "handleCanvasMouseUp T e s =
     (if \<not> pc_controls s then (s, [])
      else (let moved = th_sub T (pc_mousedown s) (me_clientX e, me_clientY e); s1 = s\<lparr>pc_mousedown := moved\<rparr>
            in if num_less epsilon (th_length T moved) then (s1, [])
               else (let points = th_named T ''points'' (pc_scene s1)
                     in case me_intersect e (getMouseNormalizedDeviceCoordinates e) points of
                          Inl x \<Rightarrow> (s1, [Uncaught x])
                        | Inr None \<Rightarrow> (s1, [ToastInfo ''No point intersected.''])
                        | Inr (Some k) \<Rightarrow>
                            (case points of
                               Some (Points i) \<Rightarrow>
                                 (let m = th_getMatrixAt T (pc_meshes s1 ! i) k
                                  in (setPoint (th_position T m) (s1\<lparr>pc_matrix := m\<rparr>), []))
                             | _ \<Rightarrow> (s1, [Uncaught TypeError])))))"

section \<open>Moving the gripper\<close>

definition handleMove :: "pcd_props \<Rightarrow> ('sc, 'm, 'g) pcd \<Rightarrow> effect list" where
  "handleMove props s =
     (case filterResources (pp_resources props) ''rdk'' ''component'' ''gripper'' of
        [] \<Rightarrow> [ToastError ''No gripper component detected.'']
      | gripper # _ \<Rightarrow>
          (case filterResources (pp_resources props) ''rdk'' ''service'' ''motion'' of
             [] \<Rightarrow> [ToastError ''No motion service detected.'']
           | motion # _ \<Rightarrow>
               [Call (MotionReq (Move (rn_name motion)
                  \<lparr>rn_namespace = rn_namespace gripper, rn_type = rn_type gripper, rn_subtype = rn_subtype gripper,
                   rn_name = rn_name gripper\<rparr> (pp_cameraName props) (pc_click s)))]))"

definition handleMove_done :: "(service_error \<Rightarrow> string) \<Rightarrow> service_error + bool \<Rightarrow> effect list" where
  "handleMove_done errText r =
     (case r of
        Inl e \<Rightarrow> [ToastError (''Error moving: '' @ errText e)]
      | Inr b \<Rightarrow> [ToastSuccess (''Move success: '' @ (if b then ''true'' else ''false''))])"

section \<open>The controls\<close>

definition handleCenter :: "('sc, 'm, 'g) pcd \<Rightarrow> ('sc, 'm, 'g) pcd" where
  "handleCenter s = setPoint new_Vector3 s"

definition handleToggleGrid :: "('sc, 'm, 'g) three \<Rightarrow> ('sc, 'm, 'g) pcd \<Rightarrow> ('sc, 'm, 'g) pcd" where
  "handleToggleGrid T s =
     s\<lparr>pc_scene := (if pc_displayGrid s then th_remove T GridHelper (pc_scene s) else th_add T GridHelper (pc_scene s)),
       pc_displayGrid := \<not> pc_displayGrid s\<rparr>"

definition handleToggleTransformControls :: "('sc, 'm, 'g) three \<Rightarrow> ('sc, 'm, 'g) pcd \<Rightarrow> ('sc, 'm, 'g) pcd" where
  "handleToggleTransformControls T s =
     (let on = (\<not> pc_transformControls s)
      in s\<lparr>pc_transformControls := on, pc_transformEnabled := on,
           pc_scene := (if on then th_add T Controls (pc_scene s) else th_remove T Controls (pc_scene s))\<rparr>)"

definition handleTransformModeChange :: "string \<Rightarrow> ('sc, 'm, 'g) pcd \<Rightarrow> ('sc, 'm, 'g) pcd" where
  "handleTransformModeChange value s = s\<lparr>pc_transformMode := toLowerCase value\<rparr>"

text \<open>The listener of the transform controls: no orbiting while a handle is dragged.\<close>

definition dragging_changed :: "bool \<Rightarrow> ('sc, 'm, 'g) pcd \<Rightarrow> ('sc, 'm, 'g) pcd" where
  "dragging_changed value s = s\<lparr>pc_controls := \<not> value\<rparr>"

fun resize_points :: "('sc, 'm, 'g) three \<Rightarrow> jsnum \<Rightarrow> nat \<Rightarrow> nat \<Rightarrow> 'm \<times> 'g \<Rightarrow> 'm \<times> 'g" where
  "resize_points T scale 0 i mg = mg"
| "resize_points T scale (Suc n) i (m, g) =
     (let m' = th_setPosition T (th_makeScale T scale (th_getMatrixAt T g i)) (th_position T (th_getMatrixAt T g i))
      in resize_points T scale n (Suc i) (m', th_setMatrixAt T i m' g))"

definition handlePointsResize :: "('sc, 'm, 'g) three \<Rightarrow> jsnum \<Rightarrow> ('sc, 'm, 'g) pcd \<Rightarrow> ('sc, 'm, 'g) pcd raising" where
  "handlePointsResize T scale s =
     (case th_named T ''points'' (pc_scene s) of
        Some (Points i) \<Rightarrow>
          (let (m, g) = resize_points T scale (th_count T (pc_meshes s ! i)) 0 (pc_matrix s, pc_meshes s ! i)
           in (s\<lparr>pc_matrix := m, pc_meshes := (pc_meshes s)[i := g], pc_sphereScale := scale\<rparr>, None))
      | _ \<Rightarrow> (s, Some TypeError))"

section \<open>Drawing\<close>

text \<open>\<open>Math.trunc\<close>.\<close>

fun math_trunc :: "jsnum \<Rightarrow> jsnum" where
  "math_trunc (Fin q) =
     (let n = (if 0 \<le> q then \<lfloor>q\<rfloor> else \<lceil>q\<rceil>) in if n = 0 \<and> q < 0 then NegZero else Fin (of_int n))"
| "math_trunc x = x"

record canvas =
  cv_width :: jsnum
  cv_height :: jsnum
  cv_clientWidth :: jsnum
  cv_clientHeight :: jsnum

text \<open>The new size of the drawing buffer and the new aspect ratio, if a resize is needed.\<close>

definition resizeRendererToDisplaySize :: "jsnum \<Rightarrow> canvas \<Rightarrow> ((jsnum \<times> jsnum) \<times> jsnum) option" where
  "resizeRendererToDisplaySize pixelRatio c =
     (let width = math_trunc (num_mul (cv_clientWidth c) pixelRatio); height = math_trunc (num_mul (cv_clientHeight c) pixelRatio)
      in if \<not> num_eq (cv_width c) width \<or> \<not> num_eq (cv_height c) height
         then Some ((width, height), num_div (cv_clientWidth c) (cv_clientHeight c)) else None)"

text \<open>The shown distance; \<open>x ** 2\<close> is the rounded product, and \<open>|| 0\<close> replaces a result that is not a number.\<close>

definition distanceFromCamera :: "vec3 \<Rightarrow> jsnum" where
  "distanceFromCamera click =
     (let d = math_round (math_sqrt (num_add (num_add (num_mul (v_x click) (v_x click)) (num_mul (v_y click) (v_y click)))
            (num_mul (v_z click) (v_z click))))
      in if num_truthy d then d else Fin 0)"

text \<open>The fields that show the selected point, and the line below them.\<close>

definition pcd_readout :: "('sc, 'm, 'g) pcd \<Rightarrow> (string \<times> string) list \<times> string" where
  "pcd_readout s =
     ([(''X'', num_to_string (v_x (pc_click s))), (''Y'', num_to_string (v_y (pc_click s))),
       (''Z'', num_to_string (v_z (pc_click s)))],
      ''Distance From Camera: '' @ num_to_string (distanceFromCamera (pc_click s)) @ ''mm'')"

section \<open>Events\<close>

datatype pcd_event =
    PcMounted "bytes option"
  | PcUnmounted
  | PcCloud "bytes option"                   \<comment> \<open>the watched \<open>pointcloud\<close> prop changes\<close>
  | PcMouseDown jsnum jsnum
  | PcMouseUp mouse_event
  | PcMove
  | PcMoved "service_error + bool"
  | PcCenter
  | PcSelectObject string
  | PcToggleGrid
  | PcToggleTransform
  | PcTransformMode string
  | PcDragging bool
  | PcResize jsnum

definition load_option :: "('sc, 'm, 'g) three \<Rightarrow> bytes option \<Rightarrow> ('sc, 'm, 'g) pcd \<Rightarrow> ('sc, 'm, 'g) pcd \<times> effect list" where
  "load_option T b s = (case b of None \<Rightarrow> (s, []) | Some cl \<Rightarrow> (let (s', e) = pcd_load T cl s in (s', raised e)))"

text \<open>The radio of the transform modes is on the page only while the controls are enabled.\<close>

fun pcd_handle ::
  "('sc, 'm, 'g) three \<Rightarrow> (service_error \<Rightarrow> string) \<Rightarrow> pcd_props \<Rightarrow> (('sc, 'm, 'g) pcd, pcd_event, effect) handler" where
  "pcd_handle T et props s (PcMounted b) = load_option T b (s\<lparr>pc_animating := True\<rparr>)"
| "pcd_handle T et props s PcUnmounted = (s\<lparr>pc_animating := False\<rparr>, [])"
| "pcd_handle T et props s (PcCloud b) = load_option T b s"
| "pcd_handle T et props s (PcMouseDown x y) = (handleCanvasMouseDown x y s, [])"
| "pcd_handle T et props s (PcMouseUp e) = handleCanvasMouseUp T e s"
| "pcd_handle T et props s PcMove = (s, handleMove props s)"
| "pcd_handle T et props s (PcMoved r) = (s, handleMove_done et r)"
| "pcd_handle T et props s PcCenter = (handleCenter s, [])"
| "pcd_handle T et props s (PcSelectObject x) = handleSelectObject T x s"
| "pcd_handle T et props s PcToggleGrid = (handleToggleGrid T s, [])"
| "pcd_handle T et props s PcToggleTransform = (handleToggleTransformControls T s, [])"
| "pcd_handle T et props s (PcTransformMode v) = (if pc_transformEnabled s then handleTransformModeChange v s else s, [])"
| "pcd_handle T et props s (PcDragging v) = (dragging_changed v s, [])"
| "pcd_handle T et props s (PcResize x) = (let (s', e) = handlePointsResize T x s in (s', raised e))"

end
