(* ===== verification/Js_Float32.thy ===== *)
theory Js_Float32
  imports Js_Number
begin

text \<open>
  \<open>Math.fround\<close>: the rounding of a number to single precision, as the elements of a \<open>Float32Array\<close>
  store it (24 bits of significand, smallest exponent -149). Storing a stored number again changes
  nothing.
\<close>

definition quantum32 :: "rat \<Rightarrow> int" where
  "quantum32 q = max (rlog2 \<bar>q\<bar> - 23) (- 149)"

definition rnd32 :: "rat \<Rightarrow> rat" where
  "rnd32 q = (if q = 0 then 0 else of_int (rne (q / 2 powi quantum32 q)) * 2 powi quantum32 q)"

fun fround :: "jsnum \<Rightarrow> jsnum" where
  "fround (Fin q) =
     (let r = rnd32 q
      in if r = 0 then (if q < 0 then NegZero else Fin 0) else if 2 ^ 128 \<le> \<bar>r\<bar> then Inf (r < 0) else Fin r)"
| "fround x = x"

lemma rnd32_multiple: "quantum32 q \<le> e \<Longrightarrow> q = of_int m * 2 powi e \<Longrightarrow> rnd32 q = q"
proof -
  assume e: "quantum32 q \<le> e" and q: "q = of_int m * 2 powi e"
  show ?thesis
  proof (cases "q = 0")
    case False
    define d where "d = quantum32 q"
    define n where "n = nat (e - d)"
    have "2 powi e = 2 powi d * (2::rat) powi (e - d)" by (simp add: powi2_add [symmetric])
    also have "(2::rat) powi (e - d) = 2 ^ n" using e by (simp add: power_int_def n_def d_def)
    finally have "q = of_int (m * 2 ^ n) * 2 powi d" using q by simp
    then have "q / 2 powi d = of_int (m * 2 ^ n)" by simp
    then have "q / 2 powi quantum32 q = of_int (m * 2 ^ nat (e - quantum32 q))" by (simp only: n_def d_def)
    then have "rnd32 q = of_int (m * 2 ^ nat (e - quantum32 q)) * 2 powi quantum32 q"
      using False by (simp only: rnd32_def rne_of_int if_False)
    then show ?thesis using \<open>q / 2 powi quantum32 q = _\<close> by (simp add: field_simps)
  qed (simp add: rnd32_def)
qed

lemma rnd32_idem: "rnd32 (rnd32 q) = rnd32 q"
proof (cases "rnd32 q = 0")
  case nz: False
  then have q: "q \<noteq> 0" by (auto simp: rnd32_def)
  define d where "d = quantum32 q"
  define m where "m = rne (q / 2 powi d)"
  have r: "rnd32 q = of_int m * 2 powi d" using q by (simp add: rnd32_def m_def d_def)
  have d: "- 149 \<le> d" by (simp add: d_def quantum32_def)
  have "rlog2 \<bar>q\<bar> + 1 \<le> d + 24" by (simp add: d_def quantum32_def)
  then have "\<bar>q\<bar> \<le> 2 powi (d + 24)" using rlog2_bounds(2) [of "\<bar>q\<bar>"] powi2_mono q by fastforce
  then have "\<bar>q / 2 powi d\<bar> \<le> of_int (2 ^ 24)" by (simp add: powi2_add abs_divide divide_le_eq mult.commute)
  then have m: "\<bar>m\<bar> \<le> 2 ^ 24" unfolding m_def by (rule rne_bound)
  show ?thesis
  proof (cases "\<bar>m\<bar> < 2 ^ 24")
    case True
    then have "\<bar>of_int m :: rat\<bar> < 2 ^ 24" by (metis of_int_abs of_int_less_iff of_int_numeral of_int_power)
    then have "\<bar>rnd32 q\<bar> < 2 powi (d + 24)" unfolding r by (simp add: abs_mult powi2_add mult.commute)
    then have "rlog2 \<bar>rnd32 q\<bar> < d + 24" using nz by (intro rlog2_less) auto
    then have "quantum32 (rnd32 q) \<le> d" using d by (simp add: quantum32_def)
    then show ?thesis using r by (rule rnd32_multiple)
  next
    case False
    then obtain s :: int where s: "m = s * 2 ^ 24" "\<bar>s\<bar> = 1" using m by (intro that [of "sgn m"]) (auto simp: sgn_if)
    then have r': "rnd32 q = of_int s * 2 powi (d + 24)" unfolding r by (simp add: powi2_add mult.commute)
    have "\<bar>of_int s :: rat\<bar> = 1" using s(2) by (metis of_int_1 of_int_abs)
    then have "\<bar>rnd32 q\<bar> < 2 powi (d + 25)" unfolding r' by (simp add: abs_mult powi2_add)
    then have "rlog2 \<bar>rnd32 q\<bar> < d + 25" using nz by (intro rlog2_less) auto
    then have "quantum32 (rnd32 q) \<le> d + 24" using d by (simp add: quantum32_def)
    then show ?thesis using r' by (rule rnd32_multiple)
  qed
qed (simp add: rnd32_def)

lemma fround_idem: "fround (fround x) = fround x"
proof (cases x)
  case (Fin q)
  then show ?thesis using rnd32_idem [of q] by (auto simp: Let_def rnd32_def [of 0])
qed auto

end
