(* ===== verification/Pcd_Laws.thy ===== *)
theory Pcd_Laws
  imports Pcd Js_Float32
begin

text \<open>
  What the point cloud viewer does, given the documented behaviour of three.js. The locale
  \<open>three_laws\<close> states that behaviour over the record of operations: a scene is the set of its
  objects, a matrix has a position and a scale, and an instanced mesh stores matrices in single
  precision. \<open>demo_three\<close> is an implementation of the laws with lists and pairs.
\<close>

section \<open>What the page shows\<close>

definition round3 :: "(jsnum \<Rightarrow> jsnum) \<Rightarrow> vec3 \<Rightarrow> vec3" where
  "round3 f v = \<lparr>v_x = f (v_x v), v_y = f (v_y v), v_z = f (v_z v)\<rparr>"

text \<open>
  The scene shows at most the current cloud and the current box, and the grid and the transform
  handles exactly when their flags say so.
\<close>

definition scene_ok :: "('sc \<Rightarrow> obj set) \<Rightarrow> ('sc, 'm, 'g) pcd \<Rightarrow> bool" where
  "scene_ok objs s \<longleftrightarrow>
     (\<forall>i. Points i \<in> objs (pc_scene s) \<longrightarrow> pc_mesh s = Some i) \<and> (\<forall>i. pc_mesh s = Some i \<longrightarrow> i < length (pc_meshes s)) \<and>
     (\<forall>b. Box b \<in> objs (pc_scene s) \<longrightarrow> pc_cube s = Some b) \<and>
     (GridHelper \<in> objs (pc_scene s) \<longleftrightarrow> pc_displayGrid s) \<and>
     (Controls \<in> objs (pc_scene s) \<longleftrightarrow> pc_transformControls s) \<and> pc_transformEnabled s = pc_transformControls s"

text \<open>The scene shows a cloud at a scale: the current mesh is on it and has the points, in single precision.\<close>

definition shows_cloud ::
  "('sc, 'm, 'g) three \<Rightarrow> ('sc \<Rightarrow> obj set) \<Rightarrow> ('m \<Rightarrow> jsnum) \<Rightarrow> (jsnum \<Rightarrow> jsnum) \<Rightarrow> cloud \<Rightarrow> jsnum \<Rightarrow> ('sc, 'm, 'g) pcd \<Rightarrow> bool" where
  "shows_cloud T objs scale_of store c z s \<longleftrightarrow> (\<exists>i. pc_mesh s = Some i \<and> Points i \<in> objs (pc_scene s) \<and>
     th_count T (pc_meshes s ! i) = length (cl_positions c) \<and>
     (\<forall>k < length (cl_positions c). th_position T (th_getMatrixAt T (pc_meshes s ! i) k) = round3 store (cl_positions c ! k) \<and>
        scale_of (th_getMatrixAt T (pc_meshes s ! i) k) = store z))"

section \<open>The laws of the library\<close>

locale three_laws =
  fixes T :: "('sc, 'm, 'g) three" and objs :: "'sc \<Rightarrow> obj set" and scale_of :: "'m \<Rightarrow> jsnum" and store :: "jsnum \<Rightarrow> jsnum"
  assumes objs_add: "objs (th_add T x sc) = insert x (objs sc)"
    and objs_remove: "objs (th_remove T x sc) = objs sc - {x}"
    and named_Some: "th_named T nm sc = Some x \<Longrightarrow> x \<in> objs sc \<and> obj_name x = nm"
    and named_None: "th_named T nm sc = None \<Longrightarrow> x \<in> objs sc \<Longrightarrow> obj_name x \<noteq> nm"
    and position_set: "th_position T (th_setPosition T m p) = p"
    and scale_set: "scale_of (th_setPosition T m p) = scale_of m"
    and scale_make: "scale_of (th_makeScale T z m) = z"
    and count_new: "th_count T (th_newMesh T n) = n"
    and count_set: "th_count T (th_setMatrixAt T i m g) = th_count T g"
    and count_color: "th_count T (th_setColorAt T i c g) = th_count T g"
    and get_color: "th_getMatrixAt T (th_setColorAt T i c g) j = th_getMatrixAt T g j"
    and get_other: "i \<noteq> j \<Longrightarrow> th_getMatrixAt T (th_setMatrixAt T i m g) j = th_getMatrixAt T g j"
    and position_get: "i < th_count T g \<Longrightarrow>
      th_position T (th_getMatrixAt T (th_setMatrixAt T i m g) i) = round3 store (th_position T m)"
    and scale_get: "i < th_count T g \<Longrightarrow> scale_of (th_getMatrixAt T (th_setMatrixAt T i m g) i) = store (scale_of m)"
    and store_idem: "store (store z) = store z"
begin

lemma round3_idem: "round3 store (round3 store v) = round3 store v"
  by (simp add: round3_def store_idem)

text \<open>Loading writes every point, at the scale the matrix has, and no other.\<close>

lemma load_points_spec:
  assumes "load_points T cs k ps (m, g) = (m', g')" "k + length ps \<le> th_count T g"
  shows "th_count T g' = th_count T g" "scale_of m' = scale_of m"
    "j < k \<Longrightarrow> th_getMatrixAt T g' j = th_getMatrixAt T g j"
    "j < length ps \<Longrightarrow> th_position T (th_getMatrixAt T g' (k + j)) = round3 store (ps ! j)"
    "j < length ps \<Longrightarrow> scale_of (th_getMatrixAt T g' (k + j)) = store (scale_of m)"
proof -
  have "th_count T g' = th_count T g \<and> scale_of m' = scale_of m \<and>
    (\<forall>j < k. th_getMatrixAt T g' j = th_getMatrixAt T g j) \<and>
    (\<forall>j < length ps. th_position T (th_getMatrixAt T g' (k + j)) = round3 store (ps ! j) \<and>
       scale_of (th_getMatrixAt T g' (k + j)) = store (scale_of m))"
    using assms
  proof (induction ps arbitrary: k m g)
    case (Cons p ps)
    define m1 where "m1 = th_setPosition T m p"
    define g1 where "g1 = th_setColorAt T k (color_at cs k) (th_setMatrixAt T k m1 g)"
    have st: "load_points T cs (Suc k) ps (m1, g1) = (m', g')" using Cons.prems(1) by (simp add: Let_def m1_def g1_def)
    have c: "th_count T g1 = th_count T g" by (simp add: g1_def count_set count_color)
    have sc: "scale_of m1 = scale_of m" by (simp add: m1_def scale_set)
    note ih = Cons.IH [OF st]
    have ih': "th_count T g' = th_count T g1 \<and> scale_of m' = scale_of m1 \<and>
      (\<forall>j < Suc k. th_getMatrixAt T g' j = th_getMatrixAt T g1 j) \<and>
      (\<forall>j < length ps. th_position T (th_getMatrixAt T g' (Suc k + j)) = round3 store (ps ! j) \<and>
         scale_of (th_getMatrixAt T g' (Suc k + j)) = store (scale_of m1))"
      using Cons.prems(2) c by (intro ih) simp
    have k: "th_position T (th_getMatrixAt T g' k) = round3 store p" "scale_of (th_getMatrixAt T g' k) = store (scale_of m)"
      using ih' Cons.prems(2) sc by (simp_all add: g1_def get_color position_get scale_get m1_def position_set)
    have old: "j < k \<Longrightarrow> th_getMatrixAt T g' j = th_getMatrixAt T g j" for j
      using ih' by (simp add: g1_def get_color get_other)
    have new: "j < length (p # ps) \<Longrightarrow> th_position T (th_getMatrixAt T g' (k + j)) = round3 store ((p # ps) ! j) \<and>
        scale_of (th_getMatrixAt T g' (k + j)) = store (scale_of m)" for j
      using ih' k sc by (cases j) auto
    show ?case using ih' c sc old new by auto
  qed simp
  then show "th_count T g' = th_count T g" "scale_of m' = scale_of m"
    "j < k \<Longrightarrow> th_getMatrixAt T g' j = th_getMatrixAt T g j"
    "j < length ps \<Longrightarrow> th_position T (th_getMatrixAt T g' (k + j)) = round3 store (ps ! j)"
    "j < length ps \<Longrightarrow> scale_of (th_getMatrixAt T g' (k + j)) = store (scale_of m)" by auto
qed

text \<open>Resizing changes the scale of every point and the position of none, up to storing it again.\<close>

lemma resize_points_spec:
  assumes "resize_points T x n i (m, g) = (m', g')" "i + n \<le> th_count T g"
  shows "th_count T g' = th_count T g \<and>
    (\<forall>j. j < i \<or> i + n \<le> j \<longrightarrow> th_getMatrixAt T g' j = th_getMatrixAt T g j) \<and>
    (\<forall>j. i \<le> j \<and> j < i + n \<longrightarrow>
       th_position T (th_getMatrixAt T g' j) = round3 store (th_position T (th_getMatrixAt T g j)) \<and>
       scale_of (th_getMatrixAt T g' j) = store x)"
  using assms
proof (induction n arbitrary: i m g)
  case (Suc n)
  define m1 where "m1 = th_setPosition T (th_makeScale T x (th_getMatrixAt T g i)) (th_position T (th_getMatrixAt T g i))"
  define g1 where "g1 = th_setMatrixAt T i m1 g"
  have st: "resize_points T x n (Suc i) (m1, g1) = (m', g')" using Suc.prems(1) by (simp add: Let_def m1_def g1_def)
  have c: "th_count T g1 = th_count T g" by (simp add: g1_def count_set)
  have "Suc i + n \<le> th_count T g1" using Suc.prems(2) c by simp
  note ih = Suc.IH [OF st this]
  have other: "j \<noteq> i \<Longrightarrow> th_getMatrixAt T g1 j = th_getMatrixAt T g j" for j by (simp add: g1_def get_other)
  have i: "th_position T (th_getMatrixAt T g1 i) = round3 store (th_position T (th_getMatrixAt T g i))"
    "scale_of (th_getMatrixAt T g1 i) = store x"
    using Suc.prems(2) by (simp_all add: g1_def position_get scale_get m1_def position_set scale_set scale_make)
  show ?case
  proof (intro conjI allI impI)
    fix j assume j: "i \<le> j \<and> j < i + Suc n"
    show "th_position T (th_getMatrixAt T g' j) = round3 store (th_position T (th_getMatrixAt T g j))"
      "scale_of (th_getMatrixAt T g' j) = store x"
      using ih i other [of j] j by (cases "j = i"; auto)+
  next
    fix j assume "j < i \<or> i + Suc n \<le> j"
    then show "th_getMatrixAt T g' j = th_getMatrixAt T g j" using ih other [of j] by auto
  qed (use ih c in auto)
qed auto

lemma scene_ok_cong:
  "pc_scene t = pc_scene s \<Longrightarrow> pc_mesh t = pc_mesh s \<Longrightarrow> length (pc_meshes t) = length (pc_meshes s) \<Longrightarrow> pc_cube t = pc_cube s \<Longrightarrow>
   pc_displayGrid t = pc_displayGrid s \<Longrightarrow> pc_transformControls t = pc_transformControls s \<Longrightarrow>
   pc_transformEnabled t = pc_transformEnabled s \<Longrightarrow> scene_ok objs t = scene_ok objs s"
  by (simp only: scene_ok_def)

lemma scene_ok_setPoint: "scene_ok objs (setPoint p s) = scene_ok objs s"
  by (rule scene_ok_cong) (simp_all add: setPoint_def)

lemma scene_ok_box: "scene_ok objs s \<Longrightarrow> scene_ok objs (fst (setBoundingBox T box c s))"
proof (cases "box = None \<or> box = Some None")
  case False
  assume ok: "scene_ok objs s"
  obtain dims where box: "box = Some (Some dims)" using False by (cases box) auto
  let ?i = "length (pc_boxes s)"
  define sc where "sc = (case th_named T ''bounding-box'' (pc_scene s) of None \<Rightarrow> pc_scene s | Some b \<Rightarrow> th_remove T b (pc_scene s))"
  have no_box: "Box b \<notin> objs sc" for b
  proof
    assume b: "Box b \<in> objs sc"
    show False
    proof (cases "th_named T ''bounding-box'' (pc_scene s)")
      case None
      then show ?thesis using named_None [OF None, of "Box b"] b by (simp add: sc_def)
    next
      case (Some x)
      then have x: "x \<in> objs (pc_scene s)" "obj_name x = ''bounding-box''" using named_Some by auto
      then obtain c where "x = Box c" by (cases x) auto
      then have "Box b \<in> objs (pc_scene s)" "b \<noteq> c" using b Some by (auto simp: sc_def objs_remove)
      moreover have "pc_cube s = Some c" using ok x \<open>x = Box c\<close> by (auto simp: scene_ok_def)
      moreover have "Box b \<in> objs (pc_scene s) \<longrightarrow> pc_cube s = Some b" using ok by (auto simp: scene_ok_def)
      ultimately show ?thesis by simp
    qed
  qed
  have other: "y \<in> objs sc \<longleftrightarrow> y \<in> objs (pc_scene s)" if "obj_name y \<noteq> ''bounding-box''" for y
    using that named_Some [of "''bounding-box''" "pc_scene s"] by (auto simp: sc_def objs_remove split: option.splits)
  have "fst (setBoundingBox T box c s) =
      s\<lparr>pc_boxes := pc_boxes s @ [(div1000 dims, c)], pc_cube := Some ?i, pc_scene := th_add T (Box ?i) sc\<rparr>"
    by (simp add: setBoundingBox_def box sc_def Let_def)
  then show ?thesis using ok no_box other [of "Points _"] other [of GridHelper] other [of Controls]
    by (auto simp: scene_ok_def objs_add)
qed (auto simp: setBoundingBox_def split: option.splits)

lemma scene_ok_update: "scene_ok objs s \<Longrightarrow> scene_ok objs (fst (pcd_update T cl s))"
proof -
  assume ok: "scene_ok objs s"
  define s1 where "s1 = (case pc_mesh s of None \<Rightarrow> s | Some i \<Rightarrow> s\<lparr>pc_scene := th_remove T (Points i) (pc_scene s)\<rparr>)"
  have s1: "pc_mesh s1 = pc_mesh s" "pc_meshes s1 = pc_meshes s" "pc_cube s1 = pc_cube s" "pc_displayGrid s1 = pc_displayGrid s"
    "pc_transformControls s1 = pc_transformControls s" "pc_transformEnabled s1 = pc_transformEnabled s"
    by (simp_all add: s1_def split: option.splits)
  have no: "Points i \<notin> objs (pc_scene s1)" for i
    using ok by (auto simp: s1_def scene_ok_def objs_remove split: option.splits)
  have other: "(\<forall>i. y \<noteq> Points i) \<Longrightarrow> y \<in> objs (pc_scene s1) \<longleftrightarrow> y \<in> objs (pc_scene s)" for y
    by (auto simp: s1_def objs_remove split: option.splits)
  have ok1: "scene_ok objs s1" using ok no other by (auto simp: scene_ok_def s1)
  show ?thesis
  proof (cases "th_parse T cl")
    case (Inl e)
    then show ?thesis using ok1 by (simp add: pcd_update_def s1_def Let_def)
  next
    case (Inr p)
    obtain m g where mg: "load_points T (cl_colors p) 0 (cl_positions p) (pc_matrix s1, th_newMesh T (length (cl_positions p))) = (m, g)"
      by fastforce
    have "fst (pcd_update T cl s) = s1\<lparr>pc_matrix := m, pc_meshes := pc_meshes s @ [g], pc_mesh := Some (length (pc_meshes s)),
        pc_scene := (case pc_cube s of None \<Rightarrow> th_add T (Points (length (pc_meshes s))) (pc_scene s1)
          | Some b \<Rightarrow> th_add T (Box b) (th_add T (Points (length (pc_meshes s))) (pc_scene s1)))\<rparr>"
      using Inr mg by (simp add: pcd_update_def s1_def [symmetric] Let_def)
    then show ?thesis using ok1 no by (auto simp: scene_ok_def s1 objs_add split: option.splits)
  qed
qed

text \<open>Every stored point is representable in a mesh.\<close>

definition meshes_ok :: "('sc, 'm, 'g) pcd \<Rightarrow> bool" where
  "meshes_ok s \<longleftrightarrow> (\<forall>g \<in> set (pc_meshes s). \<forall>k < th_count T g.
     round3 store (th_position T (th_getMatrixAt T g k)) = th_position T (th_getMatrixAt T g k))"

lemma meshes_ok_update: "meshes_ok s \<Longrightarrow> meshes_ok (fst (pcd_update T cl s))"
proof (cases "th_parse T cl")
  case (Inr p)
  assume ok: "meshes_ok s"
  define s1 where "s1 = (case pc_mesh s of None \<Rightarrow> s | Some i \<Rightarrow> s\<lparr>pc_scene := th_remove T (Points i) (pc_scene s)\<rparr>)"
  obtain m g where mg: "load_points T (cl_colors p) 0 (cl_positions p) (pc_matrix s1, th_newMesh T (length (cl_positions p))) = (m, g)"
    by fastforce
  have le: "0 + length (cl_positions p) \<le> th_count T (th_newMesh T (length (cl_positions p)))" by (simp add: count_new)
  have "round3 store (th_position T (th_getMatrixAt T g k)) = th_position T (th_getMatrixAt T g k)" if "k < th_count T g" for k
    using load_points_spec(1) [OF mg le] load_points_spec(4) [OF mg le, of k] that by (simp add: count_new round3_idem)
  moreover have "pc_meshes (fst (pcd_update T cl s)) = pc_meshes s @ [g]"
    using Inr mg by (simp add: pcd_update_def s1_def [symmetric] Let_def)
  ultimately show ?thesis using ok by (auto simp: meshes_ok_def)
qed (auto simp: pcd_update_def meshes_ok_def split: option.splits)

lemma named_points:
  assumes "scene_ok objs s" "th_named T ''points'' (pc_scene s) = Some (Points i)"
  shows "pc_mesh s = Some i \<and> i < length (pc_meshes s)"
  using assms named_Some [OF assms(2)] by (auto simp: scene_ok_def)

lemma meshes_ok_resize:
  assumes "scene_ok objs s" "meshes_ok s"
  shows "meshes_ok (fst (handlePointsResize T x s))"
proof (cases "\<exists>i. th_named T ''points'' (pc_scene s) = Some (Points i)")
  case True
  then obtain i where i: "th_named T ''points'' (pc_scene s) = Some (Points i)" by blast
  let ?g = "pc_meshes s ! i"
  obtain m g where mg: "resize_points T x (th_count T ?g) 0 (pc_matrix s, ?g) = (m, g)" by fastforce
  have "round3 store (th_position T (th_getMatrixAt T g k)) = th_position T (th_getMatrixAt T g k)" if "k < th_count T g" for k
    using resize_points_spec [OF mg] that by (simp add: round3_idem)
  moreover have "pc_meshes (fst (handlePointsResize T x s)) = (pc_meshes s)[i := g]"
    using i mg by (simp add: handlePointsResize_def)
  ultimately show ?thesis using assms(2) set_update_subset_insert [of "pc_meshes s" i g] by (auto simp: meshes_ok_def)
qed (use assms in \<open>auto simp: handlePointsResize_def split: option.splits obj.splits\<close>)

definition pcd_ok :: "('sc, 'm, 'g) pcd \<Rightarrow> bool" where
  "pcd_ok s \<longleftrightarrow> scene_ok objs s \<and> meshes_ok s"

lemma pcd_ok_cong:
  "pc_scene t = pc_scene s \<Longrightarrow> pc_mesh t = pc_mesh s \<Longrightarrow> pc_meshes t = pc_meshes s \<Longrightarrow> pc_cube t = pc_cube s \<Longrightarrow>
   pc_displayGrid t = pc_displayGrid s \<Longrightarrow> pc_transformControls t = pc_transformControls s \<Longrightarrow>
   pc_transformEnabled t = pc_transformEnabled s \<Longrightarrow> pcd_ok t = pcd_ok s"
  using scene_ok_cong [of t s] by (simp add: pcd_ok_def meshes_ok_def)

lemma pcd_ok_ops:
  assumes "pcd_ok s"
  shows "pcd_ok (setPoint p s)" "pcd_ok (fst (setBoundingBox T box c s))" "pcd_ok (fst (pcd_update T cl s))"
    "pcd_ok (fst (handlePointsResize T x s))" "pcd_ok (handleToggleGrid T s)" "pcd_ok (handleToggleTransformControls T s)"
proof -
  show "pcd_ok (setPoint p s)" using assms pcd_ok_cong [of "setPoint p s" s] by (simp add: setPoint_def)
  show "pcd_ok (fst (pcd_update T cl s))" using assms by (simp add: pcd_ok_def scene_ok_update meshes_ok_update)
  show "pcd_ok (fst (setBoundingBox T box c s))" using assms scene_ok_box [of s box c]
    by (auto simp: pcd_ok_def meshes_ok_def setBoundingBox_def Let_def split: option.splits)
  have "scene_ok objs (fst (handlePointsResize T x s)) = scene_ok objs s"
    by (rule scene_ok_cong) (auto simp: handlePointsResize_def split_def Let_def split: option.splits obj.splits)
  then show "pcd_ok (fst (handlePointsResize T x s))" using assms meshes_ok_resize [of s x] by (simp add: pcd_ok_def)
  show "pcd_ok (handleToggleGrid T s)" "pcd_ok (handleToggleTransformControls T s)"
    using assms by (auto simp: pcd_ok_def scene_ok_def meshes_ok_def handleToggleGrid_def handleToggleTransformControls_def
        objs_add objs_remove Let_def)
qed

lemma pcd_ok_download: "pcd_ok (s\<lparr>pc_download := d\<rparr>) = pcd_ok s"
  by (rule pcd_ok_cong) simp_all

lemma pcd_ok_load: "pcd_ok s \<Longrightarrow> pcd_ok (fst (load_option T b s))"
  using pcd_ok_ops(3) [of s]
  by (auto simp: load_option_def pcd_load_def andThen_def split_def Let_def pcd_ok_download split: option.splits)

lemma pcd_ok_select: "pcd_ok s \<Longrightarrow> pcd_ok (fst (handleSelectObject T x s))"
  using pcd_ok_ops
  by (auto simp: handleSelectObject_def loadSegment_def loadBoundingBox_def loadPoint_def andThen_def split_def Let_def
      split: option.splits sum.splits)

lemma pcd_ok_mouse:
  assumes "pcd_ok s"
  shows "pcd_ok (fst (handleCanvasMouseUp T e s))" "pcd_ok (handleCanvasMouseDown a b s)"
proof -
  have same: "pcd_ok (s\<lparr>pc_mousedown := p\<rparr>)" "pcd_ok (s\<lparr>pc_mousedown := p, pc_matrix := m\<rparr>)" for p m
    using assms pcd_ok_cong [of "s\<lparr>pc_mousedown := p\<rparr>" s] pcd_ok_cong [of "s\<lparr>pc_mousedown := p, pc_matrix := m\<rparr>" s] by simp_all
  show "pcd_ok (fst (handleCanvasMouseUp T e s))" using assms same pcd_ok_ops(1) [OF same(2)]
    by (auto simp: handleCanvasMouseUp_def Let_def split: sum.splits option.splits obj.splits)
  show "pcd_ok (handleCanvasMouseDown a b s)" using assms same by (simp add: handleCanvasMouseDown_def)
qed

lemma pcd_ok_step: "pcd_ok s \<Longrightarrow> pcd_ok (fst (pcd_handle T et props s e))"
proof (cases e)
  case (PcMounted b)
  assume "pcd_ok s"
  then have "pcd_ok (s\<lparr>pc_animating := True\<rparr>)" using pcd_ok_cong [of "s\<lparr>pc_animating := True\<rparr>" s] by simp
  then show ?thesis using PcMounted pcd_ok_load by simp
next
  case PcUnmounted
  assume "pcd_ok s"
  then show ?thesis using PcUnmounted pcd_ok_cong [of "s\<lparr>pc_animating := False\<rparr>" s] by simp
next
  case (PcTransformMode v)
  assume "pcd_ok s"
  then show ?thesis using PcTransformMode pcd_ok_cong [of "handleTransformModeChange v s" s] by (simp add: handleTransformModeChange_def)
next
  case (PcDragging v)
  assume "pcd_ok s"
  then show ?thesis using PcDragging pcd_ok_cong [of "dragging_changed v s" s] by (simp add: dragging_changed_def)
qed (auto simp: pcd_ok_load pcd_ok_mouse pcd_ok_select pcd_ok_ops handleCenter_def split_def Let_def)

text \<open>The cloud on the page is the one the scene finds by name.\<close>

lemma named_current: "scene_ok objs s \<Longrightarrow> Points i \<in> objs (pc_scene s) \<Longrightarrow> th_named T ''points'' (pc_scene s) = Some (Points i)"
proof -
  assume ok: "scene_ok objs s" and i: "Points i \<in> objs (pc_scene s)"
  have mesh: "Points j \<in> objs (pc_scene s) \<Longrightarrow> pc_mesh s = Some j" for j using ok by (simp add: scene_ok_def)
  show ?thesis
  proof (cases "th_named T ''points'' (pc_scene s)")
    case None
    show ?thesis using named_None [OF None i] by simp
  next
    case (Some x)
    then have x: "x \<in> objs (pc_scene s)" "obj_name x = ''points''" using named_Some by auto
    then obtain j where "x = Points j" by (cases x) auto
    then show ?thesis using Some mesh [OF i] mesh [of j] x by simp
  qed
qed

text \<open>What a cloud that parses leaves on the page.\<close>

lemma update_shows:
  assumes "th_parse T cl = Inr c"
  shows "snd (pcd_update T cl s) = None" "shows_cloud T objs scale_of store c (scale_of (pc_matrix s)) (fst (pcd_update T cl s))"
    "pc_controls (fst (pcd_update T cl s)) = pc_controls s"
proof -
  define s1 where "s1 = (case pc_mesh s of None \<Rightarrow> s | Some i \<Rightarrow> s\<lparr>pc_scene := th_remove T (Points i) (pc_scene s)\<rparr>)"
  have m1: "pc_matrix s1 = pc_matrix s" "pc_controls s1 = pc_controls s" by (simp_all add: s1_def split: option.splits)
  obtain m g where mg: "load_points T (cl_colors c) 0 (cl_positions c) (pc_matrix s1, th_newMesh T (length (cl_positions c))) = (m, g)"
    by fastforce
  have le: "0 + length (cl_positions c) \<le> th_count T (th_newMesh T (length (cl_positions c)))" by (simp add: count_new)
  have points: "th_position T (th_getMatrixAt T g k) = round3 store (cl_positions c ! k) \<and>
      scale_of (th_getMatrixAt T g k) = store (scale_of (pc_matrix s))" if "k < length (cl_positions c)" for k
    using load_points_spec(4,5) [OF mg le, of k] that by (simp add: m1)
  have r: "pcd_update T cl s = (s1\<lparr>pc_matrix := m, pc_meshes := pc_meshes s @ [g], pc_mesh := Some (length (pc_meshes s)),
      pc_scene := (case pc_cube s of None \<Rightarrow> th_add T (Points (length (pc_meshes s))) (pc_scene s1)
        | Some b \<Rightarrow> th_add T (Box b) (th_add T (Points (length (pc_meshes s))) (pc_scene s1)))\<rparr>, None)"
    using assms mg by (simp add: pcd_update_def s1_def [symmetric] Let_def)
  have cnt: "th_count T g = length (cl_positions c)" using load_points_spec(1) [OF mg le] by (simp add: count_new)
  show "snd (pcd_update T cl s) = None" "pc_controls (fst (pcd_update T cl s)) = pc_controls s" by (simp_all add: r m1)
  show "shows_cloud T objs scale_of store c (scale_of (pc_matrix s)) (fst (pcd_update T cl s))"
    unfolding shows_cloud_def using points by (simp add: r cnt objs_add split: option.splits)
qed

lemma load_shows:
  assumes "th_parse T cl = Inr c"
  shows "snd (load_option T (Some cl) s) = []" "shows_cloud T objs scale_of store c (scale_of (pc_matrix s)) (fst (load_option T (Some cl) s))"
    "pc_controls (fst (load_option T (Some cl) s)) = pc_controls s"
  using update_shows [OF assms, of s]
  by (simp_all add: load_option_def pcd_load_def andThen_def split_def Let_def raised_def shows_cloud_def)

text \<open>Resizing the cloud on the page: same points at the new scale, which the matrix keeps for the next cloud.\<close>

lemma resize_shows:
  assumes "pcd_ok s" "shows_cloud T objs scale_of store c z s"
  shows "snd (handlePointsResize T x s) = None" "shows_cloud T objs scale_of store c x (fst (handlePointsResize T x s))"
    "cl_positions c \<noteq> [] \<Longrightarrow> scale_of (pc_matrix (fst (handlePointsResize T x s))) = x"
proof -
  obtain i where i: "pc_mesh s = Some i" "Points i \<in> objs (pc_scene s)" and cnt: "th_count T (pc_meshes s ! i) = length (cl_positions c)"
    and pos: "\<forall>k < length (cl_positions c). th_position T (th_getMatrixAt T (pc_meshes s ! i) k) = round3 store (cl_positions c ! k)"
    using assms(2) by (auto simp: shows_cloud_def)
  have lt: "i < length (pc_meshes s)" using assms(1) i(1) by (simp add: pcd_ok_def scene_ok_def)
  have named: "th_named T ''points'' (pc_scene s) = Some (Points i)" using named_current [OF _ i(2)] assms(1) by (simp add: pcd_ok_def)
  obtain m g where mg: "resize_points T x (th_count T (pc_meshes s ! i)) 0 (pc_matrix s, pc_meshes s ! i) = (m, g)" by fastforce
  have r: "handlePointsResize T x s = (s\<lparr>pc_matrix := m, pc_meshes := (pc_meshes s)[i := g], pc_sphereScale := x\<rparr>, None)"
    using named mg by (simp add: handlePointsResize_def)
  show "snd (handlePointsResize T x s) = None" by (simp add: r)
  show "shows_cloud T objs scale_of store c x (fst (handlePointsResize T x s))"
    unfolding shows_cloud_def using resize_points_spec [OF mg] i lt cnt pos by (simp add: r round3_idem)
  have "resize_points T x n j (m0, g0) = (m', g') \<Longrightarrow> n \<noteq> 0 \<Longrightarrow> scale_of m' = x" for n j m0 g0 m' g'
  proof (induction n arbitrary: j m0 g0)
    case (Suc n)
    then show ?case by (cases n) (auto simp: Let_def scale_set scale_make)
  qed simp
  from this [OF mg] show "cl_positions c \<noteq> [] \<Longrightarrow> scale_of (pc_matrix (fst (handlePointsResize T x s))) = x"
    using cnt by (simp add: r)
qed

text \<open>A click on the cloud selects the point that was hit.\<close>

lemma click_selects:
  assumes "pcd_ok s" "shows_cloud T objs scale_of store c z s" "pc_controls s" "k < length (cl_positions c)"
    and "\<not> num_less epsilon (th_length T (th_sub T (pc_mousedown s) (me_clientX e, me_clientY e)))"
    and "\<And>i. me_intersect e (getMouseNormalizedDeviceCoordinates e) (Some (Points i)) = Inr (Some k)"
  shows "pc_click (fst (handleCanvasMouseUp T e s)) = round3 scaled_mm (round3 store (cl_positions c ! k))"
    "snd (handleCanvasMouseUp T e s) = []"
proof -
  obtain i where i: "Points i \<in> objs (pc_scene s)"
    and pos: "th_position T (th_getMatrixAt T (pc_meshes s ! i) k) = round3 store (cl_positions c ! k)"
    using assms(2,4) by (auto simp: shows_cloud_def)
  have "th_named T ''points'' (pc_scene s) = Some (Points i)" using named_current [OF _ i] assms(1) by (simp add: pcd_ok_def)
  then have "handleCanvasMouseUp T e s = (let s1 = s\<lparr>pc_mousedown := th_sub T (pc_mousedown s) (me_clientX e, me_clientY e)\<rparr>;
      m = th_getMatrixAt T (pc_meshes s ! i) k in (setPoint (th_position T m) (s1\<lparr>pc_matrix := m\<rparr>), []))"
    using assms(3,5,6) by (simp add: handleCanvasMouseUp_def Let_def)
  then show "pc_click (fst (handleCanvasMouseUp T e s)) = round3 scaled_mm (round3 store (cl_positions c ! k))"
    "snd (handleCanvasMouseUp T e s) = []"
    using pos by (simp_all add: Let_def setPoint_def round3_def)
qed

lemma pcd_ok_init: "objs scene = {} \<Longrightarrow> pcd_ok (pcd_init T scene matrix)"
  by (simp add: pcd_ok_def scene_ok_def meshes_ok_def pcd_init_def objs_add)

end

sublocale three_laws \<subseteq> viewer: invariant_system "pcd_handle T et props" pcd_ok for et props
  by unfold_locales (rule pcd_ok_step)

section \<open>An implementation of the laws\<close>

text \<open>
  A scene as a list of objects, a matrix as a position and a scale, a mesh as a list of matrices
  in single precision; the file format of the clouds is one byte for each point.
\<close>

type_synonym demo_matrix = "vec3 \<times> jsnum"

definition demo_store :: "demo_matrix \<Rightarrow> demo_matrix" where
  "demo_store m = (round3 fround (fst m), fround (snd m))"

definition demo_parse :: "bytes \<Rightarrow> cloud throws" where
  "demo_parse b =
     (if b = [] then Inl TypeError
      else Inr \<lparr>cl_positions = map (\<lambda>n. new_Vector3\<lparr>v_x := num_div (num_int (int n)) (Fin 10)\<rparr>) b, cl_colors = None\<rparr>)"

definition demo_three :: "(obj list, demo_matrix, demo_matrix list) three" where
  "demo_three = \<lparr>
     th_add = (\<lambda>x sc. removeAll x sc @ [x]),
     th_remove = removeAll,
     th_named = (\<lambda>nm sc. find (\<lambda>x. obj_name x = nm) sc),
     th_setPosition = (\<lambda>m p. (p, snd m)),
     th_makeScale = (\<lambda>z m. (new_Vector3, z)),
     th_position = fst,
     th_newMesh = (\<lambda>n. replicate n (new_Vector3, Fin 0)),
     th_count = length,
     th_setMatrixAt = (\<lambda>i m g. g[i := demo_store m]),
     th_getMatrixAt = (\<lambda>g i. if i < length g then g ! i else (\<lparr>v_x = NaN, v_y = NaN, v_z = NaN\<rparr>, NaN)),
     th_setColorAt = (\<lambda>i c g. g),
     th_parse = demo_parse,
     th_multiplyScalar = (\<lambda>v z. round3 (\<lambda>x. num_mul x z) v),
     th_sub = (\<lambda>a b. (num_sub (fst a) (fst b), num_sub (snd a) (snd b))),
     th_length = fst\<rparr>"

interpretation demo: three_laws demo_three set snd fround
proof unfold_locales
  fix nm sc x
  assume "th_named demo_three nm sc = Some x"
  then show "x \<in> set sc \<and> obj_name x = nm" by (auto simp: demo_three_def find_Some_iff)
next
  fix nm sc x
  assume "th_named demo_three nm sc = None" "x \<in> set sc"
  then show "obj_name x \<noteq> nm" by (auto simp: demo_three_def find_None_iff)
qed (auto simp: demo_three_def demo_store_def fround_idem)

definition viewer_props :: pcd_props where
  "viewer_props = \<lparr>pp_resources =
     [\<lparr>rn_namespace = ''rdk'', rn_type = ''component'', rn_subtype = ''gripper'', rn_name = ''claw''\<rparr>,
      \<lparr>rn_namespace = ''rdk'', rn_type = ''service'', rn_subtype = ''motion'', rn_name = ''builtin''\<rparr>],
     pp_cameraName = Some ''cam''\<rparr>"

definition demo_start :: "(obj list, demo_matrix, demo_matrix list) pcd" where
  "demo_start = pcd_init demo_three [] (new_Vector3, Fin 1)"

definition demo_click :: mouse_event where
  "demo_click = \<lparr>me_clientX = Fin 5, me_clientY = Fin 5, me_left = Fin 0, me_top = Fin 0, me_width = Fin 10, me_height = Fin 10,
     me_devicePixelRatio = Fin 1, me_intersect = (\<lambda>p x. case x of Some (Points i) \<Rightarrow> Inr (Some 1) | _ \<Rightarrow> Inl TypeError)\<rparr>"

section \<open>The viewer\<close>

text \<open>Whole numbers, as far as a JavaScript number can be one.\<close>

fun whole :: "jsnum \<Rightarrow> bool" where
  "whole (Fin q) = (of_int \<lfloor>q\<rfloor> = q)"
| "whole _ = True"

definition whole3 :: "vec3 \<Rightarrow> bool" where
  "whole3 v \<longleftrightarrow> whole (v_x v) \<and> whole (v_y v) \<and> whole (v_z v)"

lemma whole_scaled_mm: "whole (scaled_mm x)"
  by (cases "num_mul x (Fin 1000)") (auto simp: scaled_mm_def Let_def)

lemma whole3_setPoint: "whole3 (pc_click (setPoint p s))"
  by (simp add: whole3_def setPoint_def whole_scaled_mm)

text \<open>The resource of a kind that comes first by name.\<close>

definition first_of :: "resource_name list \<Rightarrow> string \<Rightarrow> string \<Rightarrow> resource_name \<Rightarrow> bool" where
  "first_of rs ty sub r \<longleftrightarrow>
     (let found = {x \<in> set rs. rn_namespace x = ''rdk'' \<and> rn_type x = ty \<and> rn_subtype x = sub}
      in r \<in> found \<and> (\<forall>x \<in> found. le_resource r x))"

lemma first_of_filter: "filterResources rs ''rdk'' ty sub = r # rs' \<Longrightarrow> first_of rs ty sub r"
  using set_filterResources [of rs "''rdk''" ty sub] sorted_filterResources [of rs "''rdk''" ty sub]
  by (auto simp: first_of_def Let_def le_resource_def)

lemma resource_name_eta:
  "\<lparr>rn_namespace = rn_namespace r, rn_type = rn_type r, rn_subtype = rn_subtype r, rn_name = rn_name r\<rparr> = (r :: resource_name)"
  by simp

text \<open>The requests of a viewer: \<open>Move\<close> alone, for the first gripper, in the frame of its camera, in whole millimetres.\<close>

fun move_typed :: "pcd_props \<Rightarrow> effect \<Rightarrow> bool" where
  "move_typed props (Call (MotionReq (Move m g f p))) =
     (whole3 p \<and> f = pp_cameraName props \<and> first_of (pp_resources props) ''component'' ''gripper'' g \<and>
      (\<exists>r. first_of (pp_resources props) ''service'' ''motion'' r \<and> m = rn_name r))"
| "move_typed props (Call r) = False"
| "move_typed props _ = True"

lemma whole3_update: "pc_click (fst (pcd_update T cl s)) = pc_click s"
  by (auto simp: pcd_update_def split_def Let_def split: option.splits sum.splits)

lemma whole3_box: "pc_click (fst (setBoundingBox T b c s)) = pc_click s"
  by (auto simp: setBoundingBox_def Let_def split: option.splits)

lemma whole3_select: "whole3 (pc_click s) \<Longrightarrow> whole3 (pc_click (fst (handleSelectObject T x s)))"
  by (auto simp: handleSelectObject_def loadSegment_def loadBoundingBox_def loadPoint_def andThen_def split_def Let_def
      whole3_setPoint whole3_update whole3_box split: option.splits sum.splits)

lemma whole3_step: "whole3 (pc_click s) \<Longrightarrow> whole3 (pc_click (fst (pcd_handle T et props s e)))"
proof (cases e)
  case (PcSelectObject x)
  assume "whole3 (pc_click s)"
  then show ?thesis using PcSelectObject whole3_select by simp
qed (auto simp: load_option_def pcd_load_def andThen_def handleCanvasMouseDown_def handleCanvasMouseUp_def handleCenter_def
    handleToggleGrid_def handleToggleTransformControls_def handleTransformModeChange_def dragging_changed_def
    handlePointsResize_def whole3_setPoint whole3_update split_def Let_def split: option.splits sum.splits obj.splits)

lemma typed_raised: "o' \<in> set (raised e) \<Longrightarrow> move_typed props o'"
  by (auto simp: raised_def split: option.splits)

lemma move_typed_step: "whole3 (pc_click s) \<Longrightarrow> o' \<in> set (snd (pcd_handle T et props s e)) \<Longrightarrow> move_typed props o'"
proof (cases e)
  case PcMove
  assume "whole3 (pc_click s)" "o' \<in> set (snd (pcd_handle T et props s e))"
  then show ?thesis using PcMove by (auto simp: handleMove_def resource_name_eta dest!: first_of_filter split: list.splits)
next
  case (PcSelectObject x)
  assume "o' \<in> set (snd (pcd_handle T et props s e))"
  then show ?thesis using PcSelectObject
    by (auto simp: handleSelectObject_def loadSegment_def loadBoundingBox_def loadPoint_def split_def Let_def not_found_def
        typed_raised split: option.splits sum.splits if_splits)
qed (auto simp: load_option_def handleCanvasMouseUp_def handleMove_done_def typed_raised split_def Let_def
    split: option.splits sum.splits obj.splits if_splits)

interpretation pcd_moves: effect_system "pcd_handle T et props" "\<lambda>s. whole3 (pc_click s)" "move_typed props" for T et props
  by unfold_locales (rule whole3_step, assumption, rule move_typed_step)

text \<open>Nothing fills the list of segments.\<close>

lemma no_objects_step: "pc_objects s = [] \<Longrightarrow> pc_objects (fst (pcd_handle T et props s e)) = []"
proof (cases e)
  case (PcSelectObject x)
  assume "pc_objects s = []"
  then show ?thesis using PcSelectObject
    by (auto simp: handleSelectObject_def loadSegment_def loadBoundingBox_def loadPoint_def segment_at_def)
qed (auto simp: load_option_def pcd_load_def pcd_update_def setPoint_def andThen_def handleCanvasMouseDown_def handleCanvasMouseUp_def handleCenter_def
    handleToggleGrid_def handleToggleTransformControls_def handleTransformModeChange_def dragging_changed_def
    handlePointsResize_def split_def Let_def split: option.splits sum.splits obj.splits)

interpretation pcd_objects: invariant_system "pcd_handle T et props" "\<lambda>s. pc_objects s = []" for T et props
  by unfold_locales (rule no_objects_step)

section \<open>Properties\<close>

context three_laws
begin

lemma viewer_ok: "objs scene = {} \<Longrightarrow> pcd_ok (final (pcd_handle T et props) (pcd_init T scene matrix) es)"
  by (rule viewer.run_inv [OF pcd_ok_init])

end

text \<open>The concrete viewer of the witnesses.\<close>

lemma demo_round:
  "num_div (num_int 9) (Fin 10) = Fin (8106479329266893 / 9007199254740992)"
  "fround (Fin (8106479329266893 / 9007199254740992)) = Fin (15099494 / 16777216)"
  "scaled_mm (Fin (15099494 / 16777216)) = Fin 900" "fround (Fin 0) = Fin 0" "scaled_mm (Fin 0) = Fin 0"
  by (code_simp, code_simp, code_simp, code_simp, code_simp)

lemma demo_facts:
  "filterResources (pp_resources viewer_props) ''rdk'' ''component'' ''gripper'' =
     [\<lparr>rn_namespace = ''rdk'', rn_type = ''component'', rn_subtype = ''gripper'', rn_name = ''claw''\<rparr>]"
  "filterResources (pp_resources viewer_props) ''rdk'' ''service'' ''motion'' =
     [\<lparr>rn_namespace = ''rdk'', rn_type = ''service'', rn_subtype = ''motion'', rn_name = ''builtin''\<rparr>]"
  "pp_cameraName viewer_props = Some ''cam''"
  "\<not> num_less epsilon (th_length demo_three (th_sub demo_three (Fin 4, Fin 4) (me_clientX demo_click, me_clientY demo_click)))"
  "round3 scaled_mm (round3 fround (new_Vector3\<lparr>v_x := num_div (num_int 9) (Fin 10)\<rparr>)) = new_Vector3\<lparr>v_x := Fin 900\<rparr>"
proof -
  show "filterResources (pp_resources viewer_props) ''rdk'' ''component'' ''gripper'' =
     [\<lparr>rn_namespace = ''rdk'', rn_type = ''component'', rn_subtype = ''gripper'', rn_name = ''claw''\<rparr>]"
   "filterResources (pp_resources viewer_props) ''rdk'' ''service'' ''motion'' =
     [\<lparr>rn_namespace = ''rdk'', rn_type = ''service'', rn_subtype = ''motion'', rn_name = ''builtin''\<rparr>]"
   "pp_cameraName viewer_props = Some ''cam''" by (simp_all add: viewer_props_def filterResources_def js_sort_def)
  have "num_sub (Fin 4) (Fin 5) = Fin (- 1)" by code_simp
  then show "\<not> num_less epsilon (th_length demo_three (th_sub demo_three (Fin 4, Fin 4) (me_clientX demo_click, me_clientY demo_click)))"
    by (simp add: demo_three_def demo_click_def epsilon_def)
  show "round3 scaled_mm (round3 fround (new_Vector3\<lparr>v_x := num_div (num_int 9) (Fin 10)\<rparr>)) = new_Vector3\<lparr>v_x := Fin 900\<rparr>"
    using demo_round by (simp add: round3_def new_Vector3_def del: num_div.simps fround.simps)
qed

text \<open>
  In every state a viewer that starts with an empty scene can reach, whatever is clicked,
  loaded or toggled and in whatever order: the only cloud on the scene is the current one and the only
  bounding box is the current one, the grid is on the scene exactly when the grid switch is on, and the
  transform handles exactly when the transform switch is on, which is what the page shows.
\<close>

theorem pcd_scene_follows:
  assumes "three_laws T objs scale_of store" "objs scene = {}"
  shows "scene_ok objs (final (pcd_handle T et props) (pcd_init T scene matrix) es)"
  using three_laws.viewer_ok [OF assms, of et props matrix es] by (simp add: three_laws.pcd_ok_def [OF assms(1)])

theorem pcd_scene_follows_witness:
  "scene_ok set (final (pcd_handle demo_three err_message viewer_props) demo_start [PcMounted (Some [7, 9]), PcToggleGrid, PcCloud (Some [4])])"
  unfolding demo_start_def by (rule pcd_scene_follows [OF demo.three_laws_axioms]) simp

text \<open>
  C8. From loading a cloud to moving the gripper: in any reachable state in which orbiting is
  enabled, loading a cloud that parses, pressing and releasing the mouse within 10 pixels where the
  raycaster hits point \<open>k\<close>, and pressing Move sends exactly one request and nothing else. It goes to the first
  motion service, moves the first gripper, and asks for the position of point \<open>k\<close> of that cloud, in single
  precision and rounded to whole millimetres, in the frame of the viewer's camera.
\<close>

theorem cloud_click_move:
  assumes "three_laws T objs scale_of store" "objs scene = {}"
    and s: "s = final (pcd_handle T et props) (pcd_init T scene matrix) es" and "pc_controls s"
    and "th_parse T cl = Inr c" "k < length (cl_positions c)"
    and "\<not> num_less epsilon (th_length T (th_sub T (x, y) (me_clientX e, me_clientY e)))"
    and "\<And>i. me_intersect e (getMouseNormalizedDeviceCoordinates e) (Some (Points i)) = Inr (Some k)"
    and "filterResources (pp_resources props) ''rdk'' ''component'' ''gripper'' = gripper # gs"
    and "filterResources (pp_resources props) ''rdk'' ''service'' ''motion'' = motion # ms"
  shows "outputs (pcd_handle T et props) s [PcCloud (Some cl), PcMouseDown x y, PcMouseUp e, PcMove] =
    [Call (MotionReq (Move (rn_name motion) gripper (pp_cameraName props) (round3 scaled_mm (round3 store (cl_positions c ! k)))))]"
proof -
  note laws = assms(1)
  define s1 where "s1 = fst (load_option T (Some cl) s)"
  define s2 where "s2 = s1\<lparr>pc_mousedown := (x, y)\<rparr>"
  have out1: "snd (load_option T (Some cl) s) = []" and sh: "shows_cloud T objs scale_of store c (scale_of (pc_matrix s)) s1"
    and ctl: "pc_controls s1" using three_laws.load_shows [OF laws assms(5), of s] assms(4) by (simp_all add: s1_def)
  have "three_laws.pcd_ok T objs store s1" unfolding s1_def s
    by (rule three_laws.pcd_ok_load [OF laws three_laws.viewer_ok [OF laws assms(2)]])
  then have ok2: "three_laws.pcd_ok T objs store s2"
    using three_laws.pcd_ok_cong [OF laws, of s2 s1] by (simp add: s2_def)
  have "shows_cloud T objs scale_of store c (scale_of (pc_matrix s)) s2" "pc_controls s2"
    using sh ctl by (simp_all add: s2_def shows_cloud_def)
  note up = three_laws.click_selects [OF laws ok2 this assms(6) _ assms(8)]
  have "pc_click (fst (handleCanvasMouseUp T e s2)) = round3 scaled_mm (round3 store (cl_positions c ! k))"
    "snd (handleCanvasMouseUp T e s2) = []" by (rule up; use assms(7) in \<open>simp add: s2_def\<close>)+
  moreover have "handleCanvasMouseDown x y s1 = s2" using ctl by (simp add: handleCanvasMouseDown_def s2_def)
  ultimately show ?thesis using out1 assms(9,10)
    by (simp add: run_Cons s1_def [symmetric] handleMove_def del: run.simps(2))
qed

theorem cloud_click_move_witness:
  "outputs (pcd_handle demo_three err_message viewer_props) demo_start
     [PcCloud (Some [7, 9]), PcMouseDown (Fin 4) (Fin 4), PcMouseUp demo_click, PcMove] =
   [Call (MotionReq (Move ''builtin'' \<lparr>rn_namespace = ''rdk'', rn_type = ''component'', rn_subtype = ''gripper'', rn_name = ''claw''\<rparr>
      (Some ''cam'') (new_Vector3\<lparr>v_x := Fin 900\<rparr>)))]"
proof -
  define c where "c = \<lparr>cl_positions = map (\<lambda>n. new_Vector3\<lparr>v_x := num_div (num_int (int n)) (Fin 10)\<rparr>) [7, 9], cl_colors = None\<rparr>"
  have s: "demo_start = final (pcd_handle demo_three err_message viewer_props) (pcd_init demo_three [] (new_Vector3, Fin 1)) []"
    by (simp add: demo_start_def)
  have "pc_controls demo_start" "th_parse demo_three [7, 9] = Inr c" "1 < length (cl_positions c)"
    "me_intersect demo_click p (Some (Points i)) = Inr (Some 1)" for p i
    by (simp_all add: demo_start_def pcd_init_def demo_three_def demo_parse_def c_def demo_click_def)
  from cloud_click_move [OF demo.three_laws_axioms _ s this(1-3) demo_facts(4) this(4) demo_facts(1,2)]
  show ?thesis using demo_facts(3,5) by (simp add: c_def)
qed

text \<open>
  C22. The size slider moves no point and its setting outlives the cloud: in any reachable state, after
  loading a cloud with at least one point and dragging the slider to \<open>x\<close>, the scene shows the same points,
  all at scale \<open>x\<close>, and no exception was raised; a cloud loaded afterwards is shown with its own points at scale
  \<open>x\<close> as well.
\<close>

theorem resize_keeps_points:
  assumes "three_laws T objs scale_of store" "objs scene = {}"
    and s: "s = final (pcd_handle T et props) (pcd_init T scene matrix) es"
    and "th_parse T cl = Inr c" "cl_positions c \<noteq> []" "th_parse T cl' = Inr c'"
  shows "outputs (pcd_handle T et props) s [PcCloud (Some cl), PcResize x, PcCloud (Some cl')] = [] \<and>
    shows_cloud T objs scale_of store c x (final (pcd_handle T et props) s [PcCloud (Some cl), PcResize x]) \<and>
    shows_cloud T objs scale_of store c' x (final (pcd_handle T et props) s [PcCloud (Some cl), PcResize x, PcCloud (Some cl')])"
proof (intro conjI)
  note laws = assms(1)
  define s1 where "s1 = fst (load_option T (Some cl) s)"
  define s2 where "s2 = fst (handlePointsResize T x s1)"
  have out1: "snd (load_option T (Some cl) s) = []" and sh: "shows_cloud T objs scale_of store c (scale_of (pc_matrix s)) s1"
    using three_laws.load_shows [OF laws assms(4), of s] by (simp_all add: s1_def)
  have ok1: "three_laws.pcd_ok T objs store s1" unfolding s1_def s
    by (rule three_laws.pcd_ok_load [OF laws three_laws.viewer_ok [OF laws assms(2)]])
  note rs = three_laws.resize_shows [OF laws ok1 sh, of x]
  have out2: "snd (handlePointsResize T x s1) = None" and sc: "scale_of (pc_matrix s2) = x"
    and sh2: "shows_cloud T objs scale_of store c x s2" using rs assms(5) by (simp_all add: s2_def)
  have f: "final (pcd_handle T et props) s [PcCloud (Some cl), PcResize x] = s2"
    by (simp add: run_Cons s1_def [symmetric] s2_def split_def Let_def del: run.simps(2))
  show "outputs (pcd_handle T et props) s [PcCloud (Some cl), PcResize x, PcCloud (Some cl')] = []"
    using out1 out2 three_laws.load_shows(1) [OF laws assms(6), of s2]
    by (simp add: run_Cons s1_def [symmetric] s2_def [symmetric] split_def Let_def raised_def del: run.simps(2))
  show "shows_cloud T objs scale_of store c x (final (pcd_handle T et props) s [PcCloud (Some cl), PcResize x])" using f sh2 by simp
  show "shows_cloud T objs scale_of store c' x (final (pcd_handle T et props) s [PcCloud (Some cl), PcResize x, PcCloud (Some cl')])"
    using three_laws.load_shows(2) [OF laws assms(6), of s2] sc
    by (simp add: run_Cons s1_def [symmetric] s2_def [symmetric] split_def Let_def del: run.simps(2))
qed

theorem resize_keeps_points_witness:
  "shows_cloud demo_three set snd fround \<lparr>cl_positions = [new_Vector3\<lparr>v_x := num_of (2 / 5)\<rparr>], cl_colors = None\<rparr> (Fin 3)
     (final (pcd_handle demo_three err_message viewer_props) demo_start [PcCloud (Some [7, 9]), PcResize (Fin 3), PcCloud (Some [4])])"
proof -
  have s: "demo_start = final (pcd_handle demo_three err_message viewer_props) (pcd_init demo_three [] (new_Vector3, Fin 1)) []"
    by (simp add: demo_start_def)
  have "num_div (num_int 4) (Fin 10) = num_of (2 / 5)" by code_simp
  then have p: "th_parse demo_three [4] = Inr \<lparr>cl_positions = [new_Vector3\<lparr>v_x := num_of (2 / 5)\<rparr>], cl_colors = None\<rparr>"
    by (simp add: demo_three_def demo_parse_def)
  obtain c where "th_parse demo_three [7, 9] = Inr c" "cl_positions c \<noteq> []" by (simp add: demo_three_def demo_parse_def)
  from resize_keeps_points [OF demo.three_laws_axioms _ s this p, of "Fin 3"] show ?thesis by simp
qed

text \<open>
  C21. Every request a viewer sends, in any run from its initial state, is a \<open>Move\<close>, with coordinates
  that are whole numbers of millimetres (or infinite or not a number), the frame of the viewer's own camera,
  the gripper and the motion service that come first by name among the robot's resources.
\<close>

theorem pcd_requests_typed:
  assumes "o' \<in> set (outputs (pcd_handle T et props) (pcd_init T scene matrix) es)"
  shows "move_typed props o'"
  using pcd_moves.run_good [OF _ assms] by (simp add: pcd_init_def whole3_def new_Vector3_def)

theorem pcd_requests_typed_witness:
  "move_typed viewer_props (Call (MotionReq (Move ''builtin''
     \<lparr>rn_namespace = ''rdk'', rn_type = ''component'', rn_subtype = ''gripper'', rn_name = ''claw''\<rparr> (Some ''cam'') new_Vector3)))"
proof (rule pcd_requests_typed)
  show "Call (MotionReq (Move ''builtin'' \<lparr>rn_namespace = ''rdk'', rn_type = ''component'', rn_subtype = ''gripper'', rn_name = ''claw''\<rparr>
      (Some ''cam'') new_Vector3)) \<in>
    set (outputs (pcd_handle demo_three err_message viewer_props) (pcd_init demo_three [] (new_Vector3, Fin 1)) [PcMove])"
    using demo_facts(1-3) by (simp add: handleMove_def pcd_init_def)
qed

text \<open>
  Nothing loads the list of segments, so choosing Center Point in any reachable state reports a missing
  segment and then raises an exception all the same: the early return is missing.
\<close>

lemma center_point_raises:
  "snd (pcd_handle T et props (final (pcd_handle T et props) (pcd_init T scene matrix) es) (PcSelectObject ''Center Point'')) =
     [not_found, Uncaught TypeError]"
  using pcd_objects.run_inv [of "pcd_init T scene matrix" T et props es]
  by (simp add: pcd_init_def handleSelectObject_def loadSegment_def segment_at_def)


text \<open>Once the drawing buffer has the size it was given, the next frame leaves it alone.\<close>

lemma resize_settles:
  assumes "resizeRendererToDisplaySize r c = Some ((w, h), a)" "w \<noteq> NaN" "h \<noteq> NaN"
  shows "resizeRendererToDisplaySize r (c\<lparr>cv_width := w, cv_height := h\<rparr>) = None"
proof -
  have "x \<noteq> NaN \<Longrightarrow> num_eq x x" for x by (cases x) auto
  then show ?thesis using assms by (auto simp: resizeRendererToDisplaySize_def Let_def split: if_splits)
qed

section \<open>The distance\<close>

lemma whole_square:
  assumes "num_finite x" "whole x" "\<bar>num_val x\<bar> \<le> 2 ^ 23"
  obtains n where "num_val x = of_int n" "num_mul x x = num_int (n * n)" "n * n \<le> 2 ^ 46"
proof (cases x)
  case (Fin q)
  define n where "n = \<lfloor>q\<rfloor>"
  have q: "q = of_int n" using assms(2) unfolding Fin n_def whole.simps by (rule sym)
  have n: "\<bar>n\<bar> \<le> 2 ^ 23" using assms(3) Fin q by (metis num_val.simps(1) of_int_abs of_int_le_iff of_int_numeral of_int_power)
  have "n * n = \<bar>n\<bar> * \<bar>n\<bar>" by simp
  also have "\<dots> \<le> 2 ^ 23 * 2 ^ 23" using n by (intro mult_mono) auto
  finally have le: "n * n \<le> 2 ^ 46" by simp
  have "num_mul x x = num_int (n * n)"
  proof (cases "n = 0")
    case False
    then show ?thesis using le num_mul_int [of n n] Fin q by simp
  qed (use Fin q in \<open>simp add: mk_num_def rnd_def\<close>)
  then show ?thesis using that Fin q le by simp
next
  case NegZero
  then show ?thesis using that [of 0] by (simp add: mk_num_def rnd_def)
qed (use assms in auto)

lemma nearest_sqrt:
  assumes "d * d < S + d" "S \<le> d * d + d"
  shows "\<bar>real d - sqrt (real S)\<bar> < 1 / 2"
proof -
  have "real S \<le> real d * real d + real d" using assms(2) by (metis of_nat_add of_nat_le_iff of_nat_mult)
  also have "\<dots> < (real d + 1 / 2)\<^sup>2" by (simp add: power2_eq_square algebra_simps)
  finally have "sqrt (real S) < real d + 1 / 2" by (intro real_less_lsqrt) auto
  moreover have "real d - 1 / 2 < sqrt (real S)"
  proof (rule real_less_rsqrt)
    have "d * d + 1 \<le> S + d" using assms(1) by simp
    then have "real d * real d + 1 \<le> real S + real d" by (metis of_nat_1 of_nat_add of_nat_le_iff of_nat_mult)
    then show "(real d - 1 / 2)\<^sup>2 < real S" by (simp add: power2_eq_square algebra_simps)
  qed
  ultimately show ?thesis by linarith
qed

lemma distance_of_ints:
  assumes "num_mul x x = num_int a" "num_mul y y = num_int b" "num_mul z z = num_int c"
    "0 \<le> a" "0 \<le> b" "0 \<le> c" "a \<le> 2 ^ 46" "b \<le> 2 ^ 46" "c \<le> 2 ^ 46"
  shows "\<exists>d. distanceFromCamera \<lparr>v_x = x, v_y = y, v_z = z\<rparr> = Fin (of_nat d) \<and> \<bar>real d - sqrt (of_int (a + b + c))\<bar> < 1 / 2"
proof -
  define S where "S = nat (a + b + c)"
  have S: "int S = a + b + c" "S \<le> 2 ^ 48" using assms(4-) by (simp_all add: S_def nat_le_iff)
  have "num_add (num_add (num_mul x x) (num_mul y y)) (num_mul z z) = Fin (of_nat S)"
    unfolding assms(1-3) using S assms(4-) num_add_int [of a b] num_add_int [of "a + b" c]
    by (simp del: num_add.simps of_int_add)
  note sum = this
  show ?thesis
  proof (cases "S = 0")
    case True
    have "\<lfloor>1 / 2 :: rat\<rfloor> = 0" by (rule floor_unique) simp_all
    with True have "distanceFromCamera \<lparr>v_x = x, v_y = y, v_z = z\<rparr> = Fin (of_nat 0)"
      using sum by (simp add: distanceFromCamera_def num_truthy_def num_zero_def)
    then show ?thesis using True S(1) by (intro exI [of _ 0]) (simp flip: S(1))
  next
    case False
    then obtain d where d: "math_round (math_sqrt (Fin (of_nat S))) = Fin (of_nat d)" "d * d < S + d" "S \<le> d * d + d"
      using round_sqrt [of S] S(2) by auto
    have "distanceFromCamera \<lparr>v_x = x, v_y = y, v_z = z\<rparr> = Fin (of_nat d)"
      using sum d(1) by (auto simp: distanceFromCamera_def num_truthy_def num_zero_def simp del: math_sqrt.simps math_round.simps)
    then show ?thesis using nearest_sqrt [OF d(2,3)] by (metis S(1) of_int_of_nat_eq)
  qed
qed

text \<open>The text of such a distance reads back as the number.\<close>

lemma distance_text:
  assumes "\<bar>real d - sqrt (of_int S)\<bar> < 1 / 2" "S \<le> 3 * 2 ^ 46"
  shows "parseFloat (num_to_string (Fin (of_nat d))) = Fin (of_nat d)"
proof -
  have "real_of_int S \<le> 3 * 2 ^ 46" using assms(2) by (simp add: numeral_power_le_of_int_cancel_iff [symmetric])
  then have "sqrt (of_int S) \<le> 2 ^ 24" by (intro real_le_lsqrt) auto
  then have "real d \<le> 2 ^ 24 + 1" using assms(1) by linarith
  also have "\<dots> \<le> real (2 ^ 53)" by simp
  finally have "d \<le> 2 ^ 53" by (simp only: of_nat_le_iff)
  then have "\<bar>int d\<bar> \<le> 2 ^ 53" by simp
  then have "is_double (of_nat d)" using is_double_int [of "int d"] by simp
  then show ?thesis using parseFloat_show [of "Fin (of_nat d)"] by simp
qed

text \<open>
  C16. The distance shown for the selected point is the whole number of millimetres nearest to the true
  distance of the selected coordinates from the origin, in every reachable state whose coordinates are
  within \<open>2 ^ 23\<close> millimetres (8.4 kilometres): neither the products, the sums nor the root lose anything,
  and the text on the page reads back as that number.
\<close>

theorem distance_nearest:
  assumes "s = final (pcd_handle T et props) (pcd_init T scene matrix) es"
    and "num_finite (v_x (pc_click s))" "num_finite (v_y (pc_click s))" "num_finite (v_z (pc_click s))"
    and "\<bar>num_val (v_x (pc_click s))\<bar> \<le> 2 ^ 23" "\<bar>num_val (v_y (pc_click s))\<bar> \<le> 2 ^ 23" "\<bar>num_val (v_z (pc_click s))\<bar> \<le> 2 ^ 23"
  shows "\<exists>d. distanceFromCamera (pc_click s) = Fin (of_nat d) \<and>
    \<bar>real d - sqrt (of_rat ((num_val (v_x (pc_click s)))\<^sup>2 + (num_val (v_y (pc_click s)))\<^sup>2 + (num_val (v_z (pc_click s)))\<^sup>2))\<bar> < 1 / 2
    \<and> (\<exists>t. snd (pcd_readout s) = ''Distance From Camera: '' @ t @ ''mm'' \<and> parseFloat t = Fin (of_nat d))"
proof -
  have "whole3 (pc_click s)" unfolding assms(1)
    by (rule pcd_moves.run_inv) (simp add: pcd_init_def whole3_def new_Vector3_def)
  then have w: "whole (v_x (pc_click s))" "whole (v_y (pc_click s))" "whole (v_z (pc_click s))" by (simp_all add: whole3_def)
  obtain a where a: "num_val (v_x (pc_click s)) = of_int a" "num_mul (v_x (pc_click s)) (v_x (pc_click s)) = num_int (a * a)" "a * a \<le> 2 ^ 46"
    by (rule whole_square [OF assms(2) w(1) assms(5)])
  obtain b where b: "num_val (v_y (pc_click s)) = of_int b" "num_mul (v_y (pc_click s)) (v_y (pc_click s)) = num_int (b * b)" "b * b \<le> 2 ^ 46"
    by (rule whole_square [OF assms(3) w(2) assms(6)])
  obtain c where c: "num_val (v_z (pc_click s)) = of_int c" "num_mul (v_z (pc_click s)) (v_z (pc_click s)) = num_int (c * c)" "c * c \<le> 2 ^ 46"
    by (rule whole_square [OF assms(4) w(3) assms(7)])
  have eta: "\<lparr>v_x = v_x (pc_click s), v_y = v_y (pc_click s), v_z = v_z (pc_click s)\<rparr> = pc_click s" by simp
  have "(of_rat ((of_int a)\<^sup>2 + (of_int b)\<^sup>2 + (of_int c)\<^sup>2) :: real) = of_int (a * a + b * b + c * c)"
    by (simp add: of_rat_add of_rat_power power2_eq_square of_rat_mult)
  moreover obtain d where d: "distanceFromCamera (pc_click s) = Fin (of_nat d)"
    "\<bar>real d - sqrt (of_int (a * a + b * b + c * c))\<bar> < 1 / 2"
    using distance_of_ints [OF a(2) b(2) c(2) _ _ _ a(3) b(3) c(3)] unfolding eta by auto
  moreover have "a * a + b * b + c * c \<le> 3 * 2 ^ 46" using a(3) b(3) c(3) by linarith
  ultimately show ?thesis unfolding a(1) b(1) c(1) pcd_readout_def using distance_text [OF d(2)] by auto
qed

theorem distance_nearest_witness:
  "\<exists>d. distanceFromCamera (pc_click demo_start) = Fin (of_nat d) \<and> \<bar>real d\<bar> < 1 / 2
     \<and> (\<exists>t. snd (pcd_readout demo_start) = ''Distance From Camera: '' @ t @ ''mm'' \<and> parseFloat t = Fin (of_nat d))"
proof -
  have "pc_click demo_start = new_Vector3" by (simp add: demo_start_def pcd_init_def)
  moreover have "demo_start = final (pcd_handle demo_three err_message viewer_props) (pcd_init demo_three [] (new_Vector3, Fin 1)) []"
    by (simp add: demo_start_def)
  note distance_nearest [OF this]
  ultimately show ?thesis by (simp add: new_Vector3_def)
qed

end
