(* ===== verification/Arm_Page.thy ===== *)
theory Arm_Page
  imports App_Connection Arm
begin

text \<open>
  The arm panels inside the application shell. \<open>app.vue\<close> gives each panel the entries of its two status
  dictionaries under the arm's name; the raw status is the shell's own object, and the panel's joint
  operations write into its array. The displayed status is another object, made by \<open>fixArmStatus\<close> when
  the message came. A panel's edit form is its own state, kept here under the name of its resource.
\<close>

section \<open>Composition\<close>

record arm_page =
  pg_app :: app
  pg_toggle :: "resource_name \<Rightarrow> (string \<times> arm_edit) list"

definition arm_page_init :: arm_page where
  "arm_page_init = \<lparr>pg_app = app_init, pg_toggle = (\<lambda>_. [])\<rparr>"

text \<open>The panel of a resource with the props the template binds.\<close>

definition arm_panel :: "arm_page \<Rightarrow> resource_name \<Rightarrow> arm_state" where
  "arm_panel p r =
     \<lparr>ar_toggle = pg_toggle p r,
      ar_status = (case resourceStatusByName (ap_data (pg_app p)) r of Some (FixedArm st) \<Rightarrow> Some st | _ \<Rightarrow> None),
      ar_raw = or_undefined (rawResourceStatusByName (ap_data (pg_app p)) r)\<rparr>"

text \<open>What the panel has written into the shell's object.\<close>

definition write_raw :: "resource_name \<Rightarrow> jsval \<Rightarrow> robot_data \<Rightarrow> robot_data" where
  "write_raw r v d =
     (let k = resourceNameToString (Some r)
      in case map_of (rd_rawStatus d) k of
           None \<Rightarrow> d
         | Some w \<Rightarrow> d\<lparr>rd_rawStatus := AList.update k v (rd_rawStatus d)\<rparr>)"

text \<open>The user's events of a panel; its props come from the shell alone.\<close>

fun is_status :: "arm_event \<Rightarrow> bool" where
  "is_status (ArStatus raw st) = True"
| "is_status _ = False"

datatype arm_page_event = OfApp app_event | OfArm resource_name arm_event

definition arm_shown :: "app \<Rightarrow> resource_name \<Rightarrow> bool" where
  "arm_shown a r \<longleftrightarrow> r \<in> set (filterResources (rd_resources (ap_data a)) ''rdk'' ''component'' ''arm'')"

fun arm_page_handle :: "app_env \<Rightarrow> (arm_page, arm_page_event, effect) handler" where
  "arm_page_handle env p (OfApp e) = (let (a, os) = app_handle env (pg_app p) e in (p\<lparr>pg_app := a\<rparr>, os))"
| "arm_page_handle env p (OfArm r e) =
     (if arm_shown (pg_app p) r \<and> \<not> is_status e then
        (let (s, os) = arm_handle (rn_name r) (arm_panel p r) e
         in (p\<lparr>pg_toggle := (pg_toggle p)(r := ar_toggle s),
               pg_app := (pg_app p)\<lparr>ap_data := write_raw r (ar_raw s) (ap_data (pg_app p))\<rparr>\<rparr>, os))
      else (p, []))"

section \<open>The status objects, from the history of events\<close>

fun page_messages :: "arm_page_event \<Rightarrow> (resource_name \<times> jsval) list" where
  "page_messages (OfApp e) = status_messages e"
| "page_messages _ = []"

text \<open>Whether the arm panel of a name acted after the last message of that name that could be fixed.\<close>

definition arm_acted :: "string \<Rightarrow> arm_page_event list \<Rightarrow> bool" where
  "arm_acted k es \<longleftrightarrow> (\<exists>r e. OfArm r e \<in> set (takeWhile (\<lambda>e. last_fixable (page_messages e) k = None) (rev es)) \<and>
     resourceNameToString (Some r) = k \<and> rn_namespace r = ''rdk'' \<and> rn_type r = ''component'' \<and> rn_subtype r = ''arm'')"

definition dict_history :: "arm_page_event list \<Rightarrow> arm_page \<Rightarrow> string \<Rightarrow> bool" where
  "dict_history es p k \<longleftrightarrow>
     (case last_fixable (concat (map page_messages es)) k of
        None \<Rightarrow> map_of (rd_status (ap_data (pg_app p))) k = None \<and> map_of (rd_rawStatus (ap_data (pg_app p))) k = None
      | Some (r, v) \<Rightarrow>
          map_of (rd_status (ap_data (pg_app p))) k = Some (projr (fixRawStatus r v)) \<and>
          (\<exists>w. map_of (rd_rawStatus (ap_data (pg_app p))) k = Some w \<and>
             (w = v \<or> arm_acted k es \<and> (\<exists>xs. w = set_joints xs v))))"

lemma set_field_twice: "set_field k v (set_field k u w) = set_field k v w"
  by (cases w) simp_all

lemma get_set_field: "get_prop w k = Inr u \<Longrightarrow> (\<exists>ps. w = Obj ps) \<Longrightarrow> get_prop (set_field k v w) k = Inr v"
  by (auto simp: ofield_def dict_simps)

lemma set_joints_twice: "set_joints xs (set_joints ys v) = set_joints xs v"
proof (cases "\<exists>ps. v = Obj ps")
  case True
  then obtain ps where "v = Obj ps" ..
  then show ?thesis by (simp add: set_joints_def ofield_def dict_simps set_field_twice)
next
  case False
  then have "set_field k w v = v" for k w by (cases v) auto
  then show ?thesis by (simp add: set_joints_def split: sum.splits)
qed

lemma arm_handle_raw:
  assumes "\<not> is_status e"
  shows "ar_raw (fst (arm_handle n s e)) = ar_raw s \<or> (\<exists>xs. ar_raw (fst (arm_handle n s e)) = set_joints xs (ar_raw s))"
  using assms
  by (cases e) (auto simp: arm_ops armModifyAllCancel_def edit_pos_def edit_joint_def Let_def
      split: sum.splits option.splits)

lemma arm_acted_snoc:
  "arm_acted k (es @ [OfApp e]) \<longleftrightarrow> last_fixable (status_messages e) k = None \<and> arm_acted k es"
  "arm_acted k (es @ [OfArm r ae]) \<longleftrightarrow> arm_acted k es \<or> resourceNameToString (Some r) = k \<and>
     rn_namespace r = ''rdk'' \<and> rn_type r = ''component'' \<and> rn_subtype r = ''arm''"
  by (auto simp: arm_acted_def)

lemma write_raw_dicts:
  "map_of (rd_rawStatus (write_raw r v d)) k =
     (if k = resourceNameToString (Some r) then map_option (\<lambda>_. v) (map_of (rd_rawStatus d) k)
      else map_of (rd_rawStatus d) k)"
  "rd_status (write_raw r v d) = rd_status d"
  by (auto simp: write_raw_def dict_simps Let_def split: option.splits)

lemma app_step_history:
  assumes "dict_history es p k"
  shows "dict_history (es @ [OfApp e]) (fst (arm_page_handle env p (OfApp e))) k"
proof (cases "last_fixable (status_messages e) k")
  case None
  then show ?thesis using assms app_handle_dicts [of env "pg_app p" e k]
    by (auto simp: dict_history_def last_fixable_append arm_acted_snoc split_def Let_def split: option.splits)
next
  case (Some m)
  then show ?thesis using app_handle_dicts [of env "pg_app p" e k]
    by (simp add: dict_history_def last_fixable_append split_def Let_def)
qed

lemma arm_step_history:
  assumes h: "dict_history es p k"
  shows "dict_history (es @ [OfArm r e]) (fst (arm_page_handle env p (OfArm r e))) k"
proof (cases "arm_shown (pg_app p) r \<and> \<not> is_status e")
  case False
  then show ?thesis using h
    by (auto simp: dict_history_def last_fixable_append arm_acted_snoc split: option.splits)
next
  case True
  have arm: "rn_namespace r = ''rdk'' \<and> rn_type r = ''component'' \<and> rn_subtype r = ''arm''"
    using True set_filterResources by (auto simp: arm_shown_def)
  let ?s = "arm_panel p r"
  define w' where "w' = ar_raw (fst (arm_handle (rn_name r) ?s e))"
  have raw: "w' = ar_raw ?s \<or> (\<exists>xs. w' = set_joints xs (ar_raw ?s))"
    unfolding w'_def using True arm_handle_raw by blast
  have step: "ap_data (pg_app (fst (arm_page_handle env p (OfArm r e)))) = write_raw r w' (ap_data (pg_app p))"
    using True by (simp add: w'_def split_def Let_def)
  show ?thesis
  proof (cases "resourceNameToString (Some r) = k")
    case False
    then show ?thesis using h unfolding dict_history_def step
      by (auto simp: write_raw_dicts last_fixable_append arm_acted_snoc split: option.splits)
  next
    case k: True
    show ?thesis
    proof (cases "last_fixable (concat (map page_messages es)) k")
      case None
      then show ?thesis using h k unfolding dict_history_def step
        by (simp add: write_raw_dicts last_fixable_append)
    next
      case (Some m)
      obtain q v where m: "m = (q, v)" by (cases m)
      obtain w where w: "map_of (rd_rawStatus (ap_data (pg_app p))) k = Some w" "w = v \<or> (\<exists>xs. w = set_joints xs v)"
        and st: "map_of (rd_status (ap_data (pg_app p))) k = Some (projr (fixRawStatus q v))"
        using h Some m by (auto simp: dict_history_def)
      have "ar_raw ?s = w" using w(1) k by (simp add: arm_panel_def rawResourceStatusByName_def)
      then have "w' = v \<or> (\<exists>xs. w' = set_joints xs v)" using raw w(2) by (auto simp: set_joints_twice)
      then show ?thesis using Some m w(1) st k arm unfolding dict_history_def step
        by (simp add: write_raw_dicts last_fixable_append arm_acted_snoc)
    qed
  qed
qed

interpretation arm_page: trace_system "arm_page_handle env" arm_page_init "\<lambda>es p os. \<forall>k. dict_history es p k" for env
proof unfold_locales
  show "\<forall>k. dict_history [] arm_page_init k"
    by (simp add: dict_history_def arm_page_init_def app_init_def robot_init_def)
next
  fix es p e and os :: "effect list"
  assume "\<forall>k. dict_history es p k"
  then show "\<forall>k. dict_history (es @ [e]) (fst (arm_page_handle env p e)) k"
    by (cases e) (simp_all add: app_step_history arm_step_history del: arm_page_handle.simps)
qed

section \<open>Properties\<close>

text \<open>
  C5. The status objects of the shell with its arm panels, under any order of answers, status data, stream
  events and button presses: what is displayed under a name is the fixed form of the last message of that
  name that could be fixed, and a name without such a message has no status. The raw status is that
  message itself; only if the panel of that arm acted since, the joint values in it may differ.
\<close>

theorem statuses_from_messages:
  "let d = ap_data (pg_app (final (arm_page_handle env) arm_page_init es))
   in case last_fixable (concat (map page_messages es)) k of
        None \<Rightarrow> map_of (rd_status d) k = None \<and> map_of (rd_rawStatus d) k = None
      | Some (r, v) \<Rightarrow>
          map_of (rd_status d) k = Some (projr (fixRawStatus r v)) \<and>
          (\<exists>w. map_of (rd_rawStatus d) k = Some w \<and>
             (w = v \<or> arm_acted k es \<and> (\<exists>xs. w = set_joints xs v)))"
  using arm_page.run_trace [of es env] unfolding dict_history_def Let_def by blast



end
