(* ===== verification/Cloud_Panels.thy ===== *)
theory Cloud_Panels
  imports Streams Slam Pcd_Laws
begin

text \<open>
  The panels that contain a point cloud viewer: \<open>camera.vue\<close> and \<open>slam.vue\<close>. The page is rendered
  again before the next event: a viewer is set up and mounted when its condition becomes true, told
  of a new cloud when the panel stores one, and unmounted when the condition becomes false or the
  panel goes. The locale \<open>cloud_panel\<close> is what the composition needs of a panel; \<open>cloud_host\<close> adds the
  laws of three.js and shows that the viewer always displays the cloud its panel received last.
\<close>

section \<open>A panel with a viewer\<close>

record ('sc, 'm, 'g) viewer_env =
  ve_three :: "('sc, 'm, 'g) three"
  ve_errText :: "service_error \<Rightarrow> string"
  ve_scene :: 'sc
  ve_matrix :: 'm

text \<open>
  What the composition uses of a panel: its handler, the condition of the viewer and the events that
  switch it, the cloud and the events that bring one, and the props it binds for given resources.
\<close>

record ('p, 'e, 'o) cloud_iface =
  ci_handle :: "('p, 'e, 'o) handler"
  ci_shows :: "'p \<Rightarrow> bool"
  ci_cloud :: "'p \<Rightarrow> bytes option"
  ci_toggles :: "'e \<Rightarrow> bool"
  ci_loads :: "'e \<Rightarrow> bytes option"
  ci_props :: "resource_name list \<Rightarrow> pcd_props"
  ci_effect :: "effect \<Rightarrow> 'o"

record ('p, 'v) host =
  ho_mounted :: bool
  ho_resources :: "resource_name list"
  ho_panel :: 'p
  ho_viewer :: "'v option"

datatype 'e host_event = OnPanel 'e | OnViewer pcd_event | HostResources "resource_name list" | HostUnmounted

definition viewer_step :: "('sc, 'm, 'g) viewer_env \<Rightarrow> pcd_props \<Rightarrow> (('sc, 'm, 'g) pcd, pcd_event, effect) handler" where
  "viewer_step V props = pcd_handle (ve_three V) (ve_errText V) props"

definition viewer_start :: "('sc, 'm, 'g) viewer_env \<Rightarrow> ('sc, 'm, 'g) pcd" where
  "viewer_start V = pcd_init (ve_three V) (ve_scene V) (ve_matrix V)"

definition render ::
  "('sc, 'm, 'g) viewer_env \<Rightarrow> pcd_props \<Rightarrow> bool \<Rightarrow> bool \<Rightarrow> bytes option \<Rightarrow> ('sc, 'm, 'g) pcd option \<Rightarrow> ('sc, 'm, 'g) pcd option \<times> effect list" where
  "render V props shown loaded cl viewer =
     (case viewer of
        None \<Rightarrow> if shown then map_prod Some id (viewer_step V props (viewer_start V) (PcMounted cl)) else (None, [])
      | Some v \<Rightarrow>
          if \<not> shown then (None, snd (viewer_step V props v PcUnmounted))
          else if loaded then map_prod Some id (viewer_step V props v (PcCloud cl)) else (Some v, []))"

text \<open>The events of a viewer that do not come from its panel.\<close>

fun own_event :: "pcd_event \<Rightarrow> bool" where
  "own_event (PcMounted b) = False"
| "own_event PcUnmounted = False"
| "own_event (PcCloud b) = False"
| "own_event _ = True"

text \<open>An answer to a move that arrives after the viewer has gone is still reported.\<close>

fun late_answer :: "('sc, 'm, 'g) viewer_env \<Rightarrow> pcd_event \<Rightarrow> effect list" where
  "late_answer V (PcMoved r) = handleMove_done (ve_errText V) r"
| "late_answer V _ = []"

fun host_handle ::
  "('sc, 'm, 'g) viewer_env \<Rightarrow> ('p, 'e, 'o) cloud_iface \<Rightarrow> (('p, ('sc, 'm, 'g) pcd) host, 'e host_event, 'o) handler" where
  "host_handle V P h (OnPanel e) =
     (let (p, os) = ci_handle P (ho_panel h) e;
          (v, ps) = render V (ci_props P (ho_resources h)) (ho_mounted h \<and> ci_shows P p)
            (ci_loads P e \<noteq> None) (ci_cloud P p) (ho_viewer h)
      in (h\<lparr>ho_panel := p, ho_viewer := v\<rparr>, os @ map (ci_effect P) ps))"
| "host_handle V P h (OnViewer e) =
     (case ho_viewer h of
        None \<Rightarrow> (h, map (ci_effect P) (late_answer V e))
      | Some v \<Rightarrow>
          if own_event e
          then (let (v', ps) = viewer_step V (ci_props P (ho_resources h)) v e in (h\<lparr>ho_viewer := Some v'\<rparr>, map (ci_effect P) ps))
          else (h, []))"
| "host_handle V P h (HostResources rs) = (h\<lparr>ho_resources := rs\<rparr>, [])"
| "host_handle V P h HostUnmounted =
     (let (v, ps) = render V (ci_props P (ho_resources h)) False False None (ho_viewer h)
      in (h\<lparr>ho_mounted := False, ho_viewer := v\<rparr>, map (ci_effect P) ps))"

definition host_start :: "resource_name list \<Rightarrow> 'p \<Rightarrow> ('p, 'v) host" where
  "host_start rs p = \<lparr>ho_mounted = True, ho_resources = rs, ho_panel = p, ho_viewer = None\<rparr>"

text \<open>The props the templates bind: the camera panel passes its name to the viewer, the slam panel passes none.\<close>

definition camera_props :: "resource_name list \<Rightarrow> string \<Rightarrow> pcd_props" where
  "camera_props resources cameraName = \<lparr>pp_resources = resources, pp_cameraName = Some cameraName\<rparr>"

definition slam_props :: "resource_name list \<Rightarrow> pcd_props" where
  "slam_props resources = \<lparr>pp_resources = resources, pp_cameraName = None\<rparr>"

fun camera_loads :: "cam_event \<Rightarrow> bytes option" where
  "camera_loads (CamPointCloud None b) = Some b"
| "camera_loads _ = None"

definition camera_iface :: "(service_error \<Rightarrow> string) \<Rightarrow> string \<Rightarrow> (cam_world, cam_event, cam_out) cloud_iface" where
  "camera_iface et n = \<lparr>ci_handle = camera_handle et n, ci_shows = (\<lambda>w. cam_pcdExpanded (fst w)),
     ci_cloud = (\<lambda>w. cam_pointcloud (fst w)), ci_toggles = (\<lambda>e. e = CamTogglePCD), ci_loads = camera_loads,
     ci_props = (\<lambda>rs. camera_props rs n), ci_effect = Eff\<rparr>"

fun slam_loads :: "slam_event \<Rightarrow> bytes option" where
  "slam_loads (SlPCD (Inr (Some b))) = Some b"
| "slam_loads _ = None"

definition slam_iface :: "string \<Rightarrow> (slam_state, slam_event, effect) cloud_iface" where
  "slam_iface n = \<lparr>ci_handle = slam_handle n, ci_shows = sl_showPCD, ci_cloud = sl_pointcloud,
     ci_toggles = (\<lambda>e. e = SlTogglePCD), ci_loads = slam_loads, ci_props = slam_props, ci_effect = id\<rparr>"

section \<open>The contract of a panel\<close>

locale cloud_panel =
  fixes P :: "('p, 'e, 'o) cloud_iface"
  assumes cloud_after: "ci_cloud P (fst (ci_handle P p e)) = (case ci_loads P e of None \<Rightarrow> ci_cloud P p | Some b \<Rightarrow> Some b)"
    and shows_after: "ci_shows P (fst (ci_handle P p e)) = (ci_shows P p \<noteq> ci_toggles P e)"

lemma viewCamera_cloud:
  "cam_pointcloud (fst (fst (viewCamera n isOn w))) = cam_pointcloud (fst w)"
  "cam_pcdExpanded (fst (fst (viewCamera n isOn w))) = cam_pcdExpanded (fst w)"
  by (simp_all add: viewCamera_def split_def Let_def)

lemmas camera_ops = cam_toggleExpand_def selectCameraView_def viewCamera_cloud cam_togglePCDExpand_def
  renderPCD_done_def split_def Let_def

interpretation camera_cloud: cloud_panel "camera_iface et n" for et n
proof
  fix w :: cam_world and e :: cam_event
  obtain cs st where w: "w = (cs, st)" by fastforce
  show "ci_cloud (camera_iface et n) (fst (ci_handle (camera_iface et n) w e)) =
      (case ci_loads (camera_iface et n) e of None \<Rightarrow> ci_cloud (camera_iface et n) w | Some b \<Rightarrow> Some b)"
    by (cases e) (auto simp: camera_iface_def w camera_ops split: option.splits)
  show "ci_shows (camera_iface et n) (fst (ci_handle (camera_iface et n) w e)) =
      (ci_shows (camera_iface et n) w \<noteq> ci_toggles (camera_iface et n) e)"
    by (cases e) (auto simp: camera_iface_def w camera_ops split: option.splits)
qed

lemma slam_frequency_cloud:
  "sl_pointcloud (fst (updateSLAMImageRefreshFrequency n t s)) = sl_pointcloud s"
  "sl_pointcloud (fst (updateSLAMPCDRefreshFrequency n t s)) = sl_pointcloud s"
  "sl_showPCD (fst (updateSLAMImageRefreshFrequency n t s)) = sl_showPCD s"
  "sl_showPCD (fst (updateSLAMPCDRefreshFrequency n t s)) = sl_showPCD s"
  by (auto simp: updateSLAMImageRefreshFrequency_def updateSLAMPCDRefreshFrequency_def viewSLAMImageMap_def viewSLAMPCDMap_def
      sl_setInterval_def sl_clearInterval_def Let_def)

lemmas slam_ops = toggleImageExpand_def slam_togglePCDExpand_def selectSLAMImageRefreshFrequency_def
  selectSLAMPCDRefreshFrequency_def refreshImageMap_def refreshPCDMap_def slam_frequency_cloud viewSLAMImageMap_done_def
  viewSLAMPCDMap_done_def slam_view_now_def viewSLAMImageMap_def viewSLAMPCDMap_def Let_def

interpretation slam_cloud: cloud_panel "slam_iface n" for n
proof
  fix s :: slam_state and e :: slam_event
  show "ci_cloud (slam_iface n) (fst (ci_handle (slam_iface n) s e)) =
      (case ci_loads (slam_iface n) e of None \<Rightarrow> ci_cloud (slam_iface n) s | Some b \<Rightarrow> Some b)"
    by (cases e) (auto simp: slam_iface_def slam_ops split: option.splits sum.splits list.splits slam_view.splits)
  show "ci_shows (slam_iface n) (fst (ci_handle (slam_iface n) s e)) = (ci_shows (slam_iface n) s \<noteq> ci_toggles (slam_iface n) e)"
    by (cases e) (auto simp: slam_iface_def slam_ops split: option.splits sum.splits list.splits slam_view.splits)
qed

section \<open>The viewer shows the cloud received last\<close>

text \<open>A cloud that cannot be parsed, like no cloud at all, leaves the scene without points.\<close>

definition shows_last ::
  "('sc, 'm, 'g) three \<Rightarrow> ('sc \<Rightarrow> obj set) \<Rightarrow> ('m \<Rightarrow> jsnum) \<Rightarrow> (jsnum \<Rightarrow> jsnum) \<Rightarrow> bytes option \<Rightarrow> ('sc, 'm, 'g) pcd \<Rightarrow> bool" where
  "shows_last T objs scale_of store b v \<longleftrightarrow>
     (case map_option (th_parse T) b of
        Some (Inr c) \<Rightarrow> \<exists>z. shows_cloud T objs scale_of store c z v
      | _ \<Rightarrow> \<forall>i. Points i \<notin> objs (pc_scene v))"

lemma shows_last_cong:
  assumes "\<And>i. Points i \<in> objs (pc_scene t) \<longleftrightarrow> Points i \<in> objs (pc_scene s)" "pc_mesh t = pc_mesh s" "pc_meshes t = pc_meshes s"
  shows "shows_last T objs scale_of store b t = shows_last T objs scale_of store b s"
proof -
  have "shows_cloud T objs scale_of store c z t = shows_cloud T objs scale_of store c z s" for c z
    using assms by (simp add: shows_cloud_def)
  then show ?thesis using assms(1) by (simp add: shows_last_def split: option.splits sum.splits)
qed

context three_laws
begin

lemma load_shows_last:
  assumes "pcd_ok s"
  shows "shows_last T objs scale_of store (Some cl) (fst (load_option T (Some cl) s))"
proof (cases "th_parse T cl")
  case (Inl x)
  have "Points i \<in> objs (pc_scene s) \<Longrightarrow> pc_mesh s = Some i" for i using assms by (simp add: pcd_ok_def scene_ok_def)
  then have "\<forall>i. Points i \<notin> objs (pc_scene (fst (load_option T (Some cl) s)))" using Inl
    by (auto simp: load_option_def pcd_load_def pcd_update_def andThen_def split_def Let_def objs_remove split: option.splits)
  then show ?thesis using Inl by (simp add: shows_last_def)
next
  case (Inr c)
  then show ?thesis using load_shows(2) [OF Inr, of s] by (auto simp: shows_last_def)
qed

lemma resize_shows_last:
  assumes "pcd_ok s" "shows_last T objs scale_of store b s"
  shows "shows_last T objs scale_of store b (fst (handlePointsResize T x s))"
proof (cases "\<exists>i. Points i \<in> objs (pc_scene s)")
  case True
  then obtain c z where c: "map_option (th_parse T) b = Some (Inr c)" "shows_cloud T objs scale_of store c z s"
    using assms(2) by (auto simp: shows_last_def split: option.splits sum.splits)
  then show ?thesis using resize_shows(2) [OF assms(1) c(2), of x] by (auto simp: shows_last_def)
next
  case False
  have "th_named T ''points'' (pc_scene s) \<noteq> Some (Points i)" for i using False named_Some by blast
  then have "fst (handlePointsResize T x s) = s" by (simp add: handlePointsResize_def split: option.splits obj.splits)
  then show ?thesis using assms(2) by simp
qed

text \<open>Nothing the user does inside the viewer changes which cloud it shows.\<close>

lemma own_event_shows_last:
  assumes "pcd_ok s" "pc_objects s = []" "shows_last T objs scale_of store b s" "own_event e"
  shows "shows_last T objs scale_of store b (fst (pcd_handle T et props s e))"
proof -
  have same: "shows_last T objs scale_of store b t"
    if "\<And>i. Points i \<in> objs (pc_scene t) \<longleftrightarrow> Points i \<in> objs (pc_scene s)" "pc_mesh t = pc_mesh s" "pc_meshes t = pc_meshes s" for t
    using assms(3) shows_last_cong [OF that] by simp
  show ?thesis
  proof (cases e)
    case (PcResize x)
    then show ?thesis using resize_shows_last [OF assms(1,3)] by (simp add: split_def Let_def)
  next
    case (PcSelectObject x)
    then show ?thesis using assms(2,3)
      by (simp add: handleSelectObject_def loadSegment_def loadBoundingBox_def loadPoint_def segment_at_def)
  next
    case (PcMouseUp m)
    have "pc_scene (fst (handleCanvasMouseUp T m s)) = pc_scene s" "pc_mesh (fst (handleCanvasMouseUp T m s)) = pc_mesh s"
      "pc_meshes (fst (handleCanvasMouseUp T m s)) = pc_meshes s"
      by (auto simp: handleCanvasMouseUp_def setPoint_def Let_def split: option.splits sum.splits obj.splits)
    then show ?thesis using PcMouseUp by (intro same) simp_all
  qed (use assms(3,4) in \<open>auto intro!: same simp: handleCanvasMouseDown_def handleCenter_def setPoint_def handleToggleGrid_def
      handleToggleTransformControls_def handleTransformModeChange_def dragging_changed_def objs_add objs_remove Let_def\<close>)
qed

lemma start_shows_last:
  assumes "objs scene = {}"
  shows "shows_last T objs scale_of store b (fst (load_option T b ((pcd_init T scene matrix)\<lparr>pc_animating := True\<rparr>)))"
proof (cases b)
  case None
  then show ?thesis using assms by (simp add: shows_last_def load_option_def pcd_init_def objs_add)
next
  case (Some cl)
  have "pcd_ok ((pcd_init T scene matrix)\<lparr>pc_animating := True\<rparr>)"
    using pcd_ok_init [OF assms, of matrix] pcd_ok_cong [of "(pcd_init T scene matrix)\<lparr>pc_animating := True\<rparr>" "pcd_init T scene matrix"]
    by simp
  then show ?thesis using Some load_shows_last by simp
qed

end

locale cloud_host = three_laws "ve_three V" objs scale_of store + cloud_panel P
  for V :: "('sc, 'm, 'g) viewer_env" and objs :: "'sc \<Rightarrow> obj set" and scale_of :: "'m \<Rightarrow> jsnum" and store :: "jsnum \<Rightarrow> jsnum"
    and P :: "('p, 'e, 'o) cloud_iface" +
  fixes rs0 :: "resource_name list" and p0 :: 'p
  assumes empty_scene: "objs (ve_scene V) = {}"
    and starts_hidden: "\<not> ci_shows P p0" "ci_cloud P p0 = None"
begin

text \<open>The viewer keeps its own invariant and shows a given cloud.\<close>

definition viewer_good :: "bytes option \<Rightarrow> ('sc, 'm, 'g) pcd \<Rightarrow> bool" where
  "viewer_good b v \<longleftrightarrow> pcd_ok v \<and> pc_objects v = [] \<and> shows_last (ve_three V) objs scale_of store b v"

text \<open>The cloud, the condition of the viewer and the resources, from the events.\<close>

definition last_cloud :: "'e host_event list \<Rightarrow> bytes option" where
  "last_cloud es = last_input (\<lambda>e. case e of OnPanel x \<Rightarrow> map_option Some (ci_loads P x) | _ \<Rightarrow> None) None es"

definition toggled :: "'e host_event list \<Rightarrow> bool" where
  "toggled es \<longleftrightarrow> odd (length (filter (\<lambda>e. case e of OnPanel x \<Rightarrow> ci_toggles P x | _ \<Rightarrow> False) es))"

definition host_ok :: "'e host_event list \<Rightarrow> ('p, ('sc, 'm, 'g) pcd) host \<Rightarrow> bool" where
  "host_ok es h \<longleftrightarrow> ho_mounted h = (HostUnmounted \<notin> set es) \<and> ci_shows P (ho_panel h) = toggled es \<and>
     ci_cloud P (ho_panel h) = last_cloud es \<and> (ho_viewer h \<noteq> None \<longleftrightarrow> ho_mounted h \<and> toggled es) \<and>
     (\<forall>v. ho_viewer h = Some v \<longrightarrow> viewer_good (last_cloud es) v)"

lemma viewer_mounted: "viewer_good b (fst (viewer_step V props (viewer_start V) (PcMounted b)))"
proof -
  have "pcd_ok (viewer_start V)" unfolding viewer_start_def by (rule pcd_ok_init [OF empty_scene])
  then show ?thesis
    using pcd_ok_step [of "viewer_start V" "ve_errText V" props "PcMounted b"] start_shows_last [OF empty_scene, of b "ve_matrix V"]
      no_objects_step [of "viewer_start V" "ve_three V" "ve_errText V" props "PcMounted b"]
    by (simp add: viewer_good_def viewer_step_def viewer_start_def pcd_init_def)
qed

lemma viewer_loaded: "viewer_good b v \<Longrightarrow> viewer_good (Some cl) (fst (viewer_step V props v (PcCloud (Some cl))))"
  using pcd_ok_step [of v "ve_errText V" props "PcCloud (Some cl)"] load_shows_last [of v cl]
    no_objects_step [of v "ve_three V" "ve_errText V" props "PcCloud (Some cl)"]
  by (simp add: viewer_good_def viewer_step_def)

lemma viewer_own: "viewer_good b v \<Longrightarrow> own_event e \<Longrightarrow> viewer_good b (fst (viewer_step V props v e))"
  using pcd_ok_step [of v "ve_errText V" props e] own_event_shows_last [of v b e "ve_errText V" props]
    no_objects_step [of v "ve_three V" "ve_errText V" props e]
  by (simp add: viewer_good_def viewer_step_def)

lemma render_ok:
  assumes "\<And>v. viewer = Some v \<Longrightarrow> viewer_good b v" "loaded \<Longrightarrow> b' \<noteq> None" "\<not> loaded \<Longrightarrow> b' = b"
  shows "fst (render V props shown loaded b' viewer) \<noteq> None \<longleftrightarrow> shown"
    and "fst (render V props shown loaded b' viewer) = Some w \<Longrightarrow> viewer_good b' w"
  using assms viewer_mounted viewer_loaded by (auto simp: render_def split: option.splits if_splits)

lemma host_ok_step:
  assumes ok: "host_ok es h"
  shows "host_ok (es @ [e]) (fst (host_handle V P h e))"
proof (cases e)
  case (OnPanel x)
  let ?p = "fst (ci_handle P (ho_panel h) x)"
  define c sh where "c = last_cloud (es @ [e])" and "sh \<longleftrightarrow> toggled (es @ [e])"
  have c: "c = (case ci_loads P x of None \<Rightarrow> last_cloud es | Some b \<Rightarrow> Some b)"
    using OnPanel by (simp add: c_def last_cloud_def split: option.splits)
  have p: "ci_cloud P ?p = c" "ci_shows P ?p = sh"
    using ok OnPanel by (auto simp: host_ok_def cloud_after shows_after c sh_def toggled_def split: option.splits)
  have step: "fst (host_handle V P h e) = h\<lparr>ho_panel := ?p, ho_viewer := fst (render V (ci_props P (ho_resources h))
      (ho_mounted h \<and> sh) (ci_loads P x \<noteq> None) c (ho_viewer h))\<rparr>"
    using OnPanel by (simp add: split_def Let_def p)
  have "\<And>v. ho_viewer h = Some v \<Longrightarrow> viewer_good (last_cloud es) v" "ci_loads P x \<noteq> None \<Longrightarrow> c \<noteq> None"
    "\<not> ci_loads P x \<noteq> None \<Longrightarrow> c = last_cloud es" using ok by (auto simp: host_ok_def c)
  note r = render_ok [of "ho_viewer h" "last_cloud es" "ci_loads P x \<noteq> None" c "ci_props P (ho_resources h)" "ho_mounted h \<and> sh", OF this]
  have "ho_mounted h = (HostUnmounted \<notin> set (es @ [e]))" using ok OnPanel by (simp add: host_ok_def)
  then show ?thesis using r unfolding host_ok_def step c_def [symmetric] sh_def [symmetric] by (simp add: p)
next
  case (OnViewer x)
  then have "toggled (es @ [e]) = toggled es" "last_cloud (es @ [e]) = last_cloud es"
    by (simp_all add: toggled_def last_cloud_def)
  then show ?thesis using ok OnViewer viewer_own by (auto simp: host_ok_def split_def Let_def split: option.splits)
next
  case (HostResources rs)
  then show ?thesis using ok by (simp add: host_ok_def toggled_def last_cloud_def)
next
  case HostUnmounted
  then show ?thesis using ok
    by (auto simp: host_ok_def render_def toggled_def last_cloud_def split_def Let_def split: option.splits)
qed

end

sublocale cloud_host \<subseteq> host: trace_system "host_handle V P" "host_start rs0 p0" "\<lambda>es h os. host_ok es h"
proof unfold_locales
  show "host_ok [] (host_start rs0 p0)"
    using starts_hidden by (simp add: host_ok_def host_start_def toggled_def last_cloud_def)
qed (rule host_ok_step)

context cloud_host
begin

lemma run_shows_last:
  "let h = final (host_handle V P) (host_start rs0 p0) es
   in (ho_viewer h \<noteq> None \<longleftrightarrow> HostUnmounted \<notin> set es \<and> toggled es) \<and>
      (\<forall>v. ho_viewer h = Some v \<longrightarrow> shows_last (ve_three V) objs scale_of store (last_cloud es) v \<and> scene_ok objs v)"
  using host.run_trace [of es] by (auto simp: Let_def host_ok_def viewer_good_def pcd_ok_def)

end

section \<open>The moves a panel's viewer asks for\<close>

text \<open>A panel that sends no motion request itself.\<close>

locale quiet_panel =
  fixes P :: "('p, 'e, 'o) cloud_iface"
  assumes effect_inj: "ci_effect P x = ci_effect P y \<Longrightarrow> x = y"
    and quiet: "ci_effect P (Call (MotionReq r)) \<notin> set (snd (ci_handle P p e))"
begin

definition clicks_whole :: "('p, ('sc, 'm, 'g) pcd) host \<Rightarrow> bool" where
  "clicks_whole h \<longleftrightarrow> (\<forall>v. ho_viewer h = Some v \<longrightarrow> whole3 (pc_click v))"

definition good_move :: "pcd_props \<Rightarrow> 'o \<Rightarrow> bool" where
  "good_move props o' \<longleftrightarrow> (\<forall>r. o' = ci_effect P (Call (MotionReq r)) \<longrightarrow> move_typed props (Call (MotionReq r)))"

lemma good_effects: "(\<And>x. x \<in> set os \<Longrightarrow> move_typed props x) \<Longrightarrow> o' \<in> set (map (ci_effect P) os) \<Longrightarrow> good_move props o'"
  using effect_inj by (auto simp: good_move_def)

lemma viewer_whole: "whole3 (pc_click v) \<Longrightarrow> whole3 (pc_click (fst (viewer_step V props v e)))"
  by (simp add: viewer_step_def whole3_step)

lemma viewer_typed: "whole3 (pc_click v) \<Longrightarrow> x \<in> set (snd (viewer_step V props v e)) \<Longrightarrow> move_typed props x"
  unfolding viewer_step_def by (rule move_typed_step)

lemma start_whole: "whole3 (pc_click (viewer_start V))"
  by (simp add: viewer_start_def pcd_init_def whole3_def new_Vector3_def)

lemma render_whole:
  assumes "\<And>v. viewer = Some v \<Longrightarrow> whole3 (pc_click v)"
  shows "fst (render V props shown loaded b viewer) = Some w \<Longrightarrow> whole3 (pc_click w)"
  using assms by (auto simp: render_def split: option.splits if_splits intro: viewer_whole viewer_whole [OF start_whole])

lemma render_typed: "clicks_whole h \<Longrightarrow> x \<in> set (snd (render V props shown loaded b (ho_viewer h))) \<Longrightarrow> move_typed props x"
  by (auto simp: render_def clicks_whole_def split: option.splits if_splits
      intro: viewer_typed viewer_typed [OF start_whole])

lemma late_typed: "x \<in> set (late_answer V e) \<Longrightarrow> move_typed props x"
  by (cases e) (auto simp: handleMove_done_def split: sum.splits)

lemma clicks_whole_step: "clicks_whole h \<Longrightarrow> clicks_whole (fst (host_handle V P h e))"
  using render_whole [of "ho_viewer h" V] viewer_whole
  by (cases e) (auto simp: clicks_whole_def split_def Let_def split: option.splits)

text \<open>The moves of a step are typed by the props bound when it happens.\<close>

lemma good_move_step:
  "clicks_whole h \<Longrightarrow> o' \<in> set (snd (host_handle V P h e)) \<Longrightarrow> good_move (ci_props P (ho_resources h)) o'"
proof (cases e)
  case (OnPanel x)
  let ?props = "ci_props P (ho_resources h)"
  assume h: "clicks_whole h" and o: "o' \<in> set (snd (host_handle V P h e))"
  then consider "o' \<in> set (snd (ci_handle P (ho_panel h) x))" | shown b where
    "o' \<in> set (map (ci_effect P) (snd (render V ?props shown (ci_loads P x \<noteq> None) b (ho_viewer h))))"
    using OnPanel by (auto simp: split_def Let_def)
  then show ?thesis
  proof cases
    case 1
    then show ?thesis using quiet by (auto simp: good_move_def)
  next
    case 2
    then show ?thesis by (rule good_effects [rotated]) (erule render_typed [OF h])
  qed
next
  case (OnViewer x)
  let ?props = "ci_props P (ho_resources h)"
  assume h: "clicks_whole h" and o: "o' \<in> set (snd (host_handle V P h e))"
  show ?thesis
  proof (cases "ho_viewer h")
    case None
    then show ?thesis using OnViewer o good_effects [of "late_answer V x", OF late_typed] by simp
  next
    case (Some v)
    then have "o' \<in> set (map (ci_effect P) (snd (viewer_step V ?props v x)))"
      using OnViewer o by (auto simp: split_def Let_def split: if_splits)
    moreover have "whole3 (pc_click v)" using h Some by (simp add: clicks_whole_def)
    ultimately show ?thesis by (intro good_effects [rotated]) (auto intro: viewer_typed)
  qed
next
  case (HostResources rs)
  assume "o' \<in> set (snd (host_handle V P h e))"
  then show ?thesis using HostResources by simp
next
  case HostUnmounted
  let ?props = "ci_props P (ho_resources h)"
  assume h: "clicks_whole h" and "o' \<in> set (snd (host_handle V P h e))"
  then have "o' \<in> set (map (ci_effect P) (snd (render V ?props False False None (ho_viewer h))))"
    using HostUnmounted by (simp add: split_def Let_def)
  then show ?thesis by (rule good_effects [rotated]) (erule render_typed [OF h])
qed

end

fun resources_in :: "'e host_event \<Rightarrow> resource_name list option" where
  "resources_in (HostResources rs) = Some rs"
| "resources_in _ = None"

context quiet_panel
begin

lemma host_resources_step: "ho_resources (fst (host_handle V P h e)) = (case resources_in e of None \<Rightarrow> ho_resources h | Some rs \<Rightarrow> rs)"
  by (cases e) (auto simp: split_def Let_def split: option.splits)

end

sublocale quiet_panel \<subseteq> moves: trace_system "host_handle V P" "host_start rs0 p0"
    "\<lambda>es h os. clicks_whole h \<and> ho_resources h = last_input resources_in rs0 es" for V rs0 p0
  by unfold_locales (simp add: clicks_whole_def host_start_def, simp add: clicks_whole_step host_resources_step split: option.splits)

context quiet_panel
begin

lemma run_moves:
  assumes "ci_effect P (Call (MotionReq r)) \<in> set (snd (host_handle V P (final (host_handle V P) (host_start rs0 p0) es) e))"
  shows "move_typed (ci_props P (last_input resources_in rs0 es)) (Call (MotionReq r))"
  using good_move_step [OF _ assms] moves.run_trace [of V rs0 p0 es] by (simp add: good_move_def)

end

lemma viewCamera_quiet: "Eff (Call (MotionReq r)) \<notin> set (snd (viewCamera n isOn w))"
  by (auto simp: viewCamera_def viewCamera_request_def addStream_def removeStream_def split_def Let_def)

interpretation camera_quiet: quiet_panel "camera_iface et n" for et n
proof
  fix r e and w :: cam_world
  obtain cs st where "w = (cs, st)" by fastforce
  then show "ci_effect (camera_iface et n) (Call (MotionReq r)) \<notin> set (snd (ci_handle (camera_iface et n) w e))"
    by (cases e) (auto simp: camera_iface_def cam_toggleExpand_def selectCameraView_def viewCamera_quiet cam_togglePCDExpand_def renderPCD_def
        renderPCD_done_def refreshCamera_def exportScreenshot_def exportScreenshot_done_def viewCamera_rest_def displayError_def split_def Let_def
        split: option.splits if_splits)
qed (simp add: camera_iface_def)

lemma slam_frequency_quiet:
  "Call (MotionReq r) \<notin> set (snd (updateSLAMImageRefreshFrequency n t s))"
  "Call (MotionReq r) \<notin> set (snd (updateSLAMPCDRefreshFrequency n t s))"
  by (auto simp: updateSLAMImageRefreshFrequency_def updateSLAMPCDRefreshFrequency_def viewSLAMImageMap_def viewSLAMPCDMap_def Let_def)

interpretation slam_quiet: quiet_panel "slam_iface n" for n
proof
  fix r e and s :: slam_state
  show "ci_effect (slam_iface n) (Call (MotionReq r)) \<notin> set (snd (ci_handle (slam_iface n) s e))"
    by (cases e) (auto simp: slam_iface_def toggleImageExpand_def slam_togglePCDExpand_def selectSLAMImageRefreshFrequency_def
        selectSLAMPCDRefreshFrequency_def refreshImageMap_def refreshPCDMap_def slam_frequency_quiet viewSLAMImageMap_done_def
        viewSLAMPCDMap_done_def viewSLAMPCDMap_tick_def slam_view_now_def viewSLAMImageMap_def viewSLAMPCDMap_def displayError_def Let_def
        split: option.splits sum.splits list.splits slam_view.splits)
qed (simp add: slam_iface_def)

section \<open>Properties\<close>

definition demo_viewer :: "(obj list, demo_matrix, demo_matrix list) viewer_env" where
  "demo_viewer = \<lparr>ve_three = demo_three, ve_errText = err_message, ve_scene = [], ve_matrix = (new_Vector3, Fin 1)\<rparr>"

text \<open>The two panels under the laws of three.js; the demonstration instance meets them.\<close>

lemma camera_host:
  assumes "three_laws (ve_three V) objs scale_of store" "objs (ve_scene V) = {}"
  shows "cloud_host V objs scale_of store (camera_iface et n) (camera_init, st)"
  using assms by (intro cloud_host.intro cloud_host_axioms.intro camera_cloud.cloud_panel_axioms)
    (simp_all add: camera_iface_def camera_init_def)

lemma slam_host:
  assumes "three_laws (ve_three V) objs scale_of store" "objs (ve_scene V) = {}"
  shows "cloud_host V objs scale_of store (slam_iface n) slam_init"
  using assms by (intro cloud_host.intro cloud_host_axioms.intro slam_cloud.cloud_panel_axioms)
    (simp_all add: slam_iface_def slam_init_def)

lemma demo_laws: "three_laws (ve_three demo_viewer) set snd fround" "set (ve_scene demo_viewer) = {}"
  by (simp_all add: demo_viewer_def demo.three_laws_axioms)

interpretation demo_camera: cloud_host demo_viewer set snd fround "camera_iface err_message ''cam''" rs "(camera_init, st)" for rs st
  by (rule camera_host [OF demo_laws])

interpretation demo_slam: cloud_host demo_viewer set snd fround "slam_iface ''slam''" rs slam_init for rs
  by (rule slam_host [OF demo_laws])

text \<open>
  C11. The camera panel and its viewer together: whatever is pressed, clicked or answered, and in
  whatever order, the viewer is on the page exactly while the panel is there and the point cloud was
  switched an odd number of times, and then it shows the cloud of the last answer without an error, all
  points at one scale, or no point if there was none or it cannot be parsed. Nothing done inside the
  viewer, no error and no new list of resources changes that.
\<close>

theorem camera_shows_last_cloud:
  assumes "three_laws (ve_three V) objs scale_of store" "objs (ve_scene V) = {}"
    and h: "h = final (host_handle V (camera_iface et n)) (host_start rs (camera_init, st)) es"
  shows "let clouds = concat (map (\<lambda>e. case e of OnPanel (CamPointCloud None b) \<Rightarrow> [b] | _ \<Rightarrow> []) es);
             shown = (if clouds = [] then None else Some (last clouds))
         in (ho_viewer h \<noteq> None \<longleftrightarrow> HostUnmounted \<notin> set es \<and> odd (length (filter (\<lambda>e. e = OnPanel CamTogglePCD) es))) \<and>
            (\<forall>v. ho_viewer h = Some v \<longrightarrow> shows_last (ve_three V) objs scale_of store shown v \<and> scene_ok objs v)"
proof -
  note run = cloud_host.run_shows_last [OF camera_host [OF assms(1,2)], of et n rs st es, folded h]
  have t: "(\<lambda>e. case e of OnPanel x \<Rightarrow> ci_toggles (camera_iface et n) x | _ \<Rightarrow> False) = (\<lambda>e. e = OnPanel CamTogglePCD)"
    by (rule ext) (simp add: camera_iface_def split: host_event.splits)
  have c: "last_input (\<lambda>e. case e of OnPanel x \<Rightarrow> map_option Some (ci_loads (camera_iface et n) x) | _ \<Rightarrow> None) None es =
      (let clouds = concat (map (\<lambda>e. case e of OnPanel (CamPointCloud None b) \<Rightarrow> [b] | _ \<Rightarrow> []) es)
       in if clouds = [] then None else Some (last clouds))"
  proof (induction es rule: rev_induct)
    case (snoc e es)
    then show ?case
      by (cases e; simp add: camera_iface_def Let_def split: cam_event.splits option.splits)
  qed (simp add: Let_def)
  show ?thesis
    using run unfolding Let_def c [unfolded Let_def, symmetric]
    by (simp add: cloud_host.toggled_def [OF camera_host [OF assms(1,2)]] cloud_host.last_cloud_def [OF camera_host [OF assms(1,2)]] t)
qed

theorem camera_shows_last_cloud_witness:
  "let h = final (host_handle demo_viewer (camera_iface err_message ''cam'')) (host_start [] (camera_init, \<lparr>baseStreamStates = [], cameraStreamStates = []\<rparr>))
         [OnPanel CamMounted, OnPanel CamTogglePCD, OnPanel (CamPointCloud None [7, 9]), OnPanel (CamPointCloud None [4])]
   in \<exists>v. ho_viewer h = Some v \<and> shows_last demo_three set snd fround (Some [4]) v"
  using camera_shows_last_cloud [OF demo_laws refl, where et = err_message and n = "''cam''" and rs = "[]" and st = "\<lparr>baseStreamStates = [], cameraStreamStates = []\<rparr>"
      and es = "[OnPanel CamMounted, OnPanel CamTogglePCD, OnPanel (CamPointCloud None [7, 9]), OnPanel (CamPointCloud None [4])]"]
  by (auto simp: Let_def demo_viewer_def simp del: run.simps host_handle.simps)

text \<open>
  The same of the slam panel, whose clouds arrive by request and at intervals: a cloud that
  arrives while the viewer is hidden is shown when the viewer comes back.
\<close>

theorem slam_shows_last_cloud:
  assumes "three_laws (ve_three V) objs scale_of store" "objs (ve_scene V) = {}"
    and h: "h = final (host_handle V (slam_iface n)) (host_start rs slam_init) es"
  shows "(ho_viewer h \<noteq> None \<longleftrightarrow> HostUnmounted \<notin> set es \<and> odd (length (filter (\<lambda>e. e = OnPanel SlTogglePCD) es))) \<and>
    (\<forall>v. ho_viewer h = Some v \<longrightarrow>
       shows_last (ve_three V) objs scale_of store
         (last_input (\<lambda>e. case e of OnPanel x \<Rightarrow> map_option Some (slam_loads x) | _ \<Rightarrow> None) None es) v \<and> scene_ok objs v)"
proof -
  note run = cloud_host.run_shows_last [OF slam_host [OF assms(1,2)], of n rs es, folded h]
  have t: "(\<lambda>e. case e of OnPanel x \<Rightarrow> ci_toggles (slam_iface n) x | _ \<Rightarrow> False) = (\<lambda>e. e = OnPanel SlTogglePCD)"
    by (rule ext) (simp add: slam_iface_def split: host_event.splits)
  have l: "ci_loads (slam_iface n) = slam_loads" by (simp add: slam_iface_def)
  show ?thesis using run
    unfolding Let_def cloud_host.toggled_def [OF slam_host [OF assms(1,2)]] cloud_host.last_cloud_def [OF slam_host [OF assms(1,2)]] t l .
qed

theorem slam_shows_last_cloud_witness:
  "let h = final (host_handle demo_viewer (slam_iface ''slam'')) (host_start [] slam_init) [OnPanel (SlPCD (Inr (Some [4]))), OnPanel SlTogglePCD]
   in \<exists>v. ho_viewer h = Some v \<and> shows_last demo_three set snd fround (Some [4]) v"
  using slam_shows_last_cloud [OF demo_laws refl, where n = "''slam''" and rs = "[]" and es = "[OnPanel (SlPCD (Inr (Some [4]))), OnPanel SlTogglePCD]"]
  by (auto simp: Let_def demo_viewer_def last_input_def map_filter_simps simp del: run.simps host_handle.simps)

text \<open>
  C12. Every move asked for inside a camera panel, in any run, is in the frame of that camera, in whole
  millimetres, for the first gripper and the first motion service of the resources the panel was given
  last; every move asked for inside a slam panel is the same without a reference frame, since that panel
  binds no camera name to its viewer.
\<close>

theorem moves_in_camera_frame:
  "(Eff (Call (MotionReq (Move m g f p))) \<in>
        set (snd (host_handle V (camera_iface et n) (final (host_handle V (camera_iface et n)) (host_start rs w) es) e)) \<longrightarrow>
      (let now = last (rs # concat (map (\<lambda>e. case e of HostResources rs' \<Rightarrow> [rs'] | _ \<Rightarrow> []) es))
       in f = Some n \<and> whole3 p \<and> first_of now ''component'' ''gripper'' g \<and>
          (\<exists>r. first_of now ''service'' ''motion'' r \<and> m = rn_name r))) \<and>
   (Call (MotionReq (Move m g f p)) \<in>
        set (snd (host_handle V (slam_iface n) (final (host_handle V (slam_iface n)) (host_start rs s) es') e')) \<longrightarrow>
      (let now = last (rs # concat (map (\<lambda>e. case e of HostResources rs' \<Rightarrow> [rs'] | _ \<Rightarrow> []) es'))
       in f = None \<and> whole3 p \<and> first_of now ''component'' ''gripper'' g \<and>
          (\<exists>r. first_of now ''service'' ''motion'' r \<and> m = rn_name r)))"
proof -
  have now: "last (rs # concat (map (\<lambda>e. case e of HostResources rs' \<Rightarrow> [rs'] | _ \<Rightarrow> []) fs)) = last_input resources_in rs fs"
    for fs :: "'e host_event list"
  proof (induction fs rule: rev_induct)
    case (snoc e fs)
    then show ?case by (cases e) simp_all
  qed simp
  show ?thesis
    unfolding now Let_def
    using camera_quiet.run_moves [of et n "Move m g f p" V rs w es e] slam_quiet.run_moves [of n "Move m g f p" V rs s es' e']
    by (auto simp: camera_iface_def slam_iface_def camera_props_def slam_props_def)
qed

theorem moves_in_camera_frame_witness:
  "first_of (pp_resources viewer_props) ''component'' ''gripper''
     \<lparr>rn_namespace = ''rdk'', rn_type = ''component'', rn_subtype = ''gripper'', rn_name = ''claw''\<rparr>"
proof -
  let ?g = "\<lparr>rn_namespace = ''rdk'', rn_type = ''component'', rn_subtype = ''gripper'', rn_name = ''claw''\<rparr>"
  let ?w = "(camera_init, \<lparr>baseStreamStates = [], cameraStreamStates = []\<rparr>)"
  let ?rs = "pp_resources viewer_props"
  have "Eff (Call (MotionReq (Move ''builtin'' ?g (Some ''cam'') new_Vector3))) \<in>
    set (snd (host_handle demo_viewer (camera_iface err_message ''cam'')
      (final (host_handle demo_viewer (camera_iface err_message ''cam'')) (host_start [] ?w) [HostResources ?rs, OnPanel CamTogglePCD]) (OnViewer PcMove)))"
    using demo_facts(1,2) by (simp add: camera_iface_def host_start_def cam_togglePCDExpand_def camera_init_def render_def viewer_step_def viewer_start_def
        load_option_def pcd_init_def demo_viewer_def camera_props_def handleMove_def)
  then show ?thesis
    using moves_in_camera_frame [of "''builtin''" ?g "Some ''cam''" new_Vector3 demo_viewer err_message "''cam''" "[]" ?w
        "[HostResources ?rs, OnPanel CamTogglePCD]" "OnViewer PcMove" slam_init "[]" "OnViewer PcMove"]
    by (simp add: Let_def del: run.simps host_handle.simps)
qed

end
