(* ===== verification/Camera_Page.thy ===== *)
theory Camera_Page
  imports App_View
begin

text \<open>
  The camera panels inside the shell. What a panel emits, in order, reaches the shell, whose one
  interval refreshes frames for all of them; a frame that arrives replaces the picture in every
  stream container of its camera. A container is a camera name with its child elements; the videos in it
  are put there by the SDK. The names of cameras have no quotes, so a container matches the selector
  when the names are equal.
\<close>

section \<open>Stream containers\<close>

datatype child = Video | Image bytes

fun is_image :: "child \<Rightarrow> bool" where
  "is_image (Image d) = True"
| "is_image Video = False"

text \<open>\<open>container.querySelector(tag)?.remove()\<close>: the first child of that kind goes.\<close>

fun remove_first :: "('a \<Rightarrow> bool) \<Rightarrow> 'a list \<Rightarrow> 'a list" where
  "remove_first P [] = []"
| "remove_first P (x # xs) = (if P x then xs else x # remove_first P xs)"

definition insert_frame :: "bytes \<Rightarrow> child list \<Rightarrow> child list" where
  "insert_frame d children = remove_first is_image (remove_first (\<lambda>c. \<not> is_image c) children) @ [Image d]"

type_synonym containers = "(string \<times> child list) list"

definition viewFrame_done :: "string \<Rightarrow> service_error + bytes \<Rightarrow> containers \<Rightarrow> containers \<times> effect list" where
  "viewFrame_done cameraName r streamContainers =
     (case r of
        Inl e \<Rightarrow> (streamContainers, displayError (Some e))
      | Inr d \<Rightarrow> (map (\<lambda>(n, children). if n = cameraName then (n, insert_frame d children) else (n, children)) streamContainers, []))"

section \<open>The panels in the shell\<close>

record camera_page =
  cp_cameras :: "(string \<times> camera_state) list"
  cp_streams :: streams
  cp_frames :: frames
  cp_containers :: containers
  cp_opened :: "bytes list"                   \<comment> \<open>screenshots opened in a window of their own\<close>

datatype camera_page_event =
    OnCamera nat cam_event
  | OnFrameTick int
  | OnFrame string "service_error + bytes"
  | OnTrack nat                               \<comment> \<open>the SDK appends a video to a container\<close>

text \<open>The listeners the shell puts on a camera panel.\<close>

fun emitted :: "string \<Rightarrow> cam_out \<Rightarrow> camera_page \<Rightarrow> camera_page \<times> effect list" where
  "emitted n (Eff x) p = (p, [x])"
| "emitted n (EmitSelectedCameraView t) p =
     (let (f, os) = frame_handle (cp_frames p) (SelectedCameraView n t) in (p\<lparr>cp_frames := f\<rparr>, os))"
| "emitted n EmitClearInterval p =
     (let (f, os) = frame_handle (cp_frames p) ClearInterval in (p\<lparr>cp_frames := f\<rparr>, os))"
| "emitted n (OpenImage d) p = (p\<lparr>cp_opened := cp_opened p @ [d]\<rparr>, [])"

fun emit_all :: "string \<Rightarrow> cam_out list \<Rightarrow> camera_page \<Rightarrow> camera_page \<times> effect list" where
  "emit_all n [] p = (p, [])"
| "emit_all n (x # xs) p = (let (q, os) = emitted n x p; (r, ps) = emit_all n xs q in (r, os @ ps))"

fun camera_page_handle :: "(service_error \<Rightarrow> string) \<Rightarrow> (camera_page, camera_page_event, effect) handler" where
  "camera_page_handle et p (OnCamera i e) =
     (if i < length (cp_cameras p)
      then (let (n, cs) = cp_cameras p ! i; ((cs', st), outs) = camera_handle et n (cs, cp_streams p) e
            in emit_all n outs (p\<lparr>cp_cameras := (cp_cameras p)[i := (n, cs')], cp_streams := st\<rparr>))
      else (p, []))"
| "camera_page_handle et p (OnFrameTick i) =
     (let (f, os) = frame_handle (cp_frames p) (FrameTick i) in (p\<lparr>cp_frames := f\<rparr>, os))"
| "camera_page_handle et p (OnFrame n r) =
     (let (c, os) = viewFrame_done n r (cp_containers p) in (p\<lparr>cp_containers := c\<rparr>, os))"
| "camera_page_handle et p (OnTrack k) =
     (if k < length (cp_containers p)
      then (p\<lparr>cp_containers := (cp_containers p)[k := (fst (cp_containers p ! k), snd (cp_containers p ! k) @ [Video])]\<rparr>, [])
      else (p, []))"

definition camera_page_init :: "string list \<Rightarrow> streams \<Rightarrow> string list \<Rightarrow> camera_page" where
  "camera_page_init names st containers =
     \<lparr>cp_cameras = map (\<lambda>n. (n, camera_init)) names, cp_streams = st, cp_frames = frames_init,
      cp_containers = map (\<lambda>n. (n, [])) containers, cp_opened = []\<rparr>"

section \<open>One picture per container\<close>

definition images :: "child list \<Rightarrow> child list" where
  "images cs = filter is_image cs"

lemma images_remove_first:
  "images (remove_first is_image cs) = tl (images cs)" "images (remove_first (\<lambda>c. \<not> is_image c) cs) = images cs"
  by (induction cs) (auto simp: images_def)

lemma images_insert_frame: "length (images cs) \<le> 1 \<Longrightarrow> images (insert_frame d cs) = [Image d]"
proof -
  assume "length (images cs) \<le> 1"
  then have "tl (images cs) = []" by (cases "images cs") auto
  moreover have "images (insert_frame d cs) = tl (images cs) @ [Image d]"
    unfolding insert_frame_def using images_remove_first by (simp add: images_def)
  ultimately show ?thesis by simp
qed

definition page_ok :: "camera_page \<Rightarrow> bool" where
  "page_ok p \<longleftrightarrow> list_all (\<lambda>c. length (images (snd c)) \<le> 1) (cp_containers p) \<and> one_interval (cp_frames p)"

lemma emitted_page:
  "cp_containers (fst (emitted n x p)) = cp_containers p" "one_interval (cp_frames p) \<Longrightarrow> one_interval (cp_frames (fst (emitted n x p)))"
  using frame_handle_one_interval by (cases x; simp add: split_def Let_def del: frame_handle.simps)+

lemma emit_all_page:
  "cp_containers (fst (emit_all n xs p)) = cp_containers p"
  "one_interval (cp_frames p) \<Longrightarrow> one_interval (cp_frames (fst (emit_all n xs p)))"
  by (induction xs arbitrary: p) (simp_all add: split_def Let_def emitted_page)

lemma page_ok_step: "page_ok p \<Longrightarrow> page_ok (fst (camera_page_handle et p e))"
proof (cases e)
  case (OnCamera i x)
  assume "page_ok p"
  then show ?thesis using OnCamera by (simp add: page_ok_def split_def Let_def emit_all_page)
next
  case (OnFrameTick i)
  assume "page_ok p"
  then show ?thesis using OnFrameTick frame_handle_one_interval [of "cp_frames p" "FrameTick i"]
    by (simp add: page_ok_def split_def Let_def)
next
  case (OnFrame n r)
  assume "page_ok p"
  then show ?thesis using OnFrame images_insert_frame
    by (cases r) (auto simp: page_ok_def viewFrame_done_def list_all_iff split_def)
next
  case (OnTrack k)
  assume "page_ok p"
  then show ?thesis using OnTrack
    by (auto simp: page_ok_def list_all_length nth_list_update images_def)
qed

interpretation camera_pages: invariant_system "camera_page_handle et" page_ok for et
  by unfold_locales (rule page_ok_step)

lemma page_ok_init: "page_ok (camera_page_init names st cs)"
  by (simp add: page_ok_def camera_page_init_def list_all_iff images_def one_interval_def frames_init_def)

section \<open>Properties\<close>

text \<open>
  C23. A frame that arrives is the one picture in every stream container of its camera: in any
  reachable state, after the answer each such container has exactly that image, as its last child,
  and every other container is as it was.
\<close>

theorem frame_replaces_picture:
  assumes p: "p = final (camera_page_handle et) (camera_page_init names st cs) es"
    and q: "q = fst (camera_page_handle et p (OnFrame n (Inr d)))" and k: "k < length (cp_containers p)"
  shows "fst (cp_containers q ! k) = fst (cp_containers p ! k) \<and>
    (if fst (cp_containers p ! k) = n
     then images (snd (cp_containers q ! k)) = [Image d] \<and> last (snd (cp_containers q ! k)) = Image d
     else cp_containers q ! k = cp_containers p ! k)"
proof -
  have "page_ok p" unfolding p by (rule camera_pages.run_inv [OF page_ok_init])
  then have "length (images (snd (cp_containers p ! k))) \<le> 1" using k by (simp add: page_ok_def list_all_length)
  then show ?thesis using k images_insert_frame unfolding q
    by (auto simp: viewFrame_done_def split_def insert_frame_def prod_eq_iff)
qed

theorem frame_replaces_picture_witness:
  "let q = fst (camera_page_handle err_message (final (camera_page_handle err_message)
         (camera_page_init [''c''] \<lparr>baseStreamStates = [], cameraStreamStates = []\<rparr> [''c'', ''d'']) [OnTrack 0, OnFrame ''c'' (Inr [1])])
       (OnFrame ''c'' (Inr [2])))
   in images (snd (cp_containers q ! 0)) = [Image [2]]"
  using frame_replaces_picture [OF refl refl, of 0 err_message "[''c'']" "\<lparr>baseStreamStates = [], cameraStreamStates = []\<rparr>"
      "[''c'', ''d'']" "[OnTrack 0, OnFrame ''c'' (Inr [1])]" "''c''" "[2]"]
  by (simp add: camera_page_init_def viewFrame_done_def)

lemma emit_all_effects: "emit_all n (map Eff os) p = (p, os)"
  by (induction os) simp_all

lemma emit_all_append:
  "emit_all n (xs @ ys) p = (let (q, os) = emit_all n xs p; (r, ps) = emit_all n ys q in (r, os @ ps))"
  by (induction xs arbitrary: p) (simp_all add: split_def Let_def)

lemma viewCamera_out: "snd (viewCamera n isOn w) = map Eff (viewCamera_request n isOn (snd w))"
  by (auto simp: viewCamera_def split_def Let_def)

lemma clear_one: "one_interval s \<Longrightarrow> fr_active (clearFrameInterval s) = []"
  by (auto simp: one_interval_def clearFrameInterval_def)

lemma view_frame_active: "one_interval s \<Longrightarrow> list_all (\<lambda>x. fst (snd x) = n) (fr_active (fst (viewCameraFrame n t s)))"
  using clear_one [of s] by (simp add: viewCameraFrame_def Let_def)

lemma emitted_cameras: "cp_cameras (fst (emit_all n xs p)) = cp_cameras p"
proof (induction xs arbitrary: p)
  case (Cons x xs)
  then show ?case by (cases x) (simp_all add: split_def Let_def)
qed simp

text \<open>
  C24. All camera panels share one refresh: in any reachable state, a selection in the menu of one
  camera leaves no interval of any other camera, although the panels of the others are as they were
  and still show the frequency selected there.
\<close>

theorem selection_stops_others:
  assumes p: "p = final (camera_page_handle et) (camera_page_init names st cs) es"
    and j: "j < length (cp_cameras p)" and q: "q = fst (camera_page_handle et p (OnCamera j (CamSelect v)))"
  shows "list_all (\<lambda>x. fst (snd x) = fst (cp_cameras p ! j)) (fr_active (cp_frames q)) \<and>
    length (fr_active (cp_frames q)) \<le> 1 \<and> (\<forall>i. i \<noteq> j \<longrightarrow> cp_cameras q ! i = cp_cameras p ! i)"
proof -
  have ok: "page_ok p" unfolding p by (rule camera_pages.run_inv [OF page_ok_init])
  then have one: "one_interval (cp_frames p)" by (simp add: page_ok_def)
  obtain n c where c: "cp_cameras p ! j = (n, c)" by fastforce
  define w where "w = (c\<lparr>cam_selectedValue := v\<rparr>, cp_streams p)"
  define p1 where "p1 = p\<lparr>cp_cameras := (cp_cameras p)[j := (n, fst (fst (selectCameraView n w)))], cp_streams := snd (fst (selectCameraView n w))\<rparr>"
  have q1: "q = fst (emit_all n (snd (selectCameraView n w)) p1)"
    unfolding q using j c by (simp add: w_def p1_def split_def Let_def)
  have outs: "snd (selectCameraView n w) =
      (if v \<noteq> ''live'' then map Eff (viewCamera_request n False (snd w)) @ [EmitSelectedCameraView v]
       else EmitClearInterval # map Eff (viewCamera_request n True (snd w)))"
    by (simp add: selectCameraView_def split_def Let_def viewCamera_out w_def)
  have "cp_frames q = (if v \<noteq> ''live'' then fst (viewCameraFrame n v (cp_frames p)) else clearFrameInterval (cp_frames p))"
    unfolding q1 outs by (simp add: emit_all_append emit_all_effects split_def Let_def p1_def)
  then have "list_all (\<lambda>x. fst (snd x) = n) (fr_active (cp_frames q))" using one view_frame_active clear_one by simp
  moreover have "one_interval (cp_frames q)" using page_ok_step [OF ok, of et "OnCamera j (CamSelect v)"] unfolding q by (simp add: page_ok_def)
  then have "length (fr_active (cp_frames q)) \<le> 1" by (auto simp: one_interval_def)
  moreover have "cp_cameras q = (cp_cameras p)[j := (n, fst (fst (selectCameraView n w)))]" unfolding q1 by (simp add: emitted_cameras p1_def)
  ultimately show ?thesis using c by simp
qed

theorem selection_stops_others_witness:
  "let p = final (camera_page_handle err_message) (camera_page_init [''a'', ''b''] \<lparr>baseStreamStates = [], cameraStreamStates = []\<rparr> [])
         [OnCamera 0 (CamSelect ''Every Second'')];
       q = fst (camera_page_handle err_message p (OnCamera 1 (CamSelect ''Every 10 Seconds'')))
   in list_all (\<lambda>x. fst (snd x) = ''b'') (fr_active (cp_frames q))"
proof -
  let ?st = "\<lparr>baseStreamStates = [], cameraStreamStates = []\<rparr> :: streams"
  let ?p = "final (camera_page_handle err_message) (camera_page_init [''a'', ''b''] ?st []) [OnCamera 0 (CamSelect ''Every Second'')]"
  define p where "p = ?p"
  have "map fst (cp_cameras p) = [''a'', ''b'']"
    unfolding p_def by (simp add: camera_page_init_def split_def Let_def emitted_cameras)
  then have "1 < length (cp_cameras p)" "fst (cp_cameras p ! 1) = ''b''" by (auto simp: map_eq_Cons_conv)
  then show ?thesis
    using selection_stops_others [OF p_def _ refl, of 1 "''Every 10 Seconds''"] unfolding p_def [symmetric]
    by (simp add: Let_def del: camera_page_handle.simps)
qed

end
