(* ===== verification/Status_Views.thy ===== *)
theory Status_Views
  imports Readouts Js_Json
begin

text \<open>
  What the panels show of a fixed status: the table of \<open>gantry.vue\<close>, the badges of
  \<open>motor-detail.vue\<close> and the angle of \<open>servo.vue\<close>, from the raw status the robot sends to the text on the
  page.
\<close>

text \<open>The text of \<open>{{ v }}\<close> in a template.\<close>

fun toDisplayString :: "jsval \<Rightarrow> string" where
  "toDisplayString Undefined = []"
| "toDisplayString Null = []"
| "toDisplayString (Arr xs) = json_text ''  '' [] (Arr xs)"
| "toDisplayString (Obj ps) = json_text ''  '' [] (Obj ps)"
| "toDisplayString v = val_to_string v"

text \<open>A row: axis, position, length.\<close>

definition gantry_rows :: "gantry_status \<Rightarrow> (string \<times> string \<times> string) list throws" where
  "gantry_rows status =
     mapE (\<lambda>pp. bindE (val_toFixed 2 (gp_pos pp)) (\<lambda>t. Inr (show_nat (gp_axis pp), t, toDisplayString (gp_length pp)))) (gs_parts status)"

definition motor_badges :: "motor_status \<Rightarrow> string list" where
  "motor_badges status =
     (if truthy (ms_positionReporting status) then [''Position '' @ val_to_string (ms_position status)] else []) @
     (if truthy (ms_isPowered status) then [''Running''] else [''Idle''])"

definition servo_angle :: "servo_status \<Rightarrow> string" where
  "servo_angle status = ''Angle: '' @ toDisplayString (ss_positionDeg status)"

lemma gantry_rows_numbers:
  assumes "ofield o' ''lengths_mm'' = Arr ls" "ofield o' ''positions_mm'' = Arr (map Num ps)" "length ls = length ps"
  shows "bindE (fixGantryStatus (Obj o')) gantry_rows =
    Inr (map (\<lambda>i. (show_nat i, toFixed 2 (ps ! i), toDisplayString (ls ! i))) [0..<length ps])"
proof -
  have "gantry_rows \<lparr>gs_parts = map (\<lambda>i. \<lparr>gp_axis = i, gp_pos = map Num ps ! i, gp_length = ls ! i\<rparr>) [0..<length ls], gs_is_moving = m\<rparr> =
      Inr (map (\<lambda>i. (show_nat i, toFixed 2 (ps ! i), toDisplayString (ls ! i))) [0..<length ps])" for m
    unfolding gantry_rows_def using assms(3)
    by (simp add: val_toFixed_def, subst mapE_Inr [where g = "\<lambda>pp. (show_nat (gp_axis pp), toFixed 2 (ps ! gp_axis pp), toDisplayString (gp_length pp))"])
      (auto simp: comp_def)
  then show ?thesis using assms(3) by (simp add: fixGantryStatus_lists [OF assms(1,2)] del: nth_map)
qed

text \<open>
  C25. From the robot's message to the page: for a gantry status whose lists have the same length, the
  fixed status is shown as one row per axis, numbered from 0, and each position read back from its row is
  within five thousandths of the reported one; lists of different lengths are refused before anything is
  shown.
\<close>

theorem gantry_table_close:
  assumes "ofield o' ''lengths_mm'' = Arr ls" "ofield o' ''positions_mm'' = Arr (map (Num \<circ> Fin) qs)" "\<forall>q \<in> set qs. \<bar>q\<bar> < 10 ^ 21"
  shows "if length ls = length qs
    then \<exists>rows. bindE (fixGantryStatus (Obj o')) gantry_rows = Inr rows \<and> length rows = length qs \<and>
      (\<forall>i < length qs. fst (rows ! i) = show_nat i \<and>
         (\<exists>v. decimal_value (fst (snd (rows ! i))) = Some v \<and> \<bar>v - qs ! i\<bar> \<le> 1 / 200))
    else bindE (fixGantryStatus (Obj o')) gantry_rows = Inl (JsError ''gantry lists different lengths'')"
proof (cases "length ls = length qs")
  case True
  have "\<exists>v. decimal_value (toFixed 2 (Fin (qs ! i))) = Some v \<and> \<bar>v - qs ! i\<bar> \<le> 1 / 200" if "i < length qs" for i
    using toFixed_close [of "qs ! i" 2] assms(3) that by (simp add: power2_eq_square del: toFixed.simps)
  moreover have "bindE (fixGantryStatus (Obj o')) gantry_rows =
      Inr (map (\<lambda>i. (show_nat i, toFixed 2 (map Fin qs ! i), toDisplayString (ls ! i))) [0..<length qs])"
    using gantry_rows_numbers [of o' ls "map Fin qs"] assms True by simp
  ultimately show ?thesis using True unfolding if_P [OF True]
    by (intro exI [of _ "map (\<lambda>i. (show_nat i, toFixed 2 (map Fin qs ! i), toDisplayString (ls ! i))) [0..<length qs]"] conjI)
      (simp_all del: toFixed.simps)
qed (use assms fixGantryStatus_lists [OF assms(1,2)] in simp)

theorem gantry_table_close_witness:
  "\<exists>rows. bindE (fixGantryStatus (Obj [(''lengths_mm'', Arr [Num (Fin 9)]), (''positions_mm'', Arr [Num (Fin (1 / 3))])])) gantry_rows = Inr rows \<and>
     fst (rows ! 0) = ''0'' \<and> (\<exists>v. decimal_value (fst (snd (rows ! 0))) = Some v \<and> \<bar>v - 1 / 3\<bar> \<le> 1 / 200)"
proof -
  have "show_nat 0 = ''0''" by code_simp
  then show ?thesis
    using gantry_table_close [of "[(''lengths_mm'', Arr [Num (Fin 9)]), (''positions_mm'', Arr [Num (Fin (1 / 3))])]" "[Num (Fin 9)]" "[1 / 3]"]
    by (auto simp: ofield_def)
qed

end
