(* ===== verification/Stream_Page.thy ===== *)
theory Stream_Page
  imports Base
begin

text \<open>
  The camera panels and the base panels of one page, which share the two stream maps of
  \<open>lib/camera-state.ts\<close> and the streams the robot serves. Any panel may take the next event, so the
  page is a step relation. Requests reach the robot in the order they are sent.
\<close>

section \<open>The page\<close>

record stream_page =
  sp_streams :: streams
  sp_cams :: "string \<Rightarrow> camera_state"        \<comment> \<open>a panel per camera name\<close>
  sp_bases :: "string \<Rightarrow> base_world"         \<comment> \<open>a panel per base name\<close>
  sp_served :: "string set"                  \<comment> \<open>what the robot serves\<close>

definition camera_page_event ::
  "(service_error \<Rightarrow> string) \<Rightarrow> string \<Rightarrow> cam_event \<Rightarrow> stream_page \<Rightarrow> stream_page" where
  "camera_page_event et n e p =
     (let ((cs, st), os) = camera_handle et n (sp_cams p n, sp_streams p) e
      in p\<lparr>sp_cams := (sp_cams p)(n := cs), sp_streams := st, sp_served := serve (sp_served p) (effs os)\<rparr>)"

text \<open>A base panel finds the shared maps, whoever wrote them last.\<close>

definition base_page_event :: "base_props \<Rightarrow> base_event \<Rightarrow> stream_page \<Rightarrow> stream_page" where
  "base_page_event props e p =
     (let (w, os) = base_handle props ((sp_bases p (bp_name props))\<lparr>bw_streams := sp_streams p\<rparr>) e
      in p\<lparr>sp_bases := (sp_bases p)(bp_name props := w), sp_streams := bw_streams w,
           sp_served := serve (sp_served p) os\<rparr>)"

abbreviation preview_on :: "stream_page \<Rightarrow> string \<Rightarrow> bool" where
  "preview_on p n \<equiv> stream_on (baseStreamStates (sp_streams p)) n"

abbreviation camera_on :: "stream_page \<Rightarrow> string \<Rightarrow> bool" where
  "camera_on p n \<equiv> stream_on (cameraStreamStates (sp_streams p)) n"

text \<open>What the camera panel last asked for: the flag, or the request it is awaiting.\<close>

definition view_on :: "stream_page \<Rightarrow> string \<Rightarrow> bool" where
  "view_on p n = (if cam_pending (sp_cams p n) = [] then camera_on p n else last (cam_pending (sp_cams p n)))"

text \<open>
  A selection of previews that the guards of \<open>viewPreviewCamera\<close> get right. They look the whole
  selection up in the camera panels' map: if it is on, nothing is requested, so every preview that
  changes must be of a camera whose panel shows it; if it is off, a preview that goes off drops the
  stream, so no camera panel may show it.
\<close>

definition preview_safe :: "string \<Rightarrow> stream_page \<Rightarrow> bool" where
  "preview_safe sel p \<longleftrightarrow>
     list_all (\<lambda>(k, v). v \<noteq> js_includes sel k \<longrightarrow>
         (if camera_on p sel then view_on p k else v \<longrightarrow> \<not> view_on p k))
       (baseStreamStates (sp_streams p))"

fun camera_event_ok :: "stream_page \<Rightarrow> string \<Rightarrow> cam_event \<Rightarrow> bool" where
  "camera_event_ok p n CamMounted = (cam_pending (sp_cams p n) = [] \<and> \<not> camera_on p n)"
| "camera_event_ok p n CamToggleExpand = (cam_pending (sp_cams p n) = [])"
| "camera_event_ok p n (CamSelect v) = (cam_pending (sp_cams p n) = [])"
| "camera_event_ok p n (CamStreamSettled i err) = (err = None)"
| "camera_event_ok p n _ = True"

fun base_event_ok :: "base_props \<Rightarrow> stream_page \<Rightarrow> base_event \<Rightarrow> bool" where
  "base_event_ok props p BaseMounted =
     list_all (\<lambda>r. \<not> preview_on p (rn_name r))
       (filterResources (bp_resources props) ''rdk'' ''component'' ''camera'')"
| "base_event_ok props p (TabSelect tab) = preview_safe [] p"
| "base_event_ok props p (SelectPreview sel) = preview_safe sel p"
| "base_event_ok props p _ = True"

text \<open>The steps of the page.\<close>

inductive page_step :: "(service_error \<Rightarrow> string) \<Rightarrow> stream_page \<Rightarrow> stream_page \<Rightarrow> bool" for et where
  camera_event: "camera_event_ok p n e \<Longrightarrow> page_step et p (camera_page_event et n e p)"
| base_event: "base_event_ok props p e \<Longrightarrow> page_step et p (base_page_event props e p)"

inductive_cases page_stepE: "page_step et p q"

definition page_start :: "stream_page \<Rightarrow> bool" where
  "page_start p \<longleftrightarrow> sp_streams p = \<lparr>baseStreamStates = [], cameraStreamStates = []\<rparr>
     \<and> (\<forall>n. cam_pending (sp_cams p n) = []) \<and> sp_served p = {}"

text \<open>
  The invariant: each camera panel awaits at most one request, and the robot serves exactly what the
  panels last asked for.
\<close>

definition page_inv :: "stream_page \<Rightarrow> bool" where
  "page_inv p \<longleftrightarrow> distinct (map fst (baseStreamStates (sp_streams p)))
     \<and> (\<forall>n. length (cam_pending (sp_cams p n)) \<le> 1)
     \<and> sp_served p = {n. preview_on p n \<or> view_on p n}"

section \<open>Effects that are not about streams\<close>

definition no_stream :: "effect list \<Rightarrow> bool" where
  "no_stream os \<longleftrightarrow> list_all (\<lambda>x. case x of Call (StreamReq r) \<Rightarrow> False | _ \<Rightarrow> True) os"

lemma serve_no_stream: "no_stream os \<Longrightarrow> serve A os = A"
  by (induction A os rule: serve.induct) (auto simp: no_stream_def)

lemma no_stream_append [simp]: "no_stream (os @ ps) \<longleftrightarrow> no_stream os \<and> no_stream ps"
  by (simp add: no_stream_def)

lemma no_stream_simps [simp]: "no_stream []" "no_stream (displayError e)"
  by (auto simp: no_stream_def displayError_def split: option.splits)

lemma no_stream_base_send [simp]: "no_stream (base_send props r)"
  by (simp add: no_stream_def base_send_def rcLogConditionally_def)

lemma no_stream_base_stop [simp]: "no_stream (snd (base_stop props s))"
  by (simp add: no_stream_def base_stop_def)

lemma no_stream_baseRun [simp]: "no_stream (baseRun props s)"
  by (simp add: baseRun_def handleBaseStraight_def split: movement_mode.split)

lemma no_stream_sink [simp]: "no_stream (snd (base_sink props s x))"
  by (cases x) (simp_all add: base_handleKeyDown_def base_handleKeyUp_def base_onToggle_def digestInput_def
      split_def Let_def)

lemma no_stream_feed [simp]: "no_stream (snd (feed (base_sink props) s xs))"
  by (induction xs arbitrary: s) (simp_all add: split_def Let_def)

lemma pad_streams [simp]:
  "bw_streams (fst (pad_event props e w)) = bw_streams w" "no_stream (snd (pad_event props e w))"
  "bw_streams (fst (pad_unmount props w)) = bw_streams w" "no_stream (snd (pad_unmount props w))"
  by (simp_all add: pad_unmount_def pad_event_def split_def Let_def)

lemma on_base_streams [simp]: "bw_streams (fst (on_base f w)) = bw_streams w"
  by (simp add: on_base_def split_def Let_def)

section \<open>What each event does to the streams\<close>

fun preview_of :: "base_event \<Rightarrow> string option" where
  "preview_of (TabSelect tab) = Some []"
| "preview_of (SelectPreview sel) = Some sel"
| "preview_of _ = None"

lemma base_handle_preview:
  "preview_of e = Some sel \<Longrightarrow>
     bw_streams (fst (base_handle props w e)) = fst (viewPreviewCamera sel (bw_streams w))
     \<and> serve A (snd (base_handle props w e)) = serve A (snd (viewPreviewCamera sel (bw_streams w)))"
  by (cases e) (auto simp: handleTabSelect_def split_def Let_def serve_append serve_no_stream)

lemma base_handle_quiet:
  "preview_of e = None \<Longrightarrow> e \<noteq> BaseMounted \<Longrightarrow>
     bw_streams (fst (base_handle props w e)) = bw_streams w \<and> serve A (snd (base_handle props w e)) = A"
  by (cases e)
    (auto simp: split_def Let_def serve_no_stream handleVisibilityChange_def digestInput_done_def)

lemma distinct_preview:
  "distinct (map fst (baseStreamStates st)) \<Longrightarrow>
   distinct (map fst (baseStreamStates (fst (viewPreviewCamera sel st))))"
proof -
  have "distinct (map fst (baseStreamStates st)) \<Longrightarrow>
      distinct (map fst (baseStreamStates (fst (fold (preview_step sel) kvs (st, os)))))" for kvs st os
    by (induction kvs arbitrary: st os) (simp_all add: preview_step_def split_def Let_def distinct_update)
  then show "distinct (map fst (baseStreamStates st)) \<Longrightarrow>
      distinct (map fst (baseStreamStates (fst (viewPreviewCamera sel st))))"
    by (simp add: viewPreviewCamera_def)
qed

lemma serve_previews:
  "distinct (map fst kvs) \<Longrightarrow>
   m \<in> serve A (concat (map (preview_request sel) kvs)) \<longleftrightarrow>
     (case map_of kvs m of
        None \<Rightarrow> m \<in> A
      | Some v \<Rightarrow> if v = js_includes sel m then m \<in> A else js_includes sel m)"
proof (induction kvs arbitrary: A)
  case (Cons kv kvs)
  obtain k v where kv: "kv = (k, v)" by (cases kv)
  have "m \<in> serve A (preview_request sel kv) \<longleftrightarrow>
      (if m = k \<and> v \<noteq> js_includes sel m then js_includes sel m else m \<in> A)"
    by (auto simp: kv preview_request_def addStream_def removeStream_def)
  moreover from Cons.prems have "map_of kvs k = None" by (simp add: kv map_of_eq_None_iff)
  ultimately show ?case using Cons by (auto simp: serve_append kv split: option.splits)
qed simp

section \<open>Previews\<close>

lemma base_page_simps [simp]:
  "sp_cams (base_page_event props e p) = sp_cams p"
  "sp_streams (base_page_event props e p) =
     bw_streams (fst (base_handle props ((sp_bases p (bp_name props))\<lparr>bw_streams := sp_streams p\<rparr>) e))"
  "sp_served (base_page_event props e p) =
     serve (sp_served p) (snd (base_handle props ((sp_bases p (bp_name props))\<lparr>bw_streams := sp_streams p\<rparr>) e))"
  by (simp_all add: base_page_event_def split_def Let_def)

lemma preview_effect:
  assumes d: "distinct (map fst (baseStreamStates (sp_streams p)))" and e: "preview_of e = Some sel"
    and q: "q = base_page_event props e p"
  shows "map_of (baseStreamStates (sp_streams q)) =
           (\<lambda>k. map_option (\<lambda>v. js_includes sel k) (map_of (baseStreamStates (sp_streams p)) k))"
    and "view_on q = view_on p" and "camera_on q = camera_on p"
    and "m \<in> sp_served q \<longleftrightarrow>
      (case map_of (baseStreamStates (sp_streams p)) m of
         None \<Rightarrow> m \<in> sp_served p
       | Some v \<Rightarrow> if camera_on p sel \<or> v = js_includes sel m then m \<in> sp_served p else js_includes sel m)"
proof -
  let ?w = "(sp_bases p (bp_name props))\<lparr>bw_streams := sp_streams p\<rparr>"
  note h = base_handle_preview [OF e, of props ?w "sp_served p"] and v = viewPreviewCamera_eq [OF d, of sel]
  show "map_of (baseStreamStates (sp_streams q)) =
      (\<lambda>k. map_option (\<lambda>v. js_includes sel k) (map_of (baseStreamStates (sp_streams p)) k))"
    using h v by (simp add: q)
  show "view_on q = view_on p" "camera_on q = camera_on p"
    using h v by (simp_all add: q view_on_def fun_eq_iff)
  show "m \<in> sp_served q \<longleftrightarrow>
      (case map_of (baseStreamStates (sp_streams p)) m of
         None \<Rightarrow> m \<in> sp_served p
       | Some v \<Rightarrow> if camera_on p sel \<or> v = js_includes sel m then m \<in> sp_served p else js_includes sel m)"
    using h v serve_previews [OF d, of m "sp_served p" sel] by (auto simp: q split: option.splits)
qed

lemma preview_safe_map_of:
  "distinct (map fst (baseStreamStates (sp_streams p))) \<Longrightarrow>
   preview_safe sel p \<longleftrightarrow>
     (\<forall>k v. map_of (baseStreamStates (sp_streams p)) k = Some v \<longrightarrow> v \<noteq> js_includes sel k \<longrightarrow>
        (if camera_on p sel then view_on p k else v \<longrightarrow> \<not> view_on p k))"
  by (auto simp: preview_safe_def list_all_iff split_def)

lemma preview_tracks_iff:
  assumes inv: "page_inv p" and e: "preview_of e = Some sel" and q: "q = base_page_event props e p"
  shows "sp_served q = {n. preview_on q n \<or> view_on q n} \<longleftrightarrow> preview_safe sel p"
proof -
  from inv have d: "distinct (map fst (baseStreamStates (sp_streams p)))"
    and s: "sp_served p = {n. preview_on p n \<or> view_on p n}" by (auto simp: page_inv_def)
  note eff = preview_effect [OF d e q]
  have "(m \<in> sp_served q \<longleftrightarrow> preview_on q m \<or> view_on q m) \<longleftrightarrow>
      (\<forall>v. map_of (baseStreamStates (sp_streams p)) m = Some v \<longrightarrow> v \<noteq> js_includes sel m \<longrightarrow>
        (if camera_on p sel then view_on p m else v \<longrightarrow> \<not> view_on p m))" for m
    unfolding eff(4) eff(2) stream_on_def [of "baseStreamStates (sp_streams q)"] eff(1) s
    by (auto simp: stream_on_def split: option.splits)
  then show ?thesis unfolding preview_safe_map_of [OF d] set_eq_iff mem_Collect_eq by blast
qed

section \<open>The invariant\<close>

lemma view_inv:
  assumes inv: "page_inv p" and none: "cam_pending (sp_cams p n) = []" "cam_pending cs = []"
    and v: "viewCamera n b (cs, sp_streams p) = ((cs', st), os)"
  shows "page_inv (p\<lparr>sp_cams := (sp_cams p)(n := cs'), sp_streams := st,
                    sp_served := serve (sp_served p) (effs os)\<rparr>)"
proof -
  have os: "effs os = viewCamera_request n b (sp_streams p)"
    using effs_viewCamera [of n b "(cs, sp_streams p)"] by (simp add: v)
  show ?thesis
  proof (cases "viewCamera_request n b (sp_streams p) = []")
    case True
    with v have "cs' = cs" "st = fst (viewCamera_rest n b None (sp_streams p))" by (simp_all add: viewCamera_def)
    with True inv none show ?thesis
      by (auto simp: os page_inv_def view_on_def viewCamera_rest_def viewCamera_request_def addStream_def
          removeStream_def split: if_splits)
  next
    case False
    with v have "cs' = cs\<lparr>cam_pending := [b]\<rparr>" "st = sp_streams p" by (auto simp: viewCamera_def none)
    with False inv none show ?thesis
      by (auto simp: os page_inv_def view_on_def viewCamera_request_def addStream_def removeStream_def
          split: if_splits)
  qed
qed

text \<open>Events that touch neither the streams nor the pending requests.\<close>

lemma page_inv_frame:
  "page_inv p \<Longrightarrow> cam_pending cs = cam_pending (sp_cams p n) \<Longrightarrow>
   page_inv (p\<lparr>sp_cams := (sp_cams p)(n := cs)\<rparr>)"
  by (auto simp: page_inv_def view_on_def)

lemma settle_inv:
  assumes inv: "page_inv p" and i: "i < length (cam_pending (sp_cams p n))"
  shows "page_inv (p\<lparr>sp_cams := (sp_cams p)(n := (sp_cams p n)\<lparr>cam_pending :=
            take i (cam_pending (sp_cams p n)) @ drop (Suc i) (cam_pending (sp_cams p n))\<rparr>),
          sp_streams := fst (viewCamera_rest n (cam_pending (sp_cams p n) ! i) None (sp_streams p))\<rparr>)"
proof -
  from inv have "length (cam_pending (sp_cams p n)) \<le> 1" by (simp add: page_inv_def)
  with i obtain b where b: "cam_pending (sp_cams p n) = [b]" "i = 0"
    by (cases "cam_pending (sp_cams p n)") auto
  with inv show ?thesis by (auto simp: page_inv_def view_on_def viewCamera_rest_def)
qed

lemma page_eta [simp]: "sp_served p = A \<Longrightarrow> p\<lparr>sp_served := A\<rparr> = p" "sp_streams p = st \<Longrightarrow> p\<lparr>sp_streams := st\<rparr> = p"
  by auto

lemma camera_event_inv:
  assumes inv: "page_inv p" and ok: "camera_event_ok p n e"
  shows "page_inv (camera_page_event et n e p)"
proof (cases e)
  case CamMounted
  with inv ok show ?thesis
    by (auto simp: camera_page_event_def cam_initStreamState_def page_inv_def view_on_def)
next
  case CamToggleExpand
  let ?cs = "(sp_cams p n)\<lparr>cam_camera := \<not> cam_camera (sp_cams p n)\<rparr>"
  obtain cs' st os where v: "viewCamera n (cam_camera ?cs) (?cs, sp_streams p) = ((cs', st), os)"
    by (metis prod.exhaust)
  from CamToggleExpand ok view_inv [OF inv _ _ v] v show ?thesis
    by (simp add: camera_page_event_def cam_toggleExpand_def)
next
  case (CamSelect x)
  let ?cs = "(sp_cams p n)\<lparr>cam_selectedValue := x\<rparr>"
  obtain cs' st os where v: "viewCamera n (x = ''live'') (?cs, sp_streams p) = ((cs', st), os)"
    by (metis prod.exhaust)
  from CamSelect ok view_inv [OF inv _ _ v] v show ?thesis
    by (auto simp: camera_page_event_def selectCameraView_def Let_def)
next
  case CamTogglePCD
  with inv show ?thesis
    by (auto simp: camera_page_event_def cam_togglePCDExpand_def renderPCD_def Let_def intro!: page_inv_frame)
next
  case (CamStreamSettled i err)
  with ok settle_inv [OF inv, of i n] inv show ?thesis
    by (auto simp: camera_page_event_def viewCamera_rest_def displayError_def)
next
  case (CamPointCloud err r)
  with inv show ?thesis
    by (cases err) (auto simp: camera_page_event_def renderPCD_done_def intro!: page_inv_frame)
qed (use inv in \<open>auto simp: camera_page_event_def refreshCamera_def exportScreenshot_def
       exportScreenshot_done_def split: option.splits\<close>)

lemma mount_previews:
  "list_all (\<lambda>r. \<not> stream_on m (rn_name r)) rs \<Longrightarrow> distinct (map fst m) \<Longrightarrow>
   distinct (map fst (fold (\<lambda>r. AList.update (rn_name r) False) rs m))
   \<and> stream_on (fold (\<lambda>r. AList.update (rn_name r) False) rs m) = stream_on m"
proof (induction rs arbitrary: m)
  case (Cons r rs)
  let ?m = "AList.update (rn_name r) False m"
  have on: "stream_on ?m = stream_on m" using Cons.prems by (auto simp: fun_eq_iff)
  moreover have "distinct (map fst ?m)" using Cons.prems by (simp add: distinct_update)
  ultimately show ?case using Cons.IH [of ?m] Cons.prems by simp
qed simp

lemma base_event_inv:
  assumes inv: "page_inv p" and ok: "base_event_ok props p e"
  shows "page_inv (base_page_event props e p)"
proof (cases "preview_of e")
  case (Some sel)
  let ?q = "base_page_event props e p"
  from Some ok have "preview_safe sel p" by (cases e) auto
  then have "sp_served ?q = {n. preview_on ?q n \<or> view_on ?q n}"
    using preview_tracks_iff [OF inv Some refl, of props] by simp
  moreover have "distinct (map fst (baseStreamStates (sp_streams ?q)))"
    using inv base_handle_preview [OF Some] by (simp add: page_inv_def distinct_preview)
  ultimately show ?thesis using inv by (simp add: page_inv_def)
next
  case None
  show ?thesis
  proof (cases "e = BaseMounted")
    case True
    with inv ok mount_previews [of "baseStreamStates (sp_streams p)"] show ?thesis
      by (auto simp: page_inv_def base_initStreamState_def view_on_def list_all_iff)
  next
    case False
    with inv base_handle_quiet [OF None] show ?thesis by (simp add: page_inv_def view_on_def)
  qed
qed

interpretation stream_page: step_invariant page_start "page_step et" page_inv for et
proof unfold_locales
  fix p assume "page_start p"
  then show "page_inv p" by (auto simp: page_start_def page_inv_def view_on_def stream_on_def)
next
  fix p q assume "page_step et p q" "page_inv p"
  then show "page_inv q" by (auto elim!: page_stepE intro: camera_event_inv base_event_inv)
qed

section \<open>Properties\<close>

text \<open>A page with one camera, before anything was mounted, and after its panel was expanded.\<close>

definition empty_page :: stream_page where
  "empty_page = \<lparr>sp_streams = \<lparr>baseStreamStates = [], cameraStreamStates = []\<rparr>, sp_cams = (\<lambda>_. camera_init),
     sp_bases = (\<lambda>_. \<lparr>bw_base = base_init, bw_pad = kbd_init,
                      bw_streams = \<lparr>baseStreamStates = [], cameraStreamStates = []\<rparr>\<rparr>),
     sp_served = {}\<rparr>"

definition cam_resource :: "string \<Rightarrow> resource_name" where
  "cam_resource n = \<lparr>rn_namespace = ''rdk'', rn_type = ''component'', rn_subtype = ''camera'', rn_name = n\<rparr>"

definition demo_base :: "string \<Rightarrow> base_props" where
  "demo_base n = \<lparr>bp_name = n, bp_resources = [cam_resource ''c'', cam_resource ''d''], bp_rcDebug = False\<rparr>"

definition mounted_page :: stream_page where
  "mounted_page = base_page_event (demo_base ''b'') BaseMounted empty_page"

lemmas page_run = camera_page_event_def base_page_event_def cam_initStreamState_def cam_toggleExpand_def
  camera_init_def viewCamera_def viewCamera_request_def stream_on_def Let_def

lemma mounted_page_streams:
  "sp_streams mounted_page = \<lparr>baseStreamStates = [(''c'', False), (''d'', False)], cameraStreamStates = []\<rparr>"
proof -
  have "filterResources (bp_resources (demo_base ''b'')) ''rdk'' ''component'' ''camera'' =
      [cam_resource ''c'', cam_resource ''d'']" by code_simp
  then show ?thesis by (simp add: mounted_page_def empty_page_def base_initStreamState_def cam_resource_def)
qed

lemma reach_mounted: "reach page_start (page_step et) mounted_page"
proof -
  have "page_start empty_page" by (simp add: page_start_def empty_page_def camera_init_def)
  then have "reach page_start (page_step et) empty_page" by (rule reach.start)
  moreover have "base_event_ok (demo_base ''b'') empty_page BaseMounted"
    by (simp add: empty_page_def stream_on_def list_all_iff)
  ultimately show ?thesis unfolding mounted_page_def by (blast intro: reach.next_step page_step.intros)
qed

text \<open>
  C13. The camera panels and the base panels together: in every state the page can reach, in
  whatever order the panels take events, the robot serves exactly the cameras that a base panel
  previews or whose camera panel last asked for its stream, and no camera panel awaits more than one
  request; once a panel awaits none, its flag says what it asked for. A step waits for the request
  under way before it toggles the same camera again, requests are accepted, panels are mounted with
  their cameras off, and previews are selected as \<open>preview_safe\<close> says.
\<close>

theorem stream_page_served:
  assumes "reach page_start (page_step et) p"
  shows "sp_served p = {n. preview_on p n \<or> view_on p n}
    \<and> (\<forall>n. cam_pending (sp_cams p n) = [] \<and> view_on p n = camera_on p n
           \<or> cam_pending (sp_cams p n) = [view_on p n])"
proof -
  have inv: "page_inv p" using assms by (rule stream_page.reach_inv)
  have "cam_pending (sp_cams p n) = [] \<and> view_on p n = camera_on p n
      \<or> cam_pending (sp_cams p n) = [view_on p n]" for n
  proof -
    from inv have "length (cam_pending (sp_cams p n)) \<le> 1" by (simp add: page_inv_def)
    then show ?thesis by (cases "cam_pending (sp_cams p n)") (simp_all add: view_on_def)
  qed
  with inv show ?thesis by (simp add: page_inv_def)
qed

theorem stream_page_served_witness:
  "sp_served (camera_page_event err_message ''c'' CamToggleExpand mounted_page) = {''c''}"
proof -
  let ?p = "camera_page_event err_message ''c'' CamToggleExpand mounted_page"
  have c: "sp_cams mounted_page = (\<lambda>_. camera_init)" by (simp add: mounted_page_def empty_page_def)
  have "camera_event_ok mounted_page ''c'' CamToggleExpand" by (simp add: c camera_init_def)
  then have r: "reach page_start (page_step err_message) ?p"
    by (blast intro: reach.next_step reach_mounted page_step.intros)
  have "sp_streams ?p = sp_streams mounted_page \<and> sp_cams ?p = (\<lambda>_. camera_init)(''c'' :=
      camera_init\<lparr>cam_camera := True, cam_pending := [True]\<rparr>)"
    by (simp add: page_run c mounted_page_streams addStream_def)
  moreover have "sp_served ?p = {n. preview_on ?p n \<or> view_on ?p n}" using stream_page_served [OF r] by blast
  ultimately show ?thesis by (auto simp: view_on_def stream_on_def mounted_page_streams camera_init_def)
qed

text \<open>
  C14. \<open>preview_safe\<close> is exact. From a state in which the robot serves what the panels ask for, a
  selection of previews, or a change of tab, which deselects them all, keeps that true exactly when
  the selection is safe, and it is always safe while no camera panel shows a previewed camera
  or the one selected.
\<close>

theorem preview_safe_exact:
  assumes "reach page_start (page_step et) p" and "preview_of e = Some sel"
  shows "((let q = base_page_event props e p in sp_served q = {n. preview_on q n \<or> view_on q n})
            \<longleftrightarrow> preview_safe sel p)
    \<and> (\<not> camera_on p sel \<and> (\<forall>k. preview_on p k \<longrightarrow> \<not> view_on p k) \<longrightarrow> preview_safe sel p)"
proof -
  have inv: "page_inv p" using assms(1) by (rule stream_page.reach_inv)
  then have "distinct (map fst (baseStreamStates (sp_streams p)))" by (simp add: page_inv_def)
  with preview_tracks_iff [OF inv assms(2) refl, of props] show ?thesis
    by (auto simp: Let_def preview_safe_map_of stream_on_def)
qed

theorem preview_safe_exact_witness:
  "preview_safe ''c'' mounted_page
   \<and> (let q = base_page_event (demo_base ''b'') (SelectPreview ''c'') mounted_page
      in sp_served q = {n. preview_on q n \<or> view_on q n})"
proof -
  have "\<not> camera_on mounted_page ''c'' \<and> (\<forall>k. preview_on mounted_page k \<longrightarrow> \<not> view_on mounted_page k)"
    by (auto simp: mounted_page_streams stream_on_def split: if_splits)
  with preview_safe_exact [OF reach_mounted, of "SelectPreview ''c''" "''c''" "demo_base ''b''"]
  show ?thesis by simp
qed

text \<open>
  C15. The base panels share one map of previews, so the last selection wins, whatever it is and whatever
  the other panels have selected or show. After it the previewed cameras are exactly those of the map
  that it names. If no camera panel shows the camera selected, the robot serves these and what the camera
  panels asked for, less every camera whose preview ended: that camera is dropped even if its own panel
  shows it. If a camera panel shows the camera selected, no request is sent and the robot serves what it
  served before. The selections of the other base panels, and so the previews they draw, stay as they were.
\<close>

theorem last_selection_wins:
  assumes r: "reach page_start (page_step et) p"
  shows "let q = base_page_event props (SelectPreview sel) p;
             named = {k. map_of (baseStreamStates (sp_streams p)) k \<noteq> None \<and> sublist k sel}
         in {k. preview_on q k} = named
            \<and> sp_served q = (if camera_on p sel then {k. preview_on p k \<or> view_on p k}
                             else named \<union> {k. view_on p k \<and> (preview_on p k \<longrightarrow> k \<in> named)})
            \<and> selectCameras (bw_base (sp_bases q (bp_name props))) = sel
            \<and> (\<forall>b. b \<noteq> bp_name props \<longrightarrow> sp_bases q b = sp_bases p b) \<and> sp_cams q = sp_cams p"
proof -
  define q where "q = base_page_event props (SelectPreview sel) p"
  define named where "named = {k. map_of (baseStreamStates (sp_streams p)) k \<noteq> None \<and> sublist k sel}"
  have inv: "page_inv p" using r by (rule stream_page.reach_inv)
  then have d: "distinct (map fst (baseStreamStates (sp_streams p)))" and
    served: "sp_served p = {k. preview_on p k \<or> view_on p k}" by (simp_all add: page_inv_def)
  have e: "preview_of (SelectPreview sel) = Some sel" by simp
  note eff = preview_effect [OF d e q_def]
  have "{k. preview_on q k} = named"
    by (auto simp: stream_on_def eff(1) js_includes_sublist named_def)
  moreover have "m \<in> sp_served q \<longleftrightarrow> m \<in> (if camera_on p sel then {k. preview_on p k \<or> view_on p k}
      else named \<union> {k. view_on p k \<and> (preview_on p k \<longrightarrow> k \<in> named)})" for m
    unfolding eff(4) served named_def
    by (auto simp: stream_on_def js_includes_sublist split: option.splits)
  moreover have "selectCameras (bw_base (sp_bases q (bp_name props))) = sel"
    by (simp add: q_def base_page_event_def split_def Let_def)
  moreover have "b \<noteq> bp_name props \<Longrightarrow> sp_bases q b = sp_bases p b" for b
    by (simp add: q_def base_page_event_def split_def Let_def)
  moreover have "sp_cams q = sp_cams p" by (simp add: q_def)
  ultimately show ?thesis unfolding Let_def q_def [symmetric] named_def [symmetric] by blast
qed

text \<open>Two base panels: \<open>a\<close> previews \<open>c\<close>, then \<open>b\<close> previews \<open>d\<close>.\<close>

definition previewing_page :: stream_page where
  "previewing_page = base_page_event (demo_base ''a'') (SelectPreview ''c'') mounted_page"

theorem last_selection_wins_witness:
  "selectCameras (bw_base (sp_bases previewing_page ''a'')) = ''c'' \<and> sp_served previewing_page = {''c''}
   \<and> (let q = base_page_event (demo_base ''b'') (SelectPreview ''d'') previewing_page
      in sp_served q = {''d''} \<and> sp_bases q ''a'' = sp_bases previewing_page ''a'')"
proof -
  let ?b = "demo_base ''b''"
  have c: "sp_cams mounted_page = (\<lambda>_. camera_init)" "sp_served mounted_page = {}"
    by (simp_all add: mounted_page_def empty_page_def)
  have "preview_safe ''c'' mounted_page"
    by (simp add: preview_safe_def view_on_def c mounted_page_streams camera_init_def stream_on_def)
  then have "base_event_ok (demo_base ''a'') mounted_page (SelectPreview ''c'')" by simp
  then have r: "reach page_start (page_step err_message) previewing_page"
    unfolding previewing_page_def by (blast intro: reach.next_step reach_mounted page_step.intros)
  have v: "viewPreviewCamera ''c'' (sp_streams mounted_page) =
      (\<lparr>baseStreamStates = [(''c'', True), (''d'', False)], cameraStreamStates = []\<rparr>, addStream ''c'')"
    by (simp add: mounted_page_streams viewPreviewCamera_def preview_step_def stream_on_def)
  have p: "sp_streams previewing_page = \<lparr>baseStreamStates = [(''c'', True), (''d'', False)], cameraStreamStates = []\<rparr>"
    "sp_cams previewing_page = (\<lambda>_. camera_init)" "sp_served previewing_page = {''c''}"
    "selectCameras (bw_base (sp_bases previewing_page ''a'')) = ''c''"
    by (simp_all add: previewing_page_def v c addStream_def)
      (simp add: base_page_event_def v demo_base_def)
  have "sublist [CHR ''c''] [CHR ''d''] = False" "sublist [CHR ''d''] [CHR ''d'']" by (simp_all add: sublist_code)
  then have "{k. map_of (baseStreamStates (sp_streams previewing_page)) k \<noteq> None \<and> sublist k ''d''} = {''d''}"
    by (auto simp: p split: if_splits)
  moreover have "\<not> view_on previewing_page k" "\<not> camera_on previewing_page k" for k
    by (simp_all add: view_on_def p camera_init_def stream_on_def)
  ultimately show ?thesis using last_selection_wins [OF r, of ?b "''d''"] p
    by (simp add: demo_base_def Let_def del: base_page_simps)
qed

end
