(* ===== verification/Sensors_Panel.thy ===== *)
theory Sensors_Panel
  imports Readouts
begin

text \<open>
  The whole sensors panel \<open>components/sensors.vue\<close>: its table, its buttons and the answers that come
  back in any order. What the table shows is a function of the answers received so far.
\<close>

section \<open>The panel\<close>

record sensors_panel =
  sn_readings :: sensors_state
  sn_names :: "resource_name list"           \<comment> \<open>the prop \<open>sensorNames\<close>\<close>

type_synonym sensors_answer = "service_error + (resource_name option \<times> readings) list"

datatype sensors_event =
    SnGetAll                                 \<comment> \<open>Get All Readings\<close>
  | SnGet nat                                \<comment> \<open>Get Readings in a row\<close>
  | SnAnswer sensors_answer
  | SnNames "resource_name list"             \<comment> \<open>the shell passes a new list\<close>

fun sensors_handle :: "string \<Rightarrow> (sensors_panel, sensors_event, effect) handler" where
  "sensors_handle name p SnGetAll = (p, getReadings name (sn_names p))"
| "sensors_handle name p (SnGet i) =
     (p, if i < length (sn_names p) then getReadings name [sn_names p ! i] else [])"
| "sensors_handle name p (SnAnswer r) =
     (let (s, os) = getReadings_done r (sn_readings p) in (p\<lparr>sn_readings := s\<rparr>, os))"
| "sensors_handle name p (SnNames ns) = (p\<lparr>sn_names := ns\<rparr>, [])"

definition sensors_setup :: "resource_name list \<Rightarrow> sensors_panel" where
  "sensors_setup ns = \<lparr>sn_readings = [], sn_names = ns\<rparr>"

text \<open>A row per sensor: its name, its subtype and the table of its readings.\<close>

definition sensors_table ::
  "sensors_panel \<Rightarrow> (string \<times> string \<times> (string \<times> jsval \<times> string option) list) list throws" where
  "sensors_table p =
     mapE (\<lambda>r. bindE (sensor_rows (sn_readings p) r) (\<lambda>rows. Inr (rn_name r, rn_subtype r, rows))) (sn_names p)"

section \<open>The answers so far\<close>

text \<open>The items of an answer the loop gets to: it raises at the first one without a name.\<close>

fun answer_items :: "(resource_name option \<times> readings) list \<Rightarrow> (resource_name \<times> readings) list" where
  "answer_items ((Some n, rd) # items) = (n, rd) # answer_items items"
| "answer_items _ = []"

fun answered :: "sensors_event list \<Rightarrow> (resource_name \<times> readings) list" where
  "answered (SnAnswer (Inr items) # es) = answer_items items @ answered es"
| "answered (_ # es) = answered es"
| "answered [] = []"

definition latest_readings :: "sensors_event list \<Rightarrow> resource_name \<Rightarrow> readings" where
  "latest_readings es r =
     (case find (\<lambda>(n, rd). resourceNameToString (Some n) = resourceNameToString (Some r)) (rev (answered es)) of
        Some (n, rd) \<Rightarrow> rd | None \<Rightarrow> [])"

fun latest_names :: "resource_name list \<Rightarrow> sensors_event list \<Rightarrow> resource_name list" where
  "latest_names ns (SnNames ms # es) = latest_names ms es"
| "latest_names ns (_ # es) = latest_names ns es"
| "latest_names ns [] = ns"

lemma fold_items:
  "fst (fold (\<lambda>(n, rd) (s, raised). if raised then (s, raised)
       else case n of None \<Rightarrow> (s, True) | Some nm \<Rightarrow> (AList.update (resourceNameToString (Some nm)) rd s, False))
     items (s, b)) =
   (if b then s else fold (\<lambda>(n, rd). AList.update (resourceNameToString (Some n)) rd) (answer_items items) s)"
proof (induction items arbitrary: s b)
  case (Cons x items)
  then show ?case by (cases x; cases "fst x") auto
qed simp

lemma getReadings_done_items:
  "fst (getReadings_done (Inr items) s) =
     fold (\<lambda>(n, rd). AList.update (resourceNameToString (Some n)) rd) (answer_items items) s"
  "fst (getReadings_done (Inl e) s) = s"
  by (simp_all add: getReadings_done_def fold_items Let_def)

lemma sensors_run:
  "sn_readings (final (sensors_handle name) p es) =
     fold (\<lambda>(n, rd). AList.update (resourceNameToString (Some n)) rd) (answered es) (sn_readings p)"
  "sn_names (final (sensors_handle name) p es) = latest_names (sn_names p) es"
proof (induction es arbitrary: p)
  case (Cons e es)
  {
    case 1
    show ?case
    proof (cases e)
      case (SnAnswer r)
      with Cons show ?thesis by (cases r) (auto simp: run_Cons getReadings_done_items split_def Let_def)
    qed (use Cons in \<open>auto simp: run_Cons split_def Let_def\<close>)
  next
    case 2
    show ?case using Cons by (cases e) (auto simp: run_Cons split_def Let_def)
  }
qed simp_all

section \<open>Properties\<close>

text \<open>
  C30. Whatever is pressed and in whatever order the answers come, the table of the sensors has one row
  per sensor of the list in force, in its order, and each row shows the readings of the last answer
  that named the sensor, or none; or the page raises, exactly when one of these readings is null.
\<close>

theorem sensors_table_latest:
  "(case sensors_table (final (sensors_handle name) (sensors_setup ns) es) of
      Inl e \<Rightarrow> \<exists>r \<in> set (latest_names ns es). \<exists>(k, v) \<in> set (latest_readings es r). nullish v
    | Inr rows \<Rightarrow>
        list_all2 (\<lambda>r (nm, sub, shown). nm = rn_name r \<and> sub = rn_subtype r
            \<and> map (\<lambda>(k, v, link). (k, v)) shown = latest_readings es r) (latest_names ns es) rows
        \<and> (\<forall>r \<in> set (latest_names ns es). \<forall>(k, v) \<in> set (latest_readings es r). \<not> nullish v))"
proof -
  define p where "p = final (sensors_handle name) (sensors_setup ns) es"
  have data: "getData (sn_readings p) = latest_readings es" and names: "sn_names p = latest_names ns es"
    by (auto simp: p_def sensors_run sensors_setup_def getData_def latest_readings_def map_of_fold_update
        split: option.splits)
  have raises: "(\<exists>e. sensors_table p = Inl e) \<longleftrightarrow>
      (\<exists>r \<in> set (sn_names p). \<exists>(k, v) \<in> set (latest_readings es r). nullish v)"
    unfolding sensors_table_def mapE_raises data [symmetric] sensor_rows_raise [symmetric]
    by (auto simp: bindE_Inl_conv)
  have row: "map (\<lambda>(k, v, link). (k, v)) shown = latest_readings es r"
    if "sensor_rows (sn_readings p) r = Inr shown" for r shown
    using mapE_map [OF that [unfolded sensor_rows_def], of "\<lambda>(k, v, link). (k, v)" id]
    by (auto simp: data)
  show ?thesis
  proof (cases "sensors_table p")
    case (Inl e)
    with raises show ?thesis by (auto simp: p_def [symmetric] names)
  next
    case (Inr rows)
    then have "list_all2 (\<lambda>r (nm, sub, shown). nm = rn_name r \<and> sub = rn_subtype r
        \<and> map (\<lambda>(k, v, link). (k, v)) shown = latest_readings es r) (sn_names p) rows"
      unfolding sensors_table_def mapE_Inr_conv by (rule list.rel_mono_strong) (auto simp: row)
    with raises Inr show ?thesis by (auto simp: p_def [symmetric] names)
  qed
qed

theorem sensors_table_latest_witness:
  "(case sensors_table (final (sensors_handle ''s'') (sensors_setup [therm])
       [SnGetAll, SnAnswer (Inr [(Some therm, [(''t'', Bool True)])])]) of
      Inl e \<Rightarrow> False | Inr rows \<Rightarrow> map fst rows = [''t''])"
proof -
  let ?es = "[SnGetAll, SnAnswer (Inr [(Some therm, [(''t'', Bool True)])])]"
  have "latest_names [therm] ?es = [therm]" "latest_readings ?es therm = [(''t'', Bool True)]"
    by (simp_all add: latest_readings_def)
  with sensors_table_latest [of "[therm]" ?es "''s''"] show ?thesis
    by (auto simp: therm_def nullish_def list_all2_Cons1 split: sum.splits)
qed

text \<open>
  Every request of the panel goes to its service and asks for sensors of the list it was given.
\<close>

lemma sensors_requests:
  "Call r \<in> set (snd (sensors_handle name p e)) \<Longrightarrow>
     \<exists>rs. r = SensorsReq (GetReadings name rs) \<and> set rs \<subseteq> set (sn_names p)"
  by (cases e) (auto simp: getReadings_def getReadings_done_def Let_def split: if_splits sum.splits)

end
