(* ===== verification/Spec2Isabelle.thy ===== *)
theory Spec2Isabelle
  imports Resource Fixers Client Panel Streams Keyboard Base Actuators Arm Gamepad App_Status
    App_Connection App_View Readouts Do_Command Navigation Navigation_Page Slam Pcd_Laws Arm_Page
    Cloud_Panels Camera_Page Status_Views Stream_Page Sensors_Panel
begin

text \<open>
  The web frontend of the Viam RDK: a verification development.

  The program. \<open>src/web/frontend\<close> is the remote-control page of a robot: a Vue application that
  connects to the robot over gRPC (plain or over WebRTC), keeps a picture of its resources and their
  statuses, and shows one panel per component from which the component is driven. The shell
  \<open>src/app.vue\<close> owns the connection and the data; the panels under \<open>src/components\<close> get a name, a
  client and a status as props and send requests; \<open>src/lib\<close> holds the shared functions. The robot
  itself is written in Go and is not modelled: what it answers is an argument of the callback that
  receives the answer.

  How it is modelled. A panel's reactive variables are a record; each of its functions is a
  definition with the source's name (with a prefix where two panels share it) that returns the new
  state and the list of effects, in the order in which the code has them. An effect is a request to
  the client, a toast, a console line, a timer or an exception that leaves the handler. An \<open>await\<close>
  splits a function in two: what runs up to it, and a continuation that is an event of its own, so
  any other event may come in between. The template's bindings and the hooks are the events of the
  panel, and its handler maps a state and an event to a new state and effects. Exceptions that are
  caught or propagate within a function are values of a sum type.

  The theories.
  \<^item> The language. \<open>Js_Prelude\<close>: exceptions, strings, sets and dictionaries. \<open>Js_Number\<close>: IEEE doubles
    over the rationals with correct rounding, and the error bounds of the operations. \<open>Js_Value\<close>:
    dynamic values. \<open>Js_Format\<close>: printing and reading numbers, conversions and \<open>+\<close>; a printed number
    reads back as itself. \<open>Js_Float32\<close>: single precision, as the arrays of a mesh store it. \<open>Js_Sqrt\<close>: square roots.
    \<open>Js_Json\<close>: \<open>JSON.stringify\<close> and \<open>JSON.parse\<close>; what is printed reads back. \<open>Js_Sort\<close>: \<open>Array.sort\<close> with a comparator; the locales \<open>array_sort\<close> and
    \<open>array_sort_total\<close> say when the result is sorted and when it is determined.
  \<^item> The frame. \<open>Event_System\<close>: runs of handlers and the locales \<open>invariant_system\<close>, \<open>effect_system\<close>,
    \<open>history_system\<close> and \<open>trace_system\<close>, which carry invariants, effect contracts and properties of what was
    emitted and of the events so far from one event to all event orders; the reachable states of a step relation (\<open>reach\<close>) and the locale
    \<open>step_invariant\<close> for them. \<open>Client\<close>: requests, effects, \<open>lib/error.ts\<close>, \<open>lib/log.ts\<close>,
    \<open>lib/stream.ts\<close>. \<open>Panel\<close>: the contract that a panel addresses its own component only.
  \<^item> The data. \<open>Resource\<close>: \<open>lib/resource.ts\<close> and \<open>stringToResourceName\<close>; filtering, the order of the
    lists, printing and parsing of names; names are a linear order, in which the lists are sorted. \<open>Fixers\<close>: \<open>lib/fixers.ts\<close> and \<open>fixRawStatus\<close>; what each fixer
    returns and when it raises.
  \<^item> The panels. \<open>Streams\<close>: \<open>lib/camera-state.ts\<close>, \<open>camera.vue\<close>, \<open>audio-input.vue\<close>; the guards of the
    stream requests, the bookkeeping against the set of served streams, and a race. \<open>Keyboard\<close>:
    \<open>keyboard-input.vue\<close>, with the locale \<open>key_sink\<close> for a parent that mirrors its keys. \<open>Base\<close>: \<open>base.vue\<close>
    with the pad inside; the motion command in force is the one of the held keys, and a released pad
    means a stopped base. \<open>Actuators\<close>: \<open>motor-detail.vue\<close>, \<open>servo.vue\<close>, \<open>gantry.vue\<close>, \<open>gripper.vue\<close>,
    \<open>board.vue\<close> and \<open>lib/math.ts\<close>; \<open>Arm\<close>: \<open>arm.vue\<close>, whose joint list is shared with the shell;
    \<open>Gamepad\<close>: \<open>gamepad.vue\<close>, whose time stamps increase whatever the clock does.
    \<open>Readouts\<close>: the panels that only show, \<open>input-controller.vue\<close>, \<open>sensors.vue\<close>,
    \<open>operations-sessions.vue\<close> and \<open>movement-sensor.vue\<close>; what they list, and the refresh loop of the
    movement sensor, which is never doubled but ends at the first error; the numbers it shows are those
    of the last answers up to rounding.
    \<open>Sensors_Panel\<close>: the whole sensors panel, whose table shows the last answer for each sensor.
    \<open>Do_Command\<close>: \<open>do-command.vue\<close>, a command typed as JSON; one call at a time, for the component that is
    selected. \<open>Navigation\<close>: \<open>navigation.vue\<close>, where each run of \<open>initNavigation\<close> polls waypoints and location
    for ever and keeps markers of its own, while all runs share one variable for the map; a run's markers
    are the waypoints of the robot, and a second run doubles them on the map. \<open>Slam\<close>: \<open>slam.vue\<close>
    with the intervals of the browser. \<open>Pcd\<close>: \<open>pcd.vue\<close> over a record of three.js operations, and
    \<open>Pcd_Laws\<close>: the locale \<open>three_laws\<close> with the documented behaviour of those operations, what the viewer
    shows and sends under it, and an implementation of the laws.
    \<open>Status_Views\<close>: the table of the gantry, the badges of the motor and the angle of the servo.
  \<^item> Panels together. \<open>Cloud_Panels\<close>: a camera or slam panel with the viewer inside it; the locales
    \<open>cloud_panel\<close>, \<open>cloud_host\<close> and \<open>quiet_panel\<close> say what the composition needs of a panel and carry that
    the viewer shows the cloud received last and what its moves look like; the panel binds the viewer's props from its own name and the resources it was
    given last. \<open>Arm_Page\<close>: the arm panels in the shell, whose joint operations write into the shell's raw
    status; what each name's raw and displayed status are, from the history of messages. \<open>Navigation_Page\<close>:
    several navigation panels and the one \<open>window.googleMapsInit\<close> they assign. \<open>Camera_Page\<close>: the camera panels
    in the shell, which share one refresh, and the pictures in their containers. \<open>Stream_Page\<close>: camera panels
    and base panels over the shared stream maps, as a step relation with the streams the robot serves; when
    the robot serves exactly what the panels ask for, which selections of previews break that, and what
    a selection in one base panel does to the others. There requests take effect in the order sent, a camera is
    toggled again only after its request has settled, and no request is refused; what happens
    otherwise is the subject of \<open>Streams.camera_toggle_race\<close> and \<open>Base.preview_drops_camera_stream\<close>.
  \<^item> The shell. \<open>App_Status\<close>: the statuses, the status stream, the resource list, operations and
    sessions. \<open>App_Connection\<close>: \<open>manageLoop\<close> as a machine over its five awaits, the reports of errors,
    and signing in, with the promise \<open>connectedFirstTime\<close> and the mounted hook that waits for it; the writes of
    the arm panels into the raw status are added in \<open>Arm_Page\<close>. \<open>App_View\<close>: the panels the template renders and the refresh of camera frames.

  Bounds and termination. Every definition is total. There are two fuels. The search for the
  shortest digits of a number (\<open>Js_Format.shortest\<close>) has \<open>n + 1080\<close> steps for a number with decimal
  exponent \<open>n\<close>, enough because every double is a multiple of \<open>2 ^ (- 1074)\<close> and so of
  \<open>10 ^ (- 1074)\<close>; that the search succeeds is part of the proof that printed numbers read back.
  The reader of JSON texts has \<open>2 * n + 1\<close> for a text of length \<open>n\<close>, enough because every second call
  consumes a character; more fuel never changes the answer (\<open>Js_Json.JSON_parse_any_fuel\<close>).
  \<open>manageLoop\<close> is a machine, and its progress is a theorem about the rank of its phase.

  Parameters. \<open>ConnectionClosedError.isError\<close> of the SDK, \<open>Struct.fromJavaScript\<close> of protobuf and the
  printed form of an error are function arguments with no assumption; whether the SDK has the class
  \<open>ResourceRunCommandRequest\<close> is a flag. The operations of three.js are a record, and the theorems about
  the viewer's scene assume \<open>three_laws\<close> of it. The time, the browser's gamepads, what a mouse ray hits and the
  settings of the page come with the events or as records. Strings are lists of characters below 256.
  Numbers that number inputs deliver are numbers.

  Not modelled. The styling of the templates and the icons; inside three.js, the drawing; of
  \<open>pcd.vue\<close>, the functions whose bodies are commented out; the entry point and the re-export of the toast
  library; the build configuration and the tests; the robot, which is written in Go.
\<close>

end
